(* ===== verification/Relay_Prelude.thy ===== *)
theory Relay_Prelude
  imports
    Main
    "HOL-Library.Word"
    "HOL-Library.AList"
    "HOL-Library.Char_ord"
    "HOL-Library.List_Lexorder"
    "HOL-Library.Multiset"
begin

text \<open>
  Shared vocabulary of the development.

  A Rust \<open>String\<close>, \<open>&str\<close> or \<open>Vec<u8>\<close> is the list of its bytes: \<^typ>\<open>string\<close>,
  whose \<^typ>\<open>char\<close> is one byte. Lengths, prefixes and the byte order used by
  \<open>str::cmp\<close> are then those of the code. Character level operations of the code
  (\<open>trim\<close>, \<open>is_whitespace\<close>) are written over UTF-8 sequences.

  A Rust \<open>HashMap\<close> is an association list with distinct keys; its order stands for
  the iteration order of the map, which the code never relies on. Where the code does
  iterate, the order is a parameter of the operation (the environments of the store)
  or the result is sorted.
\<close>

section \<open>Fact collections\<close>

named_theorems hmap_laws \<open>lookups after an update of a hash map\<close>
named_theorems str_defs \<open>string operations, to evaluate them on closed terms\<close>

section \<open>Machine integers\<close>

type_synonym u32 = "32 word"
type_synonym u64 = "64 word"
type_synonym bytes = string

definition usize_mod :: nat where
  "usize_mod = 2 ^ 64"

text \<open>\<open>saturating_sub\<close>, \<open>saturating_mul\<close>, \<open>clamp\<close> of \<open>u32\<close>.\<close>

definition sat_sub_u32 :: "u32 \<Rightarrow> u32 \<Rightarrow> u32" where
  "sat_sub_u32 a b = (if a < b then 0 else a - b)"

definition sat_mul_u32 :: "u32 \<Rightarrow> u32 \<Rightarrow> u32" where
  "sat_mul_u32 a b = (if 2 ^ 32 \<le> unat a * unat b then 0xFFFFFFFF else a * b)"

definition clamp :: "'a::linorder \<Rightarrow> 'a \<Rightarrow> 'a \<Rightarrow> 'a" where
  "clamp x lo hi = (if x < lo then lo else if hi < x then hi else x)"

lemma unat_sat_sub_u32: "unat (sat_sub_u32 a b) = unat a - unat b"
  by (auto simp: sat_sub_u32_def word_less_nat_alt unat_sub_if_size word_le_nat_alt)

lemma unat_sat_mul_u32: "unat (sat_mul_u32 a b) = min (unat a * unat b) (2 ^ 32 - 1)"
proof (cases "2 ^ 32 \<le> unat a * unat b")
  case True
  then show ?thesis by (simp add: sat_mul_u32_def)
next
  case False
  then show ?thesis
    by (simp add: sat_mul_u32_def unat_word_ariths)
qed

text \<open>Executed without leaving the width of the word.\<close>

lemma sat_mul_u32_code [code]:
  "sat_mul_u32 a b = (if b \<noteq> 0 \<and> 0xFFFFFFFF div b < a then 0xFFFFFFFF else a * b)"
proof (cases "b = 0")
  case True
  then show ?thesis by (simp add: sat_mul_u32_def)
next
  case False
  then have pos: "0 < unat b" by (simp add: unat_gt_0)
  have "(0xFFFFFFFF div b < a) = ((2 ^ 32 - 1) div unat b < unat a)"
    by (simp add: word_less_nat_alt unat_div)
  also have "\<dots> = (2 ^ 32 - 1 < unat a * unat b)" by (rule div_less_iff_less_mult [OF pos])
  finally have "(0xFFFFFFFF div b < a) = (2 ^ 32 \<le> unat a * unat b)" by auto
  then show ?thesis using False by (simp add: sat_mul_u32_def)
qed

lemma clamp_bounds:
  fixes x :: "'a::linorder"
  assumes "lo \<le> hi"
  shows "lo \<le> clamp x lo hi" "clamp x lo hi \<le> hi"
  using assms by (auto simp: clamp_def)

lemma clamp_id: "lo \<le> x \<Longrightarrow> x \<le> hi \<Longrightarrow> clamp x lo (hi :: 'a::linorder) = x"
  by (auto simp: clamp_def)

lemma clamp_idem: "lo \<le> hi \<Longrightarrow> clamp (clamp x lo hi) lo hi = clamp x lo (hi :: 'a::linorder)"
  by (auto simp: clamp_def)

section \<open>Hash maps\<close>

type_synonym ('k, 'v) hmap = "('k \<times> 'v) list"

definition hm_get :: "('k, 'v) hmap \<Rightarrow> 'k \<Rightarrow> 'v option" where
  "hm_get m k = map_of m k"

definition hm_insert :: "'k \<Rightarrow> 'v \<Rightarrow> ('k, 'v) hmap \<Rightarrow> ('k, 'v) hmap" where
  "hm_insert k v m = AList.update k v m"

definition hm_remove :: "'k \<Rightarrow> ('k, 'v) hmap \<Rightarrow> ('k, 'v) hmap" where
  "hm_remove k m = AList.delete k m"

definition hm_contains :: "('k, 'v) hmap \<Rightarrow> 'k \<Rightarrow> bool" where
  "hm_contains m k = (hm_get m k \<noteq> None)"

definition hm_values :: "('k, 'v) hmap \<Rightarrow> 'v list" where
  "hm_values m = map snd m"

definition hm_ok :: "('k, 'v) hmap \<Rightarrow> bool" where
  "hm_ok m = distinct (map fst m)"

lemma hm_get_Nil [simp]: "hm_get [] k = None"
  by (simp add: hm_get_def)

lemma hm_get_Cons [simp]: "hm_get ((k, v) # m) k' = (if k' = k then Some v else hm_get m k')"
  by (simp add: hm_get_def)

lemma hm_insert_Nil [simp]: "hm_insert k v [] = [(k, v)]"
  by (simp add: hm_insert_def)

lemma hm_insert_Cons [simp]:
  "hm_insert k v ((k', v') # m) = (if k = k' then (k, v) # m else (k', v') # hm_insert k v m)"
  by (simp add: hm_insert_def)

lemma hm_remove_Nil [simp]: "hm_remove k [] = []"
  by (simp add: hm_remove_def)

lemma hm_remove_Cons [simp]:
  "hm_remove k ((k', v') # m) = (if k = k' then hm_remove k m else (k', v') # hm_remove k m)"
  by (simp add: hm_remove_def)

lemma hm_get_insert [simp, hmap_laws]:
  "hm_get (hm_insert k v m) k' = (if k' = k then Some v else hm_get m k')"
  by (simp add: hm_get_def hm_insert_def update_conv)

lemma hm_get_remove [simp, hmap_laws]:
  "hm_get (hm_remove k m) k' = (if k' = k then None else hm_get m k')"
  by (simp add: hm_get_def hm_remove_def delete_conv)

lemma hm_ok_Nil [simp]: "hm_ok []"
  by (simp add: hm_ok_def)

lemma hm_ok_insert [simp, intro]: "hm_ok m \<Longrightarrow> hm_ok (hm_insert k v m)"
  by (simp add: hm_ok_def hm_insert_def distinct_update)

lemma hm_ok_remove [simp, intro]: "hm_ok m \<Longrightarrow> hm_ok (hm_remove k m)"
  by (simp add: hm_ok_def hm_remove_def distinct_delete)

lemma hm_get_SomeD: "hm_get m k = Some v \<Longrightarrow> (k, v) \<in> set m"
  by (simp add: hm_get_def map_of_SomeD)

lemma hm_get_iff: "hm_ok m \<Longrightarrow> hm_get m k = Some v \<longleftrightarrow> (k, v) \<in> set m"
  by (simp add: hm_get_def hm_ok_def)

lemma hm_get_None_iff: "hm_get m k = None \<longleftrightarrow> k \<notin> fst ` set m"
  by (simp add: hm_get_def map_of_eq_None_iff)

lemma hm_set_insert:
  "hm_ok m \<Longrightarrow> set (hm_insert k v m) = insert (k, v) {p \<in> set m. fst p \<noteq> k}"
proof (induction m)
  case Nil
  then show ?case by simp
next
  case (Cons p m)
  obtain k' v' where p: "p = (k', v')" by (cases p)
  from Cons.prems p have ok: "hm_ok m" and fresh: "k' \<notin> fst ` set m"
    by (auto simp: hm_ok_def)
  from Cons.IH [OF ok] fresh show ?case by (force simp: p)
qed

lemma hm_set_remove: "set (hm_remove k m) = {p \<in> set m. fst p \<noteq> k}"
  by (auto simp: hm_remove_def AList.delete_eq)

lemma hm_remove_absent: "hm_get m k = None \<Longrightarrow> hm_remove k m = m"
  by (induction m) (auto split: if_splits)

lemma hm_insert_same: "hm_get m k = Some v \<Longrightarrow> hm_insert k v m = m"
  by (induction m) (auto split: if_splits)

text \<open>
  The laws every client of a map uses, as an interface. The clients of this development
  (resource tables of the store, message attributes, idempotency tables) are over the
  association lists, which the interpretation connects to it.
\<close>

locale hash_map =
  fixes get :: "'m \<Rightarrow> 'k \<Rightarrow> 'v option"
    and ins :: "'k \<Rightarrow> 'v \<Rightarrow> 'm \<Rightarrow> 'm"
    and rem :: "'k \<Rightarrow> 'm \<Rightarrow> 'm"
    and ok :: "'m \<Rightarrow> bool"
  assumes get_ins: "ok m \<Longrightarrow> get (ins k v m) k' = (if k' = k then Some v else get m k')"
    and get_rem: "ok m \<Longrightarrow> get (rem k m) k' = (if k' = k then None else get m k')"
    and ok_ins: "ok m \<Longrightarrow> ok (ins k v m)"
    and ok_rem: "ok m \<Longrightarrow> ok (rem k m)"
begin

definition entry_or_insert :: "'k \<Rightarrow> 'v \<Rightarrow> 'm \<Rightarrow> 'm" where
  "entry_or_insert k v m = (case get m k of Some _ \<Rightarrow> m | None \<Rightarrow> ins k v m)"

lemma get_entry: 
  "ok m \<Longrightarrow> get (entry_or_insert k v m) k' =
     (if k' = k then Some (case get m k of Some w \<Rightarrow> w | None \<Rightarrow> v) else get m k')"
  by (auto simp: entry_or_insert_def get_ins split: option.splits)

lemma ok_entry: "ok m \<Longrightarrow> ok (entry_or_insert k v m)"
  by (auto simp: entry_or_insert_def ok_ins split: option.splits)

lemma get_fold_ins:
  "ok m \<Longrightarrow> ok (fold (\<lambda>(k, v). ins k v) kvs m)
     \<and> get (fold (\<lambda>(k, v). ins k v) kvs m) k =
        (case map_of (rev kvs) k of Some v \<Rightarrow> Some v | None \<Rightarrow> get m k)"
proof (induction kvs arbitrary: m)
  case Nil
  then show ?case by simp
next
  case (Cons kv kvs)
  obtain k' v' where kv: "kv = (k', v')" by (cases kv)
  have ok': "ok (ins k' v' m)" using Cons.prems by (rule ok_ins)
  show ?case
    using Cons.IH [OF ok'] Cons.prems
    by (auto simp: kv get_ins map_add_def split: option.splits)
qed

end

interpretation hm: hash_map hm_get hm_insert hm_remove hm_ok
  by unfold_locales auto

text \<open>\<open>entry(k).or_insert(v)\<close>\<close>

definition hm_entry_or_insert :: "'k \<Rightarrow> 'v \<Rightarrow> ('k, 'v) hmap \<Rightarrow> ('k, 'v) hmap" where
  "hm_entry_or_insert k v m = (case hm_get m k of Some _ \<Rightarrow> m | None \<Rightarrow> hm_insert k v m)"

lemma hm_entry_eq: "hm_entry_or_insert = hm.entry_or_insert"
  by (intro ext) (simp add: hm_entry_or_insert_def hm.entry_or_insert_def)

lemma hm_get_entry [simp, hmap_laws]:
  "hm_get (hm_entry_or_insert k v m) k' =
     (if k' = k then Some (case hm_get m k of Some w \<Rightarrow> w | None \<Rightarrow> v) else hm_get m k')"
  by (auto simp: hm_entry_or_insert_def split: option.splits)

lemma hm_ok_entry [simp, intro]: "hm_ok m \<Longrightarrow> hm_ok (hm_entry_or_insert k v m)"
  unfolding hm_entry_eq by (rule hm.ok_entry)

end
