(* ===== verification/Byte_Strings.thy ===== *)
theory Byte_Strings
  imports Relay_Prelude
begin

text \<open>
  The string operations of the Rust standard library that the program calls, over byte
  lists: prefixes and substrings, splitting at a byte, Unicode white space in UTF-8,
  ASCII case, decimal rendering (\<open>to_string\<close>) and parsing (\<open>parse::<usize>\<close>).
\<close>

section \<open>Prefixes, substrings, splitting\<close>

definition starts_with :: "string \<Rightarrow> string \<Rightarrow> bool" where
  "starts_with s p = (take (length p) s = p)"

definition ends_with :: "string \<Rightarrow> string \<Rightarrow> bool" where
  "ends_with s p = (starts_with (rev s) (rev p))"

definition strip_prefix :: "string \<Rightarrow> string \<Rightarrow> string option" where
  "strip_prefix p s = (if starts_with s p then Some (drop (length p) s) else None)"

fun str_contains :: "string \<Rightarrow> string \<Rightarrow> bool" where
  "str_contains [] p = (p = [])"
| "str_contains (c # s) p = (starts_with (c # s) p \<or> str_contains s p)"

text \<open>\<open>s.split(c)\<close>: always at least one component.\<close>

fun split_on :: "char \<Rightarrow> string \<Rightarrow> string list" where
  "split_on c [] = [[]]"
| "split_on c (x # s) =
     (if x = c then [] # split_on c s
      else (case split_on c s of [] \<Rightarrow> [[x]] | p # ps \<Rightarrow> (x # p) # ps))"

text \<open>\<open>s.rsplit(c).next()\<close>\<close>

definition rsplit_last :: "char \<Rightarrow> string \<Rightarrow> string" where
  "rsplit_last c s = last (split_on c s)"

text \<open>\<open>s.split_once(c)\<close>\<close>

fun split_once :: "char \<Rightarrow> string \<Rightarrow> (string \<times> string) option" where
  "split_once c [] = None"
| "split_once c (x # s) =
     (if x = c then Some ([], s) else map_option (\<lambda>(a, b). (x # a, b)) (split_once c s))"

lemma starts_with_append [simp]: "starts_with (p @ s) p"
  by (simp add: starts_with_def)

lemma starts_with_Nil [simp]: "starts_with s []"
  by (simp add: starts_with_def)

lemma starts_with_Cons [simp]:
  "starts_with (c # s) (d # p) = (c = d \<and> starts_with s p)"
  by (auto simp: starts_with_def)

lemma starts_with_Nil_Cons [simp]: "\<not> starts_with [] (d # p)"
  by (simp add: starts_with_def)

lemma starts_with_iff: "starts_with s p \<longleftrightarrow> (\<exists>r. s = p @ r)"
  by (metis append_take_drop_id starts_with_append starts_with_def)

lemma strip_prefix_Some: "strip_prefix p s = Some r \<longleftrightarrow> s = p @ r"
  by (auto simp: strip_prefix_def starts_with_iff)

lemma split_on_nonempty [simp]: "split_on c s \<noteq> []"
  by (induction s) (auto split: list.splits)

lemma split_on_no_sep: "c \<notin> set s \<Longrightarrow> split_on c s = [s]"
  by (induction s) auto

lemma split_on_append: "c \<notin> set p \<Longrightarrow> split_on c (p @ c # s) = p # split_on c s"
  by (induction p) auto

lemma split_on_Cons:
  "split_on c s = p # ps \<Longrightarrow>
     c \<notin> set p \<and> (ps = [] \<and> s = p \<or> (\<exists>s'. s = p @ c # s' \<and> split_on c s' = ps))"
proof (induction s arbitrary: p ps)
  case Nil
  then show ?case by simp
next
  case (Cons x s)
  show ?case
  proof (cases "x = c")
    case True
    then show ?thesis using Cons.prems by auto
  next
    case False
    obtain q qs where q: "split_on c s = q # qs" by (cases "split_on c s") auto
    then show ?thesis using Cons.IH [OF q] Cons.prems False by auto
  qed
qed

lemma split_once_first: "c \<notin> set a \<Longrightarrow> split_once c (a @ c # b) = Some (a, b)"
  by (induction a) auto

lemma split_on_comps: "x \<in> set (split_on c s) \<Longrightarrow> c \<notin> set x"
proof (induction s arbitrary: x)
  case Nil
  then show ?case by simp
next
  case (Cons y s)
  obtain p ps where ps: "split_on c s = p # ps"
    by (cases "split_on c s") auto
  have p: "c \<notin> set p" using Cons.IH [of p] ps by simp
  show ?case
  proof (cases "y = c")
    case True
    then show ?thesis using Cons ps by auto
  next
    case False
    with Cons.prems ps have "x = y # p \<or> x \<in> set ps" by auto
    then show ?thesis using False p Cons.IH [of x] ps by auto
  qed
qed

section \<open>White space and trimming\<close>

text \<open>
  The UTF-8 encodings of the code points with the Unicode property White\_Space,
  which is what \<open>char::is_whitespace\<close> tests.
\<close>

definition utf8_whitespace :: "string list" where
  "utf8_whitespace =
     [[CHR 0x09], [CHR 0x0A], [CHR 0x0B], [CHR 0x0C], [CHR 0x0D], [CHR 0x20],
      [CHR 0xC2, CHR 0x85], [CHR 0xC2, CHR 0xA0], [CHR 0xE1, CHR 0x9A, CHR 0x80],
      [CHR 0xE2, CHR 0x80, CHR 0x80], [CHR 0xE2, CHR 0x80, CHR 0x81],
      [CHR 0xE2, CHR 0x80, CHR 0x82], [CHR 0xE2, CHR 0x80, CHR 0x83],
      [CHR 0xE2, CHR 0x80, CHR 0x84], [CHR 0xE2, CHR 0x80, CHR 0x85],
      [CHR 0xE2, CHR 0x80, CHR 0x86], [CHR 0xE2, CHR 0x80, CHR 0x87],
      [CHR 0xE2, CHR 0x80, CHR 0x88], [CHR 0xE2, CHR 0x80, CHR 0x89],
      [CHR 0xE2, CHR 0x80, CHR 0x8A], [CHR 0xE2, CHR 0x80, CHR 0xA8],
      [CHR 0xE2, CHR 0x80, CHR 0xA9], [CHR 0xE2, CHR 0x80, CHR 0xAF],
      [CHR 0xE2, CHR 0x81, CHR 0x9F], [CHR 0xE3, CHR 0x80, CHR 0x80]]"

text \<open>Drop leading members of \<open>ws\<close> (all of them non-empty) as long as there is one.\<close>

function strip_any :: "string list \<Rightarrow> string \<Rightarrow> string" where
  "strip_any ws s =
     (case List.find (\<lambda>w. w \<noteq> [] \<and> starts_with s w) ws of
        None \<Rightarrow> s
      | Some w \<Rightarrow> strip_any ws (drop (length w) s))"
  by pat_completeness auto
termination
  by (relation "measure (\<lambda>(ws, s). length s)")
    (auto simp: find_Some_iff starts_with_iff)

declare strip_any.simps [simp del]

definition trim_start :: "string \<Rightarrow> string" where
  "trim_start s = strip_any utf8_whitespace s"

definition trim_end :: "string \<Rightarrow> string" where
  "trim_end s = rev (strip_any (map rev utf8_whitespace) (rev s))"

definition trim :: "string \<Rightarrow> string" where
  "trim s = trim_end (trim_start s)"

lemma strip_any_id:
  "(\<And>w. w \<in> set ws \<Longrightarrow> w \<noteq> [] \<Longrightarrow> \<not> starts_with s w) \<Longrightarrow> strip_any ws s = s"
  by (subst strip_any.simps) (auto simp: find_None_iff split: option.splits dest!: find_Some_iff [THEN iffD1])

lemma strip_any_suffix: "\<exists>p. s = p @ strip_any ws s"
proof (induction ws s rule: strip_any.induct)
  case (1 ws s)
  show ?case
  proof (cases "List.find (\<lambda>w. w \<noteq> [] \<and> starts_with s w) ws")
    case None
    then show ?thesis by (subst strip_any.simps) simp
  next
    case (Some w)
    then have "s = w @ drop (length w) s"
      by (auto simp: find_Some_iff starts_with_iff)
    moreover from "1.IH" [OF Some] obtain p
      where "drop (length w) s = p @ strip_any ws (drop (length w) s)" by blast
    ultimately have "s = (w @ p) @ strip_any ws (drop (length w) s)" by simp
    then show ?thesis
      using Some by (subst strip_any.simps) (simp, metis append_assoc)
  qed
qed

lemma strip_any_length: "length (strip_any ws s) \<le> length s"
  using strip_any_suffix [of s ws] by (metis length_append le_add2)

lemma strip_any_stuck: "w \<in> set ws \<Longrightarrow> w \<noteq> [] \<Longrightarrow> \<not> starts_with (strip_any ws s) w"
proof (induction ws s rule: strip_any.induct)
  case (1 ws s)
  show ?case
  proof (cases "List.find (\<lambda>w. w \<noteq> [] \<and> starts_with s w) ws")
    case None
    then have "strip_any ws s = s" by (subst strip_any.simps) simp
    with None "1.prems" show ?thesis by (auto simp: find_None_iff)
  next
    case (Some w')
    then have "strip_any ws s = strip_any ws (drop (length w') s)"
      by (subst strip_any.simps) simp
    with "1.IH" [OF Some "1.prems"] show ?thesis by simp
  qed
qed

lemma strip_any_idem: "strip_any ws (strip_any ws s) = strip_any ws s"
  by (rule strip_any_id) (rule strip_any_stuck)

text \<open>A string that starts with a printable ASCII byte is not affected by \<open>trim_start\<close>.\<close>

definition ascii_graphic :: "char \<Rightarrow> bool" where
  "ascii_graphic c = ((33 :: nat) \<le> of_char c \<and> of_char c \<le> (126 :: nat))"

lemma utf8_whitespace_hd:
  "w \<in> set utf8_whitespace \<Longrightarrow> w \<noteq> [] \<and> \<not> ascii_graphic (hd w) \<and> \<not> ascii_graphic (last w)"
  by (auto simp: utf8_whitespace_def ascii_graphic_def)

lemma trim_start_graphic: "ascii_graphic c \<Longrightarrow> trim_start (c # s) = c # s"
  unfolding trim_start_def
  by (rule strip_any_id) (auto dest!: utf8_whitespace_hd simp: neq_Nil_conv)

lemma trim_start_Nil [simp]: "trim_start [] = []"
  unfolding trim_start_def by (rule strip_any_id) (auto simp: neq_Nil_conv)

lemma trim_end_graphic: "ascii_graphic c \<Longrightarrow> trim_end (s @ [c]) = s @ [c]"
proof -
  assume c: "ascii_graphic c"
  have "strip_any (map rev utf8_whitespace) (rev (s @ [c])) = rev (s @ [c])"
  proof (rule strip_any_id)
    fix w assume "w \<in> set (map rev utf8_whitespace)" and "w \<noteq> []"
    then obtain v where v: "v \<in> set utf8_whitespace" "w = rev v" by auto
    then obtain v' d where "v = v' @ [d]" by (metis utf8_whitespace_hd rev_exhaust)
    with v c utf8_whitespace_hd [OF v(1)] show "\<not> starts_with (rev (s @ [c])) w" by auto
  qed
  then show ?thesis by (simp add: trim_end_def)
qed

lemma trim_graphic: "ascii_graphic (hd s) \<Longrightarrow> ascii_graphic (last s) \<Longrightarrow> s \<noteq> [] \<Longrightarrow> trim s = s"
  by (metis append_butlast_last_id list.collapse trim_def trim_end_graphic trim_start_graphic)

text \<open>One leading space is skipped.\<close>

lemma trim_start_space: "trim_start (CHR '' '' # s) = trim_start s"
  unfolding trim_start_def
  by (subst strip_any.simps) (simp add: utf8_whitespace_def)

lemma trim_start_length: "length (trim_start s) \<le> length s"
  by (simp add: trim_start_def strip_any_length)

lemma trim_start_idem [simp]: "trim_start (trim_start s) = trim_start s"
  by (simp add: trim_start_def strip_any_idem)

section \<open>ASCII case\<close>

definition ascii_upper :: "char \<Rightarrow> char" where
  "ascii_upper c =
     (if (97 :: nat) \<le> of_char c \<and> of_char c \<le> (122 :: nat) then char_of (of_char c - 32 :: nat) else c)"

definition ascii_lower :: "char \<Rightarrow> char" where
  "ascii_lower c =
     (if (65 :: nat) \<le> of_char c \<and> of_char c \<le> (90 :: nat) then char_of (of_char c + 32 :: nat) else c)"

definition to_ascii_uppercase :: "string \<Rightarrow> string" where
  "to_ascii_uppercase s = map ascii_upper s"

definition to_ascii_lowercase :: "string \<Rightarrow> string" where
  "to_ascii_lowercase s = map ascii_lower s"

definition is_ascii_alphanumeric :: "char \<Rightarrow> bool" where
  "is_ascii_alphanumeric c =
     (let n = (of_char c :: nat) in
        48 \<le> n \<and> n \<le> 57 \<or> 65 \<le> n \<and> n \<le> 90 \<or> 97 \<le> n \<and> n \<le> 122)"

section \<open>Decimal numbers\<close>

definition digit_char :: "nat \<Rightarrow> char" where
  "digit_char d = char_of (48 + d)"

fun show_nat :: "nat \<Rightarrow> string" where
  "show_nat n = (if n < 10 then [digit_char n] else show_nat (n div 10) @ [digit_char (n mod 10)])"

declare show_nat.simps [simp del]

definition digit_value :: "char \<Rightarrow> nat option" where
  "digit_value c =
     (let n = (of_char c :: nat) in if 48 \<le> n \<and> n \<le> 57 then Some (n - 48) else None)"

text \<open>
  The accumulation of \<open>from_str_radix\<close> with base ten: an invalid digit or a value above
  \<open>u64::MAX\<close> is an error. Leading digits only ever make the value larger, so the
  overflow is detected whichever step first exceeds the bound.
\<close>

fun parse_digits :: "nat \<Rightarrow> string \<Rightarrow> nat option" where
  "parse_digits acc [] = Some acc"
| "parse_digits acc (c # s) =
     (case digit_value c of
        None \<Rightarrow> None
      | Some d \<Rightarrow> if 10 * acc + d < usize_mod then parse_digits (10 * acc + d) s else None)"

definition parse_usize :: "string \<Rightarrow> nat option" where
  "parse_usize s =
     (case s of
        [] \<Rightarrow> None
      | c # r \<Rightarrow> if c = CHR ''+'' then (if r = [] then None else parse_digits 0 r)
                 else parse_digits 0 s)"

lemma of_char_digit_char: "d < 10 \<Longrightarrow> of_char (digit_char d) = 48 + d"
  by (simp add: digit_char_def of_char_of)

lemma digit_value_digit_char [simp]: "d < 10 \<Longrightarrow> digit_value (digit_char d) = Some d"
  by (simp add: digit_value_def of_char_digit_char)

lemma digit_char_inj: "a < 10 \<Longrightarrow> b < 10 \<Longrightarrow> digit_char a = digit_char b \<Longrightarrow> a = b"
  by (metis add_left_cancel of_char_digit_char)

lemma parse_digits_append:
  "parse_digits acc (s @ t) =
     (case parse_digits acc s of None \<Rightarrow> None | Some a \<Rightarrow> parse_digits a t)"
  by (induction s arbitrary: acc) (auto split: option.splits)

lemma show_nat_nonempty [simp]: "show_nat n \<noteq> []"
  by (subst show_nat.simps) simp

lemma show_nat_digits: "c \<in> set (show_nat n) \<Longrightarrow> \<exists>d < 10. c = digit_char d"
proof (induction n rule: show_nat.induct)
  case (1 n)
  show ?case
  proof (cases "n < 10")
    case True
    with "1.prems" show ?thesis by (subst (asm) show_nat.simps) auto
  next
    case False
    with "1.prems" have "c \<in> set (show_nat (n div 10)) \<or> c = digit_char (n mod 10)"
      by (subst (asm) show_nat.simps) auto
    with "1.IH" [OF False] show ?thesis by (metis mod_less_divisor zero_less_numeral)
  qed
qed

lemma parse_digits_show: "n < usize_mod \<Longrightarrow> parse_digits 0 (show_nat n) = Some n"
proof (induction n rule: show_nat.induct)
  case (1 n)
  show ?case
  proof (cases "n < 10")
    case True
    with "1.prems" show ?thesis by (subst show_nat.simps) simp
  next
    case False
    have "n div 10 < usize_mod" using "1.prems" by linarith
    then have "parse_digits 0 (show_nat (n div 10)) = Some (n div 10)" using "1.IH" [OF False] by simp
    moreover have "10 * (n div 10) + n mod 10 = n" by simp
    ultimately show ?thesis
      using False "1.prems" by (subst show_nat.simps) (simp add: parse_digits_append)
  qed
qed

lemma digit_char_not_plus: "d < 10 \<Longrightarrow> digit_char d \<noteq> CHR ''+''"
proof
  assume "d < 10" and "digit_char d = CHR ''+''"
  then have "(of_char (CHR ''+'') :: nat) = 48 + d" by (metis of_char_digit_char)
  then show False by simp
qed

text \<open>What \<open>to_string\<close> writes, \<open>parse::<usize>\<close> reads back.\<close>

lemma parse_usize_show: "n < usize_mod \<Longrightarrow> parse_usize (show_nat n) = Some n"
proof -
  assume n: "n < usize_mod"
  obtain c r where s: "show_nat n = c # r" by (cases "show_nat n") auto
  then have "c \<noteq> CHR ''+''"
    using show_nat_digits [of c n] digit_char_not_plus by force
  with s parse_digits_show [OF n] show ?thesis by (simp add: parse_usize_def)
qed

lemma parse_digits_bound: "parse_digits acc s = Some n \<Longrightarrow> acc < usize_mod \<Longrightarrow> n < usize_mod"
  by (induction acc s rule: parse_digits.induct) (auto split: option.splits if_splits)

lemma parse_usize_bound: "parse_usize s = Some n \<Longrightarrow> n < usize_mod"
proof -
  assume "parse_usize s = Some n"
  then obtain r where "parse_digits 0 r = Some n"
    by (auto simp: parse_usize_def simp del: parse_digits.simps split: list.splits if_splits)
  then show ?thesis by (rule parse_digits_bound) (simp add: usize_mod_def)
qed

lemma parse_digits_mono: "parse_digits acc s = Some n \<Longrightarrow> acc \<le> n"
  by (induction acc s rule: parse_digits.induct) (fastforce split: option.splits if_splits)+

lemma show_nat_inj: "show_nat m = show_nat n \<Longrightarrow> m = n"
proof (induction m arbitrary: n rule: show_nat.induct)
  case (1 m)
  have len: "length (show_nat (k div 10)) > 0" for k by simp
  show ?case
  proof (cases "m < 10")
    case True
    with "1.prems" have "n < 10"
      by (metis append_self_conv2 append_butlast_last_id butlast_snoc butlast.simps(2)
          list.distinct(1) show_nat.simps show_nat_nonempty)
    with True "1.prems" show ?thesis
      using digit_char_inj by (auto simp: show_nat.simps [of m] show_nat.simps [of n])
  next
    case False
    with "1.prems" have "\<not> n < 10"
      by (metis append_self_conv2 append_butlast_last_id butlast_snoc butlast.simps(2)
          list.distinct(1) show_nat.simps show_nat_nonempty)
    with False "1.prems" have "show_nat (m div 10) = show_nat (n div 10)"
      and "digit_char (m mod 10) = digit_char (n mod 10)"
      by (auto simp: show_nat.simps [of m] show_nat.simps [of n])
    with "1.IH" [OF False] have "m div 10 = n div 10" and "m mod 10 = n mod 10"
      using digit_char_inj by auto
    then show ?thesis by (metis mult_div_mod_eq)
  qed
qed

lemmas [str_defs] = starts_with_def ends_with_def strip_prefix_def trim_def trim_start_def
  trim_end_def to_ascii_uppercase_def to_ascii_lowercase_def

end
