(* ===== verification/Relay_Model.thy ===== *)
theory Relay_Model
  imports Byte_Strings
begin

text \<open>
  The data of \<open>src/model.rs\<close>, the error type of \<open>src/backend.rs\<close>, and pagination.

  A point in time (\<open>DateTime<Utc>\<close>) is its distance from the epoch in nanoseconds, an
  integer. Fields keep the source's names behind a short prefix, since record fields of
  one theory share a name space. An \<open>i32\<close> page size is an integer: the code compares
  it and clamps it, and never computes with it.
\<close>

section \<open>Errors and outcomes\<close>

datatype backend_error =
    NotFound string
  | AlreadyExists string
  | InvalidArgument string
  | FailedPrecondition string
  | Unavailable string
  | Internal string
  | PermissionDenied string

text \<open>
  The outcome of a call: the two constructors of \<open>Result\<close>, and the panic of an
  out-of-range index, an \<open>unwrap\<close> of \<open>None\<close> or the like.
\<close>

datatype 'a res = Ok 'a | Err backend_error | Panic

definition is_ok :: "'a res \<Rightarrow> bool" where
  "is_ok r = (case r of Ok _ \<Rightarrow> True | _ \<Rightarrow> False)"

lemma is_ok_simps [simp]: "is_ok (Ok x)" "\<not> is_ok (Err e)" "\<not> is_ok Panic"
  by (simp_all add: is_ok_def)

text \<open>\<open>Display\<close> of \<open>BackendError\<close> (\<open>src/backend.rs\<close>).\<close>

primrec error_text :: "backend_error \<Rightarrow> string" where
  "error_text (NotFound m) = ''resource not found: '' @ m"
| "error_text (AlreadyExists m) = ''resource already exists: '' @ m"
| "error_text (InvalidArgument m) = ''invalid argument: '' @ m"
| "error_text (FailedPrecondition m) = ''failed precondition: '' @ m"
| "error_text (Unavailable m) = ''backend unavailable: '' @ m"
| "error_text (Internal m) = ''internal backend error: '' @ m"
| "error_text (PermissionDenied m) = ''permission denied: '' @ m"

text \<open>The \<open>?\<close> operator.\<close>

definition res_bind :: "'a res \<Rightarrow> ('a \<Rightarrow> 'b res) \<Rightarrow> 'b res" where
  "res_bind r f = (case r of Ok x \<Rightarrow> f x | Err e \<Rightarrow> Err e | Panic \<Rightarrow> Panic)"

lemma res_bind_simps [simp]:
  "res_bind (Ok x) f = f x" "res_bind (Err e) f = Err e" "res_bind Panic f = Panic"
  by (simp_all add: res_bind_def)

section \<open>Data\<close>

type_synonym attrs = "(string, string) hmap"
type_synonym time = int

definition seconds :: "nat \<Rightarrow> time" where
  "seconds n = int n * 1000000000"

record topic_spec =
  t_name :: string
  t_labels :: attrs
  t_kms_key_name :: string
  t_schema_name :: string
  t_schema_encoding :: string

record dead_letter_spec =
  d_topic :: string
  d_max_delivery_attempts :: u32

record retry_spec =
  r_minimum_backoff_seconds :: u32
  r_maximum_backoff_seconds :: u32

record subscription_spec =
  s_name :: string
  s_topic :: string
  s_ack_deadline_seconds :: u32
  s_labels :: attrs
  s_enable_message_ordering :: bool
  s_enable_exactly_once_delivery :: bool
  s_dead_letter :: "dead_letter_spec option"
  s_retry :: "retry_spec option"
  s_push_endpoint :: "string option"
  s_push_attributes :: attrs
  s_filter :: string

record relay_message =
  m_id :: string
  m_data :: bytes
  m_attributes :: attrs
  m_ordering_key :: string
  m_published_at :: time

record new_message =
  n_data :: bytes
  n_attributes :: attrs
  n_ordering_key :: string
  n_message_id :: string

record delivery =
  dv_ack_id :: string
  dv_message :: relay_message
  dv_delivery_attempt :: u32

record snapshot_spec =
  sn_name :: string
  sn_topic :: string
  sn_expire_time :: time
  sn_labels :: attrs
  sn_topic_index :: nat

record schema_spec =
  sc_name :: string
  sc_schema_type :: string
  sc_definition :: string

record iam_binding =
  b_role :: string
  b_members :: "string list"

record iam_policy =
  p_version :: int
  p_bindings :: "iam_binding list"
  p_etag :: string

record 'a page =
  pg_items :: "'a list"
  pg_next_page_token :: string

text \<open>The \<open>Default\<close> instances that the code derives and uses.\<close>

definition topic_default :: topic_spec where
  "topic_default = \<lparr>t_name = [], t_labels = [], t_kms_key_name = [],
     t_schema_name = [], t_schema_encoding = []\<rparr>"

definition subscription_default :: subscription_spec where
  "subscription_default = \<lparr>s_name = [], s_topic = [], s_ack_deadline_seconds = 0, s_labels = [],
     s_enable_message_ordering = False, s_enable_exactly_once_delivery = False,
     s_dead_letter = None, s_retry = None, s_push_endpoint = None, s_push_attributes = [],
     s_filter = []\<rparr>"

definition new_message_default :: new_message where
  "new_message_default = \<lparr>n_data = [], n_attributes = [], n_ordering_key = [], n_message_id = []\<rparr>"

section \<open>Pagination\<close>

text \<open>
  \<open>paginate\<close>. The addition \<open>start + size\<close> is on \<open>usize\<close> and wraps in a release build
  (the profile does not turn overflow checks on); \<open>items.get(start..end)\<close> is \<open>None\<close>
  for a range that is not one.
\<close>

definition page_size_of :: "int \<Rightarrow> nat" where
  "page_size_of page_size = (if page_size \<le> 0 then 100 else nat (clamp page_size 1 1000))"

definition paginate :: "'a list \<Rightarrow> int \<Rightarrow> string \<Rightarrow> 'a page" where
  "paginate items page_size page_token =
     (let size = page_size_of page_size;
          start = (if page_token = [] then 0
                   else (case parse_usize page_token of Some n \<Rightarrow> n | None \<Rightarrow> 0));
          end = min ((start + size) mod usize_mod) (length items);
          slice = (if start \<le> end \<and> end \<le> length items
                   then take (end - start) (drop start items) else []);
          next = (if end < length items then show_nat end else [])
      in \<lparr>pg_items = slice, pg_next_page_token = next\<rparr>)"

lemma page_size_of_bounds: "1 \<le> page_size_of n" "page_size_of n \<le> 1000"
  by (auto simp: page_size_of_def clamp_def)

lemma paginate_length: "length (pg_items (paginate items n tok)) \<le> page_size_of n"
proof -
  define start where "start = (if tok = [] then 0
     else (case parse_usize tok of Some n \<Rightarrow> n | None \<Rightarrow> 0))"
  define end_at where "end_at = min ((start + page_size_of n) mod usize_mod) (length items)"
  have "end_at \<le> start + page_size_of n"
    unfolding end_at_def using mod_less_eq_dividend by (metis min.coboundedI1)
  then show ?thesis
    unfolding paginate_def Let_def start_def [symmetric] end_at_def [symmetric] by auto
qed

lemma paginate_at:
  assumes start: "start \<le> length items"
    and small: "length items + 1000 < usize_mod"
    and tok: "tok = (if start = 0 then [] else show_nat start)"
  shows "paginate items n tok =
    \<lparr>pg_items = take (page_size_of n) (drop start items),
     pg_next_page_token =
       (if start + page_size_of n < length items then show_nat (start + page_size_of n) else [])\<rparr>"
proof -
  let ?sz = "page_size_of n"
  have sz: "1 \<le> ?sz" "?sz \<le> 1000" by (rule page_size_of_bounds)+
  have "parse_usize (show_nat start) = Some start"
    using start small by (intro parse_usize_show) simp
  then have p: "(if tok = [] then 0 else (case parse_usize tok of Some n \<Rightarrow> n | None \<Rightarrow> 0)) = start"
    using tok by simp
  have m: "(start + ?sz) mod usize_mod = start + ?sz" using start small sz by simp
  have t: "take (min (start + ?sz) (length items) - start) (drop start items)
            = take ?sz (drop start items)"
    by (cases "start + ?sz \<le> length items") (auto simp: min_def)
  show ?thesis
    unfolding paginate_def Let_def p m using start t by (auto simp: min_def)
qed

text \<open>
  A client that follows \<open>next_page_token\<close> from the first page until it is empty;
  \<open>None\<close> when the fuel does not suffice.
\<close>

fun walk_pages :: "nat \<Rightarrow> 'a list \<Rightarrow> int \<Rightarrow> string \<Rightarrow> 'a list option" where
  "walk_pages 0 items n tok = None"
| "walk_pages (Suc fuel) items n tok =
     (let p = paginate items n tok in
      if pg_next_page_token p = [] then Some (pg_items p)
      else map_option ((@) (pg_items p)) (walk_pages fuel items n (pg_next_page_token p)))"

lemma walk_pages_from:
  assumes "start \<le> length items" "length items + 1000 < usize_mod"
    and "length items - start < fuel"
  shows "walk_pages fuel items n (if start = 0 then [] else show_nat start)
    = Some (drop start items)"
  using assms
proof (induction fuel arbitrary: start)
  case 0
  then show ?case by simp
next
  case (Suc fuel)
  let ?sz = "page_size_of n"
  have sz: "1 \<le> ?sz" by (rule page_size_of_bounds)
  show ?case
  proof (cases "start + ?sz < length items")
    case True
    have nz: "start + ?sz \<noteq> 0" using sz by simp
    have "walk_pages fuel items n (if start + ?sz = 0 then [] else show_nat (start + ?sz))
        = Some (drop (start + ?sz) items)"
      using True sz Suc.prems by (intro Suc.IH) auto
    then have "walk_pages fuel items n (show_nat (start + ?sz)) = Some (drop (start + ?sz) items)"
      using nz by (simp only: if_False)
    moreover have "take ?sz (drop start items) @ drop (start + ?sz) items = drop start items"
      by (metis add.commute append_take_drop_id drop_drop)
    ultimately show ?thesis
      using True nz paginate_at [OF Suc.prems(1,2) refl, of n] by (simp add: Let_def)
  next
    case False
    then show ?thesis
      using paginate_at [OF Suc.prems(1,2) refl, of n] by (simp add: Let_def)
  qed
qed

section \<open>Resource names and listings\<close>

text \<open>\<open>MemoryBackend::belongs_to_project\<close>\<close>

definition belongs_to_project :: "string \<Rightarrow> string \<Rightarrow> bool" where
  "belongs_to_project resource project = starts_with resource (project @ ''/'')"

text \<open>
  The shape of every listing of the store: select a project's resources, sort them by
  name (a stable sort on the byte order), cut a page.
\<close>

definition listing :: "('a \<Rightarrow> string) \<Rightarrow> string \<Rightarrow> 'a list \<Rightarrow> 'a list" where
  "listing name_of project values =
     sort_key name_of (filter (\<lambda>v. belongs_to_project (name_of v) project) values)"

lemma listing_set:
  "set (listing f project vs) = {v \<in> set vs. belongs_to_project (f v) project}"
  by (simp add: listing_def)

lemma listing_sorted: "sorted (map f (listing f project vs))"
  by (simp add: listing_def)

lemma sort_key_perm:
  assumes "mset xs = mset ys" and "inj_on f (set xs)"
  shows "sort_key f xs = sort_key f ys"
proof (rule properties_for_sort_key)
  show "mset (sort_key f ys) = mset xs" using assms(1) by simp
  show "filter (\<lambda>x. f k = f x) (sort_key f ys) = filter (\<lambda>x. f k = f x) xs"
    if "k \<in> set (sort_key f ys)" for k
  proof -
    have k: "k \<in> set xs" using that assms(1) by (simp flip: set_mset_mset)
    have one: "filter (\<lambda>x. f k = f x) zs = replicate (count (mset zs) k) k"
      if "set zs \<subseteq> set xs" for zs
      using that
    proof (induction zs)
      case Nil
      then show ?case by simp
    next
      case (Cons z zs)
      then show ?case using k assms(2) by (auto dest: inj_onD)
    qed
    have "set ys = set xs" using assms(1) by (metis set_mset_mset)
    then show ?thesis using one [of "sort_key f ys"] one [of xs] assms(1) by simp
  qed
  show "sorted (map f (sort_key f ys))" by simp
qed

lemma listing_perm:
  assumes "mset xs = mset ys" and "inj_on f (set xs)"
  shows "listing f project xs = listing f project ys"
  unfolding listing_def
proof (rule sort_key_perm)
  show "mset (filter (\<lambda>v. belongs_to_project (f v) project) xs) =
        mset (filter (\<lambda>v. belongs_to_project (f v) project) ys)"
    using assms(1) by simp
  show "inj_on f (set (filter (\<lambda>v. belongs_to_project (f v) project) xs))"
    using assms(2) by (auto simp: inj_on_def)
qed

end
