(* ===== verification/Attribute_Filter.thy ===== *)
theory Attribute_Filter
  imports Relay_Model
begin

text \<open>
  \<open>src/filter.rs\<close>: the subscription filter language, its recursive descent parser and
  its evaluation.

  The parser's state \<open>(src, pos)\<close> is the input that is left, \<open>src[pos..]\<close>; the
  position that the error messages print is \<open>n\<close> minus its length, with \<open>n\<close> the
  length of the whole (trimmed) input. The two \<open>loop\<close>s of \<open>parse_or\<close> and \<open>parse_and\<close>
  are the functions \<open>or_loop\<close> and \<open>and_loop\<close>.
\<close>

section \<open>Expressions and their meaning\<close>

datatype expr =
    HasKey string
  | Eq string string
  | Ne string string
  | HasPrefix string string
  | NotE expr
  | AndE expr expr
  | OrE expr expr

record attribute_filter =
  f_raw :: string
  f_expr :: "expr option"

fun eval_expr :: "expr \<Rightarrow> attrs \<Rightarrow> bool" where
  "eval_expr (HasKey key) attributes = hm_contains attributes key"
| "eval_expr (Eq key value) attributes =
     (case hm_get attributes key of Some v \<Rightarrow> v = value | None \<Rightarrow> False)"
| "eval_expr (Ne key value) attributes =
     (\<not> (case hm_get attributes key of Some v \<Rightarrow> v = value | None \<Rightarrow> False))"
| "eval_expr (HasPrefix key prefix) attributes =
     (case hm_get attributes key of Some v \<Rightarrow> starts_with v prefix | None \<Rightarrow> False)"
| "eval_expr (NotE inner) attributes = (\<not> eval_expr inner attributes)"
| "eval_expr (AndE left right) attributes = (eval_expr left attributes \<and> eval_expr right attributes)"
| "eval_expr (OrE left right) attributes = (eval_expr left attributes \<or> eval_expr right attributes)"

definition filter_matches :: "attribute_filter \<Rightarrow> attrs \<Rightarrow> bool" where
  "filter_matches flt attributes =
     (case f_expr flt of None \<Rightarrow> True | Some e \<Rightarrow> eval_expr e attributes)"

section \<open>The parser\<close>

subsection \<open>Tokens\<close>

definition skip_ws :: "string \<Rightarrow> string" where
  "skip_ws s = trim_start s"

text \<open>\<open>eat\<close>: whether the token was there, and the input after it (or after white space).\<close>

definition eat :: "string \<Rightarrow> string \<Rightarrow> bool \<times> string" where
  "eat t s =
     (let r = skip_ws s in if starts_with r t then (True, drop (length t) r) else (False, r))"

definition in_quotes :: "string \<Rightarrow> string" where
  "in_quotes t = CHR 0x27 # t @ [CHR 0x27]"

definition expect :: "nat \<Rightarrow> string \<Rightarrow> string \<Rightarrow> string res" where
  "expect n t s =
     (case eat t s of
        (True, r) \<Rightarrow> Ok r
      | (False, r) \<Rightarrow> Err (InvalidArgument
          (''expected '' @ in_quotes t @ '' in filter at position '' @ show_nat (n - length r))))"

definition ident_char :: "char \<Rightarrow> bool" where
  "ident_char c = (is_ascii_alphanumeric c \<or> c = CHR ''_'' \<or> c = CHR ''-'' \<or> c = CHR ''.'')"

definition parse_ident :: "string \<Rightarrow> (string \<times> string) res" where
  "parse_ident s =
     (let r = skip_ws s; key = takeWhile ident_char r in
      if key = [] then Err (InvalidArgument ''expected attribute name in filter'')
      else Ok (key, dropWhile ident_char r))"

definition parse_attr_field :: "nat \<Rightarrow> string \<Rightarrow> (string \<times> string) res" where
  "parse_attr_field n s = res_bind (expect n ''attributes.'' (skip_ws s)) parse_ident"

text \<open>The body of a quoted string, from after the opening quote; \<open>None\<close>: unterminated.\<close>

fun string_body :: "string \<Rightarrow> (string \<times> string) option" where
  "string_body [] = None"
| "string_body (c # s) =
     (if c = CHR 0x22 then Some ([], s)
      else if c = CHR 0x5C then
        (case s of
           [] \<Rightarrow> None
         | d # s' \<Rightarrow>
             if d = CHR 0x22 then map_option (\<lambda>(v, r). (CHR 0x22 # v, r)) (string_body s')
             else if d = CHR 0x5C then map_option (\<lambda>(v, r). (CHR 0x5C # v, r)) (string_body s')
             else map_option (\<lambda>(v, r). (CHR 0x5C # d # v, r)) (string_body s'))
      else map_option (\<lambda>(v, r). (c # v, r)) (string_body s))"

definition parse_string :: "string \<Rightarrow> (string \<times> string) res" where
  "parse_string s =
     (case eat [CHR 0x22] (skip_ws s) of
        (False, _) \<Rightarrow> Err (InvalidArgument ''expected quoted string in filter'')
      | (True, r) \<Rightarrow>
          (case string_body r of
             None \<Rightarrow> Err (InvalidArgument ''unterminated string in filter'')
           | Some x \<Rightarrow> Ok x))"

subsection \<open>No token adds input\<close>

lemma skip_ws_length: "length (skip_ws s) \<le> length s"
  by (simp add: skip_ws_def trim_start_length)

lemma eat_length: "eat t s = (b, r) \<Longrightarrow> length r \<le> length s"
  using skip_ws_length [of s] by (auto simp: eat_def Let_def split: if_splits)

lemma eat_True_length: "eat t s = (True, r) \<Longrightarrow> length r + length t \<le> length s"
  using skip_ws_length [of s]
  by (auto simp: eat_def Let_def starts_with_iff split: if_splits)

lemma expect_length: "expect n t s = Ok r \<Longrightarrow> length r \<le> length s"
  by (auto simp: expect_def split: prod.splits bool.splits dest: eat_length)

lemma parse_ident_length: "parse_ident s = Ok (k, r) \<Longrightarrow> length r \<le> length s"
  using skip_ws_length [of s] length_dropWhile_le [of ident_char "skip_ws s"]
  by (auto simp: parse_ident_def Let_def split: if_splits)

lemma parse_attr_field_length: "parse_attr_field n s = Ok (k, r) \<Longrightarrow> length r \<le> length s"
  using skip_ws_length [of s]
  by (auto simp: parse_attr_field_def res_bind_def split: res.splits
      dest!: expect_length parse_ident_length)

lemma string_body_length: "string_body s = Some (v, r) \<Longrightarrow> length r < length s"
  by (induction s arbitrary: v rule: string_body.induct)
    (fastforce split: if_splits list.splits)+

lemma parse_string_length: "parse_string s = Ok (v, r) \<Longrightarrow> length r \<le> length s"
  using skip_ws_length [of s]
  by (fastforce simp: parse_string_def split: prod.splits bool.splits option.splits
      dest: eat_length string_body_length)

lemmas token_lengths = skip_ws_length eat_length eat_True_length expect_length
  parse_ident_length parse_attr_field_length parse_string_length

subsection \<open>The grammar\<close>

definition unexpected_token :: "nat \<Rightarrow> string \<Rightarrow> backend_error" where
  "unexpected_token n s =
     InvalidArgument (''unexpected token in filter at position '' @ show_nat (n - length s))"

text \<open>The alternatives of \<open>parse_primary\<close> that are not parenthesised.\<close>

definition parse_leaf :: "nat \<Rightarrow> string \<Rightarrow> (expr \<times> string) res" where
  "parse_leaf n s =
     (case eat ''hasPrefix'' s of
        (True, r) \<Rightarrow>
          res_bind (expect n ''('' r) (\<lambda>r1.
          res_bind (parse_attr_field n r1) (\<lambda>(key, r2).
          res_bind (expect n '','' r2) (\<lambda>r3.
          res_bind (parse_string r3) (\<lambda>(prefix, r4).
          res_bind (expect n '')'' r4) (\<lambda>r5. Ok (HasPrefix key prefix, r5))))))
      | (False, s1) \<Rightarrow>
     (case eat ''attributes:'' s1 of
        (True, r) \<Rightarrow> res_bind (parse_ident r) (\<lambda>(key, r1). Ok (HasKey key, r1))
      | (False, s2) \<Rightarrow>
     (if starts_with s2 ''attributes.'' then
        res_bind (parse_attr_field n s2) (\<lambda>(key, r1).
          (case eat ''!='' (skip_ws r1) of
             (True, r2) \<Rightarrow> res_bind (parse_string r2) (\<lambda>(value, r3). Ok (Ne key value, r3))
           | (False, r2) \<Rightarrow>
          (case eat ''='' r2 of
             (True, r3) \<Rightarrow> res_bind (parse_string r3) (\<lambda>(value, r4). Ok (Eq key value, r4))
           | (False, r3) \<Rightarrow>
               Err (InvalidArgument (''expected comparison after attributes.'' @ key)))))
      else Err (unexpected_token n s2))))"

lemma parse_leaf_length: "parse_leaf n s = Ok (e, r) \<Longrightarrow> length r \<le> length s"
  unfolding parse_leaf_def res_bind_def
  by (fastforce split: prod.splits bool.splits res.splits if_splits
      dest!: token_lengths(2,4-7) dest: order_trans [OF _ skip_ws_length])

function (sequential)
  parse_or :: "nat \<Rightarrow> string \<Rightarrow> (expr \<times> string) res"
  and or_loop :: "nat \<Rightarrow> expr \<Rightarrow> string \<Rightarrow> (expr \<times> string) res"
  and parse_and :: "nat \<Rightarrow> string \<Rightarrow> (expr \<times> string) res"
  and and_loop :: "nat \<Rightarrow> expr \<Rightarrow> string \<Rightarrow> (expr \<times> string) res"
  and parse_not :: "nat \<Rightarrow> string \<Rightarrow> (expr \<times> string) res"
  and parse_primary :: "nat \<Rightarrow> string \<Rightarrow> (expr \<times> string) res"
where
  "parse_or n s =
     (case parse_and n s of
        Ok (left, r) \<Rightarrow> or_loop n left r
      | Err e \<Rightarrow> Err e | Panic \<Rightarrow> Panic)"
| "or_loop n left s =
     (case eat ''OR'' (skip_ws s) of
        (True, r) \<Rightarrow>
          (case parse_and n r of
             Ok (right, r') \<Rightarrow> or_loop n (OrE left right) r'
           | Err e \<Rightarrow> Err e | Panic \<Rightarrow> Panic)
      | (False, r) \<Rightarrow> Ok (left, r))"
| "parse_and n s =
     (case parse_not n s of
        Ok (left, r) \<Rightarrow> and_loop n left r
      | Err e \<Rightarrow> Err e | Panic \<Rightarrow> Panic)"
| "and_loop n left s =
     (case eat ''AND'' (skip_ws s) of
        (True, r) \<Rightarrow>
          (case parse_not n r of
             Ok (right, r') \<Rightarrow> and_loop n (AndE left right) r'
           | Err e \<Rightarrow> Err e | Panic \<Rightarrow> Panic)
      | (False, r) \<Rightarrow> Ok (left, r))"
| "parse_not n s =
     (case eat ''NOT'' (skip_ws s) of
        (True, r) \<Rightarrow>
          (case parse_not n r of
             Ok (inner, r') \<Rightarrow> Ok (NotE inner, r')
           | Err e \<Rightarrow> Err e | Panic \<Rightarrow> Panic)
      | (False, r) \<Rightarrow> parse_primary n r)"
| "parse_primary n s =
     (case eat ''('' (skip_ws s) of
        (True, r) \<Rightarrow>
          (case parse_or n r of
             Ok (inner, r') \<Rightarrow> res_bind (expect n '')'' r') (\<lambda>r''. Ok (inner, r''))
           | Err e \<Rightarrow> Err e | Panic \<Rightarrow> Panic)
      | (False, r) \<Rightarrow> parse_leaf n r)"
  by pat_completeness auto

abbreviation grammar_dom where
  "grammar_dom \<equiv> parse_or_or_loop_parse_and_and_loop_parse_not_parse_primary_dom"

text \<open>Where it returns, the parser has not added input: what the termination proof needs.\<close>

lemma grammar_partial_length:
  "grammar_dom (Inl (Inl (n, s))) \<Longrightarrow>
     \<forall>e r. parse_or n s = Ok (e, r) \<longrightarrow> length r \<le> length s"
  "grammar_dom (Inl (Inr (Inl (n, left, s)))) \<Longrightarrow>
     \<forall>e r. or_loop n left s = Ok (e, r) \<longrightarrow> length r \<le> length s"
  "grammar_dom (Inl (Inr (Inr (n, s)))) \<Longrightarrow>
     \<forall>e r. parse_and n s = Ok (e, r) \<longrightarrow> length r \<le> length s"
  "grammar_dom (Inr (Inl (n, left, s))) \<Longrightarrow>
     \<forall>e r. and_loop n left s = Ok (e, r) \<longrightarrow> length r \<le> length s"
  "grammar_dom (Inr (Inr (Inl (n, s)))) \<Longrightarrow>
     \<forall>e r. parse_not n s = Ok (e, r) \<longrightarrow> length r \<le> length s"
  "grammar_dom (Inr (Inr (Inr (n, s)))) \<Longrightarrow>
     \<forall>e r. parse_primary n s = Ok (e, r) \<longrightarrow> length r \<le> length s"
proof (induction n s and n left s and n s and n left s and n s and n s
    rule: parse_or_or_loop_parse_and_and_loop_parse_not_parse_primary.pinduct)
  case (1 n s)
  then show ?case by (fastforce simp: parse_or.psimps split: res.splits)
next
  case (2 n left s)
  then show ?case
    using skip_ws_length [of s]
    by (fastforce simp: or_loop.psimps split: res.splits prod.splits bool.splits dest: eat_length)
next
  case (3 n s)
  then show ?case by (fastforce simp: parse_and.psimps split: res.splits)
next
  case (4 n left s)
  then show ?case
    using skip_ws_length [of s]
    by (fastforce simp: and_loop.psimps split: res.splits prod.splits bool.splits dest: eat_length)
next
  case (5 n s)
  then show ?case
    using skip_ws_length [of s]
    by (fastforce simp: parse_not.psimps split: res.splits prod.splits bool.splits dest: eat_length)
next
  case (6 n s)
  then show ?case
    using skip_ws_length [of s]
    by (fastforce simp: parse_primary.psimps res_bind_def split: res.splits prod.splits bool.splits
        dest: eat_length expect_length parse_leaf_length)
qed

lemma eat_skip_False: "(False, r) = eat t (skip_ws s) \<Longrightarrow> length r \<le> length s"
  using eat_length [OF sym] skip_ws_length [of s] by (rule order_trans)

lemma eat_skip_True: "(True, r) = eat t (skip_ws s) \<Longrightarrow> length r + length t \<le> length s"
  using eat_True_length [OF sym] skip_ws_length [of s] by (rule order_trans)

termination parse_or
proof (relation "measure (\<lambda>x. case x of
      Inl (Inl (n, s)) \<Rightarrow> 4 * length s + 3
    | Inl (Inr (Inl (n, l, s))) \<Rightarrow> 4 * length s
    | Inl (Inr (Inr (n, s))) \<Rightarrow> 4 * length s + 2
    | Inr (Inl (n, l, s)) \<Rightarrow> 4 * length s
    | Inr (Inr (Inl (n, s))) \<Rightarrow> 4 * length s + 1
    | Inr (Inr (Inr (n, s))) \<Rightarrow> 4 * length s)", goal_cases)
qed (auto dest!: grammar_partial_length [rule_format] eat_skip_True eat_skip_False)

declare parse_or.simps [simp del] or_loop.simps [simp del] parse_and.simps [simp del]
  and_loop.simps [simp del] parse_not.simps [simp del] parse_primary.simps [simp del]

lemmas grammar_simps = parse_or.simps or_loop.simps parse_and.simps and_loop.simps
  parse_not.simps parse_primary.simps

lemmas grammar_induct = parse_or_or_loop_parse_and_and_loop_parse_not_parse_primary.induct

text \<open>\<open>AttributeFilter::parse\<close>\<close>

definition parse_filter :: "string \<Rightarrow> attribute_filter res" where
  "parse_filter raw =
     (let trimmed = trim raw in
      if trimmed = [] then Ok \<lparr>f_raw = [], f_expr = None\<rparr>
      else (case parse_or (length trimmed) trimmed of
              Ok (e, r) \<Rightarrow>
                (let r' = skip_ws r in
                 if r' \<noteq> [] then Err (InvalidArgument
                    (''trailing characters in filter at position ''
                       @ show_nat (length trimmed - length r')))
                 else Ok \<lparr>f_raw = trimmed, f_expr = Some e\<rparr>)
            | Err e \<Rightarrow> Err e
            | Panic \<Rightarrow> Panic))"

section \<open>Errors are invalid arguments\<close>

definition ok_or_invalid :: "'a res \<Rightarrow> bool" where
  "ok_or_invalid r =
     (case r of Ok _ \<Rightarrow> True | Err (InvalidArgument _) \<Rightarrow> True | _ \<Rightarrow> False)"

lemma ok_or_invalid_simps [simp]:
  "ok_or_invalid (Ok x)" "ok_or_invalid (Err (InvalidArgument m))" "\<not> ok_or_invalid Panic"
  by (simp_all add: ok_or_invalid_def)

lemma ok_or_invalid_bind [intro]:
  "ok_or_invalid r \<Longrightarrow> (\<And>x. r = Ok x \<Longrightarrow> ok_or_invalid (f x)) \<Longrightarrow> ok_or_invalid (res_bind r f)"
  by (cases r) (auto simp: ok_or_invalid_def split: backend_error.splits)

lemma ok_or_invalid_case:
  "ok_or_invalid r \<Longrightarrow> (\<And>a b. r = Ok (a, b) \<Longrightarrow> ok_or_invalid (f a b)) \<Longrightarrow>
   ok_or_invalid (case r of Ok (a, b) \<Rightarrow> f a b | Err e \<Rightarrow> Err e | Panic \<Rightarrow> Panic)"
  by (cases r) (auto simp: ok_or_invalid_def split: backend_error.splits)

lemma expect_ok_or_invalid [simp]: "ok_or_invalid (expect n t s)"
  by (auto simp: expect_def split: prod.splits bool.splits)

lemma parse_ident_ok_or_invalid [simp]: "ok_or_invalid (parse_ident s)"
  by (simp add: parse_ident_def Let_def)

lemma parse_attr_field_ok_or_invalid [simp]: "ok_or_invalid (parse_attr_field n s)"
  by (auto simp: parse_attr_field_def)

lemma parse_string_ok_or_invalid [simp]: "ok_or_invalid (parse_string s)"
  by (auto simp: parse_string_def split: prod.splits option.splits bool.splits)

lemma parse_leaf_ok_or_invalid [simp]: "ok_or_invalid (parse_leaf n s)"
  by (auto simp: parse_leaf_def unexpected_token_def intro!: ok_or_invalid_bind
      split: prod.splits bool.splits)

lemma grammar_ok_or_invalid:
  "ok_or_invalid (parse_or n s)"
  "ok_or_invalid (or_loop n left s)"
  "ok_or_invalid (parse_and n s)"
  "ok_or_invalid (and_loop n left s)"
  "ok_or_invalid (parse_not n s)"
  "ok_or_invalid (parse_primary n s)"
proof (induction n s and n left s and n s and n left s and n s and n s rule: grammar_induct)
  case (1 n s)
  then show ?case by (subst parse_or.simps) (rule ok_or_invalid_case, auto)
next
  case (2 n left s)
  then show ?case
    by (subst or_loop.simps) (auto split: prod.splits bool.splits intro!: ok_or_invalid_case)
next
  case (3 n s)
  then show ?case by (subst parse_and.simps) (rule ok_or_invalid_case, auto)
next
  case (4 n left s)
  then show ?case
    by (subst and_loop.simps) (auto split: prod.splits bool.splits intro!: ok_or_invalid_case)
next
  case (5 n s)
  then show ?case
    by (subst parse_not.simps) (auto split: prod.splits bool.splits intro!: ok_or_invalid_case)
next
  case (6 n s)
  then show ?case
    by (subst parse_primary.simps) (auto split: prod.splits bool.splits intro!: ok_or_invalid_case)
qed

lemma parse_filter_ok_or_invalid: "ok_or_invalid (parse_filter raw)"
  unfolding parse_filter_def Let_def
  by (auto intro!: ok_or_invalid_case grammar_ok_or_invalid)

section \<open>Parsed expressions are well formed\<close>

definition wf_key :: "string \<Rightarrow> bool" where
  "wf_key k = (k \<noteq> [] \<and> list_all ident_char k)"

fun wf_expr :: "expr \<Rightarrow> bool" where
  "wf_expr (HasKey k) = wf_key k"
| "wf_expr (Eq k v) = wf_key k"
| "wf_expr (Ne k v) = wf_key k"
| "wf_expr (HasPrefix k v) = wf_key k"
| "wf_expr (NotE e) = wf_expr e"
| "wf_expr (AndE a b) = (wf_expr a \<and> wf_expr b)"
| "wf_expr (OrE a b) = (wf_expr a \<and> wf_expr b)"

lemma parse_ident_wf: "parse_ident s = Ok (k, r) \<Longrightarrow> wf_key k"
  by (auto simp: parse_ident_def Let_def wf_key_def list_all_iff dest: set_takeWhileD split: if_splits)

lemma parse_attr_field_wf: "parse_attr_field n s = Ok (k, r) \<Longrightarrow> wf_key k"
  by (auto simp: parse_attr_field_def res_bind_def dest: parse_ident_wf split: res.splits)

lemma parse_leaf_wf: "parse_leaf n s = Ok (e, r) \<Longrightarrow> wf_expr e"
  by (auto simp: parse_leaf_def res_bind_def dest: parse_ident_wf parse_attr_field_wf
      split: prod.splits bool.splits res.splits if_splits)

lemma grammar_wf:
  "parse_or n s = Ok (e, r) \<Longrightarrow> wf_expr e"
  "or_loop n left s = Ok (e, r) \<Longrightarrow> wf_expr left \<Longrightarrow> wf_expr e"
  "parse_and n s = Ok (e, r) \<Longrightarrow> wf_expr e"
  "and_loop n left s = Ok (e, r) \<Longrightarrow> wf_expr left \<Longrightarrow> wf_expr e"
  "parse_not n s = Ok (e, r) \<Longrightarrow> wf_expr e"
  "parse_primary n s = Ok (e, r) \<Longrightarrow> wf_expr e"
proof (induction n s and n left s and n s and n left s and n s and n s
    arbitrary: e r and e r and e r and e r and e r and e r rule: grammar_induct)
  case (1 n s)
  from "1.prems" show ?case
    by (subst (asm) parse_or.simps) (auto split: res.splits intro: "1.IH")
next
  case (2 n left s)
  from "2.prems" "2.IH" show ?case
    by (subst (asm) or_loop.simps) (fastforce split: res.splits prod.splits bool.splits)
next
  case (3 n s)
  from "3.prems" show ?case
    by (subst (asm) parse_and.simps) (auto split: res.splits intro: "3.IH")
next
  case (4 n left s)
  from "4.prems" "4.IH" show ?case
    by (subst (asm) and_loop.simps) (fastforce split: res.splits prod.splits bool.splits)
next
  case (5 n s)
  from "5.prems" "5.IH" show ?case
    by (subst (asm) parse_not.simps) (fastforce split: res.splits prod.splits bool.splits)
next
  case (6 n s)
  from "6.prems" "6.IH" show ?case
    by (subst (asm) parse_primary.simps)
      (fastforce simp: res_bind_def split: res.splits prod.splits bool.splits dest: parse_leaf_wf)
qed

lemma parse_filter_wf: "parse_filter raw = Ok f \<Longrightarrow> f_expr f = Some e \<Longrightarrow> wf_expr e"
  by (auto simp: parse_filter_def Let_def split: if_splits res.splits) (rule grammar_wf(1))

section \<open>A printer, and that parsing reads it back\<close>

fun escape :: "string \<Rightarrow> string" where
  "escape [] = []"
| "escape (c # s) =
     (if c = CHR 0x22 \<or> c = CHR 0x5C then [CHR 0x5C, c] else [c]) @ escape s"

definition quoted :: "string \<Rightarrow> string" where
  "quoted v = CHR 0x22 # escape v @ [CHR 0x22]"

fun print_expr :: "expr \<Rightarrow> string" where
  "print_expr (HasKey k) = ''attributes:'' @ k"
| "print_expr (Eq k v) = ''attributes.'' @ k @ '' = '' @ quoted v"
| "print_expr (Ne k v) = ''attributes.'' @ k @ '' != '' @ quoted v"
| "print_expr (HasPrefix k v) = ''hasPrefix(attributes.'' @ k @ '', '' @ quoted v @ '')''"
| "print_expr (NotE e) = ''NOT '' @ print_expr e"
| "print_expr (AndE a b) = ''('' @ print_expr a @ '' AND '' @ print_expr b @ '')''"
| "print_expr (OrE a b) = ''('' @ print_expr a @ '' OR '' @ print_expr b @ '')''"

text \<open>Tokens of the printed form.\<close>

lemma skip_ws_graphic: "ascii_graphic c \<Longrightarrow> skip_ws (c # s) = c # s"
  by (simp add: skip_ws_def trim_start_graphic)

lemma skip_ws_space [simp]: "skip_ws (CHR '' '' # s) = skip_ws s"
  by (simp add: skip_ws_def trim_start_space)

lemma skip_ws_Nil [simp]: "skip_ws [] = []"
  by (simp add: skip_ws_def)

lemma skip_ws_idem [simp]: "skip_ws (skip_ws s) = skip_ws s"
  by (simp add: skip_ws_def)

lemma eat_skip_ws [simp]: "eat t (skip_ws s) = eat t s"
  by (simp add: eat_def)

lemma eat_space [simp]: "eat t (CHR '' '' # s) = eat t s"
  by (simp add: eat_def)

lemma eat_graphic:
  "ascii_graphic c \<Longrightarrow> eat t (c # s) =
     (if starts_with (c # s) t then (True, drop (length t) (c # s)) else (False, c # s))"
  by (simp add: eat_def skip_ws_graphic)

lemma eat_Nil: "t \<noteq> [] \<Longrightarrow> eat t [] = (False, [])"
  by (cases t) (simp_all add: eat_def)

lemma ident_char_graphic: "ident_char c \<Longrightarrow> ascii_graphic c"
  by (auto simp: ident_char_def is_ascii_alphanumeric_def ascii_graphic_def Let_def)

lemmas print_simps = eat_graphic eat_Nil skip_ws_graphic ascii_graphic_def expect_def

definition follows :: "string \<Rightarrow> bool" where
  "follows r = (r = [] \<or> hd r = CHR '' '' \<or> hd r = CHR '')'')"

definition stops :: "string \<Rightarrow> bool" where
  "stops r = (r = [] \<or> \<not> ident_char (hd r))"

lemma stops_simps [simp]:
  "stops []" "stops (c # s) = (\<not> ident_char c)"
  by (simp_all add: stops_def)

lemma follows_stops: "follows r \<Longrightarrow> stops r"
  by (auto simp: follows_def stops_def ident_char_def is_ascii_alphanumeric_def)

lemma parse_ident_key: "wf_key k \<Longrightarrow> stops r \<Longrightarrow> parse_ident (k @ r) = Ok (k, r)"
proof -
  assume k: "wf_key k" and r: "stops r"
  then obtain c k' where ck: "k = c # k'" "ident_char c" by (cases k) (auto simp: wf_key_def)
  have "takeWhile ident_char (k @ r) = k" "dropWhile ident_char (k @ r) = r"
    using k r by (auto simp: wf_key_def list_all_iff stops_def takeWhile_append dropWhile_append
        takeWhile_eq_Nil_iff dropWhile_eq_self_iff)
  moreover have "skip_ws (k @ r) = k @ r"
    using ck by (simp add: skip_ws_graphic ident_char_graphic)
  ultimately show ?thesis using k by (simp add: parse_ident_def wf_key_def)
qed

lemma string_body_escape: "string_body (escape v @ CHR 0x22 # r) = Some (v, r)"
  by (induction v) auto

lemma parse_string_quoted [simp]: "parse_string (quoted v @ r) = Ok (v, r)"
  by (simp add: parse_string_def quoted_def print_simps string_body_escape)

lemma parse_string_skip [simp]: "parse_string (CHR '' '' # s) = parse_string s"
  by (simp add: parse_string_def)

lemma ident_char_seps [simp]:
  "\<not> ident_char (CHR '' '')" "\<not> ident_char (CHR '','')" "\<not> ident_char (CHR '')'')"
  by (simp_all add: ident_char_def is_ascii_alphanumeric_def)

lemma parse_attr_field_key:
  "wf_key k \<Longrightarrow> stops r \<Longrightarrow> parse_attr_field n (''attributes.'' @ k @ r) = Ok (k, r)"
  by (simp add: parse_attr_field_def print_simps parse_ident_key)

lemma parse_leaf_print:
  assumes "follows r"
  shows "wf_key k \<Longrightarrow> parse_leaf n (print_expr (HasKey k) @ r) = Ok (HasKey k, r)"
    and "wf_key k \<Longrightarrow> parse_leaf n (print_expr (Eq k v) @ r) = Ok (Eq k v, r)"
    and "wf_key k \<Longrightarrow> parse_leaf n (print_expr (Ne k v) @ r) = Ok (Ne k v, r)"
    and "wf_key k \<Longrightarrow> parse_leaf n (print_expr (HasPrefix k v) @ r) = Ok (HasPrefix k v, r)"
  using assms parse_attr_field_key [of k "'' = '' @ quoted v @ r" n]
    parse_attr_field_key [of k "'' != '' @ quoted v @ r" n]
    parse_attr_field_key [of k "'', '' @ quoted v @ '')'' @ r" n]
  by (simp_all add: parse_leaf_def print_simps parse_ident_key follows_stops)

lemma parse_not_skip [simp]: "parse_not n (CHR '' '' # s) = parse_not n s"
  by (simp add: parse_not.simps [of n "CHR '' '' # s"] parse_not.simps [of n s])

lemma parse_and_skip [simp]: "parse_and n (CHR '' '' # s) = parse_and n s"
  by (simp add: parse_and.simps [of n "CHR '' '' # s"] parse_and.simps [of n s])

lemma loops_stop:
  "and_loop n e (CHR '')'' # r) = Ok (e, CHR '')'' # r)"
  "or_loop n e (CHR '')'' # r) = Ok (e, CHR '')'' # r)"
  "and_loop n e [] = Ok (e, [])"
  "or_loop n e [] = Ok (e, [])"
  "and_loop n e (CHR '' '' # CHR ''O'' # r) = Ok (e, CHR ''O'' # r)"
  by (simp_all add: and_loop.simps or_loop.simps print_simps)

lemma parse_not_leaf:
  "c = CHR ''a'' \<or> c = CHR ''h'' \<Longrightarrow> parse_not n (c # s) = parse_leaf n (c # s)"
  by (auto simp: parse_not.simps parse_primary.simps print_simps)

lemma parse_not_paren:
  "parse_not n (CHR ''('' # s) =
     res_bind (parse_or n s) (\<lambda>(inner, r). res_bind (expect n '')'' r) (\<lambda>r'. Ok (inner, r')))"
  by (cases "parse_or n s")
    (auto simp: parse_not.simps parse_primary.simps print_simps split: prod.splits)

lemma parse_not_print:
  "wf_expr e \<Longrightarrow> follows r \<Longrightarrow> parse_not n (print_expr e @ r) = Ok (e, r)"
proof (induction e arbitrary: r)
  case (HasKey k)
  then show ?case using parse_leaf_print(1) [of r k n] by (simp add: parse_not_leaf)
next
  case (Eq k v)
  then show ?case using parse_leaf_print(2) [of r k n v] by (simp add: parse_not_leaf)
next
  case (Ne k v)
  then show ?case using parse_leaf_print(3) [of r k n v] by (simp add: parse_not_leaf)
next
  case (HasPrefix k v)
  then show ?case using parse_leaf_print(4) [of r k n v] by (simp add: parse_not_leaf)
next
  case (NotE e)
  then have "parse_not n (print_expr e @ r) = Ok (e, r)" by simp
  then show ?case by (simp add: parse_not.simps [of n "CHR ''N'' # _"] print_simps)
next
  case (AndE a b)
  have a: "parse_not n (print_expr a @ '' AND '' @ print_expr b @ '')'' @ r) =
      Ok (a, '' AND '' @ print_expr b @ '')'' @ r)"
    using AndE.prems by (intro AndE.IH(1)) (auto simp: follows_def)
  have b: "parse_not n (print_expr b @ '')'' @ r) = Ok (b, '')'' @ r)"
    using AndE.prems by (intro AndE.IH(2)) (auto simp: follows_def)
  have "and_loop n a ('' AND '' @ print_expr b @ '')'' @ r) = Ok (AndE a b, '')'' @ r)"
    using b by (simp add: and_loop.simps [of n a] print_simps loops_stop)
  with a show ?case
    by (simp add: parse_not_paren parse_or.simps parse_and.simps loops_stop print_simps)
next
  case (OrE a b)
  have a: "parse_not n (print_expr a @ '' OR '' @ print_expr b @ '')'' @ r) =
      Ok (a, '' OR '' @ print_expr b @ '')'' @ r)"
    using OrE.prems by (intro OrE.IH(1)) (auto simp: follows_def)
  have b: "parse_not n (print_expr b @ '')'' @ r) = Ok (b, '')'' @ r)"
    using OrE.prems by (intro OrE.IH(2)) (auto simp: follows_def)
  then have "parse_and n (print_expr b @ '')'' @ r) = Ok (b, '')'' @ r)"
    by (simp add: parse_and.simps loops_stop)
  then have "or_loop n a (''OR '' @ print_expr b @ '')'' @ r) = Ok (OrE a b, '')'' @ r)"
    by (simp add: or_loop.simps [of n a] print_simps loops_stop)
  with a show ?case
    by (simp add: parse_not_paren parse_or.simps parse_and.simps loops_stop print_simps)
qed

lemma print_expr_ends:
  "wf_expr e \<Longrightarrow> print_expr e \<noteq> [] \<and> ascii_graphic (hd (print_expr e)) \<and> ascii_graphic (last (print_expr e))"
proof (induction e)
  case (HasKey k)
  then have "k \<noteq> []" "ident_char (last k)" by (auto simp: wf_key_def list_all_iff)
  then show ?case using ident_char_graphic by (simp add: ascii_graphic_def)
qed (auto simp: ascii_graphic_def quoted_def)

lemma trim_print: "wf_expr e \<Longrightarrow> trim (print_expr e) = print_expr e"
  by (rule trim_graphic) (auto dest: print_expr_ends)

lemma parse_filter_print:
  assumes "wf_expr e"
  shows "parse_filter (print_expr e) = Ok \<lparr>f_raw = print_expr e, f_expr = Some e\<rparr>"
proof -
  have "parse_not n (print_expr e @ []) = Ok (e, [])" for n
    by (rule parse_not_print) (simp_all add: assms follows_def)
  then have "parse_or n (print_expr e) = Ok (e, [])" for n
    by (simp add: parse_or.simps parse_and.simps loops_stop)
  then show ?thesis
    using print_expr_ends [OF assms] by (simp add: parse_filter_def Let_def trim_print assms)
qed

end
