(* ===== verification/Schema_Validate.thy ===== *)
theory Schema_Validate
  imports Relay_Model
begin

text \<open>
  JSON values (\<open>serde_json::Value\<close>) and \<open>src/schema_validate.rs\<close>.

  The JSON parser is a crate outside the repository: every definition that parses takes it
  as the argument \<open>jp\<close>, which returns the value or the parser's error message. Nothing is
  assumed about it.
\<close>

section \<open>JSON values\<close>

datatype json_number = PosInt u64 | NegInt int | Float u64

datatype json =
    JNull
  | JBool bool
  | JNumber json_number
  | JString string
  | JArray "json list"
  | JObject "(string \<times> json) list"

type_synonym json_parser = "string \<Rightarrow> string + json"

text \<open>\<open>Value::get(key)\<close> and the \<open>as_*\<close> accessors.\<close>

definition json_get :: "json \<Rightarrow> string \<Rightarrow> json option" where
  "json_get v key = (case v of JObject m \<Rightarrow> hm_get m key | _ \<Rightarrow> None)"

definition as_str :: "json \<Rightarrow> string option" where
  "as_str v = (case v of JString s \<Rightarrow> Some s | _ \<Rightarrow> None)"

definition as_array :: "json \<Rightarrow> json list option" where
  "as_array v = (case v of JArray xs \<Rightarrow> Some xs | _ \<Rightarrow> None)"

definition as_object :: "json \<Rightarrow> (string \<times> json) list option" where
  "as_object v = (case v of JObject m \<Rightarrow> Some m | _ \<Rightarrow> None)"

definition as_bool :: "json \<Rightarrow> bool option" where
  "as_bool v = (case v of JBool b \<Rightarrow> Some b | _ \<Rightarrow> None)"

definition as_u64 :: "json \<Rightarrow> u64 option" where
  "as_u64 v = (case v of JNumber (PosInt n) \<Rightarrow> Some n | _ \<Rightarrow> None)"

definition get_str :: "json \<Rightarrow> string \<Rightarrow> string option" where
  "get_str v key = Option.bind (json_get v key) as_str"

lemmas json_access = json_get_def as_str_def as_array_def as_object_def as_bool_def as_u64_def
  get_str_def

section \<open>Definitions and payloads\<close>

definition validate_definition :: "json_parser \<Rightarrow> schema_spec \<Rightarrow> unit res" where
  "validate_definition jp schema =
     (if trim (sc_definition schema) = [] then
        Err (InvalidArgument ''schema definition is required'')
      else
        let kind = to_ascii_uppercase (sc_schema_type schema) in
        if kind = ''AVRO'' then
          (case jp (sc_definition schema) of
             Inl e \<Rightarrow> Err (InvalidArgument (''Avro schema is not JSON: '' @ e))
           | Inr value \<Rightarrow>
               if json_get value ''type'' = None
               then Err (InvalidArgument ''Avro schema must include a type field'')
               else Ok ())
        else if kind = ''PROTOCOL_BUFFER'' then
          (let def = to_ascii_lowercase (sc_definition schema) in
           if str_contains def ''message'' \<or> str_contains def ''syntax'' then Ok ()
           else Err (InvalidArgument
             ''Protocol Buffer schema must contain a message or syntax declaration''))
        else if kind = ''UNSPECIFIED'' \<or> kind = '''' \<or> kind = ''JSON'' \<or> kind = ''JSON_SCHEMA'' then
          (if starts_with (trim_start (sc_definition schema)) ''{'' then
             (case jp (sc_definition schema) of
                Inl e \<Rightarrow> Err (InvalidArgument (''schema definition is not JSON: '' @ e))
              | Inr _ \<Rightarrow> Ok ())
           else Ok ())
        else Err (InvalidArgument (''unsupported schema type '' @ kind)))"

text \<open>The loop over \<open>required\<close>: entries that are no strings are skipped.\<close>

fun check_required :: "(string \<times> json) list \<Rightarrow> json list \<Rightarrow> unit res" where
  "check_required object [] = Ok ()"
| "check_required object (key # required) =
     (case as_str key of
        None \<Rightarrow> check_required object required
      | Some name \<Rightarrow>
          if \<not> hm_contains object name
          then Err (InvalidArgument (''payload missing required field '' @ [CHR 0x27] @ name @ [CHR 0x27]))
          else check_required object required)"

definition enforce_required :: "json \<Rightarrow> json \<Rightarrow> unit res" where
  "enforce_required schema body =
     (case Option.bind (json_get schema ''required'') as_array of
        None \<Rightarrow> Ok ()
      | Some required \<Rightarrow>
          (case as_object body of
             None \<Rightarrow> Err (InvalidArgument ''JSON schema expected an object payload'')
           | Some object \<Rightarrow> check_required object required))"

definition validate_json :: "json_parser \<Rightarrow> schema_spec \<Rightarrow> bytes \<Rightarrow> unit res" where
  "validate_json jp schema payload =
     res_bind (validate_definition jp schema) (\<lambda>_.
       (case jp payload of
          Inl e \<Rightarrow> Err (InvalidArgument (''JSON encoding requires a JSON payload: '' @ e))
        | Inr body \<Rightarrow>
            (case jp (sc_definition schema) of
               Inl _ \<Rightarrow> Ok ()
             | Inr def \<Rightarrow> enforce_required def body)))"

definition validate_payload :: "json_parser \<Rightarrow> schema_spec \<Rightarrow> string \<Rightarrow> bytes \<Rightarrow> unit res" where
  "validate_payload jp schema encoding payload =
     (if payload = [] then
        Err (InvalidArgument ''message body is required for a schema-bound topic'')
      else
        let enc = to_ascii_uppercase encoding in
        if enc = '''' \<or> enc = ''JSON'' \<or> enc = ''ENCODING_UNSPECIFIED'' then validate_json jp schema payload
        else if enc = ''BINARY'' then validate_definition jp schema
        else Err (InvalidArgument (''unsupported schema encoding '' @ enc)))"

section \<open>What an accepted payload satisfies\<close>

lemma check_required_Ok:
  "check_required object required = Ok () \<longleftrightarrow>
     (\<forall>name. JString name \<in> set required \<longrightarrow> hm_contains object name)"
  by (induction required) (auto simp: as_str_def split: json.splits)

lemma check_required_no_panic [simp]: "check_required object required \<noteq> Panic"
  by (induction required) (auto split: option.splits)

lemma enforce_required_Ok:
  "enforce_required schema body = Ok () \<longleftrightarrow>
     (\<forall>required. json_get schema ''required'' = Some (JArray required) \<longrightarrow>
        (\<exists>object. body = JObject object \<and>
           (\<forall>name. JString name \<in> set required \<longrightarrow> hm_contains object name)))"
  by (cases "json_get schema ''required''")
    (auto simp: enforce_required_def as_array_def as_object_def check_required_Ok
      split: option.splits json.splits)

lemma validate_definition_no_panic [simp]: "validate_definition jp schema \<noteq> Panic"
  by (auto simp: validate_definition_def Let_def split: sum.splits)

lemma validate_payload_no_panic [simp]: "validate_payload jp schema enc payload \<noteq> Panic"
  by (auto simp: validate_payload_def validate_json_def enforce_required_def Let_def res_bind_def
      split: res.splits sum.splits option.splits)

lemma validate_payload_json:
  assumes ok: "validate_payload jp schema encoding payload = Ok ()"
    and enc: "to_ascii_uppercase encoding \<in> {'''', ''JSON'', ''ENCODING_UNSPECIFIED''}"
    and required: "jp (sc_definition schema) = Inr def"
      "json_get def ''required'' = Some (JArray names)"
  shows "\<exists>object. jp payload = Inr (JObject object) \<and>
    (\<forall>name. JString name \<in> set names \<longrightarrow> hm_contains object name)"
proof -
  from ok enc have "validate_json jp schema payload = Ok ()"
    by (auto simp: validate_payload_def Let_def split: if_splits)
  with required(1) obtain body where "jp payload = Inr body" and "enforce_required def body = Ok ()"
    by (auto simp: validate_json_def res_bind_def split: res.splits sum.splits)
  with required(2) show ?thesis by (auto simp: enforce_required_Ok)
qed

lemma validate_payload_definition:
  "validate_payload jp schema encoding payload = Ok () \<Longrightarrow>
     validate_definition jp schema = Ok () \<and> payload \<noteq> []"
  by (auto simp: validate_payload_def validate_json_def Let_def res_bind_def
      split: if_splits res.splits)

end
