(* ===== verification/Cloud_Events.thy ===== *)
theory Cloud_Events
  imports Schema_Validate
begin

text \<open>
  \<open>src/cloudevents.rs\<close>: the attributes that publishing stamps on a message.
\<close>

definition stamp :: "attrs \<Rightarrow> string \<Rightarrow> json option \<Rightarrow> attrs" where
  "stamp attributes key value =
     (case Option.bind value as_str of
        None \<Rightarrow> attributes
      | Some v \<Rightarrow> hm_entry_or_insert key v attributes)"

definition stamp_topic :: "string \<Rightarrow> attrs \<Rightarrow> attrs" where
  "stamp_topic topic attributes =
     hm_entry_or_insert ''relay.topic'' (rsplit_last (CHR ''/'') topic) attributes"

definition content_type_of :: "attrs \<Rightarrow> string" where
  "content_type_of attributes =
     (case hm_get attributes ''content-type'' of
        Some v \<Rightarrow> v
      | None \<Rightarrow> (case hm_get attributes ''Content-Type'' of Some v \<Rightarrow> v | None \<Rightarrow> []))"

definition looks_like_ce :: "json_parser \<Rightarrow> new_message \<Rightarrow> bool" where
  "looks_like_ce jp message =
     (str_contains (content_type_of (n_attributes message)) ''cloudevents''
      \<or> (case jp (n_data message) of
           Inl _ \<Rightarrow> False
         | Inr v \<Rightarrow> get_str v ''specversion'' \<noteq> None))"

definition ce_stamps :: "json \<Rightarrow> attrs \<Rightarrow> attrs" where
  "ce_stamps body attributes =
     (let a1 = stamp attributes ''ce-id'' (json_get body ''id'');
          a2 = stamp a1 ''ce-source'' (json_get body ''source'');
          a3 = stamp a2 ''ce-type'' (json_get body ''type'');
          a4 = stamp a3 ''ce-specversion'' (json_get body ''specversion'')
      in stamp a4 ''ce-subject'' (json_get body ''subject''))"

definition enrich_message :: "json_parser \<Rightarrow> string \<Rightarrow> new_message \<Rightarrow> new_message" where
  "enrich_message jp topic message =
     (let message = message\<lparr>n_attributes := stamp_topic topic (n_attributes message)\<rparr> in
      if \<not> looks_like_ce jp message then message
      else (case jp (n_data message) of
              Inl _ \<Rightarrow> message
            | Inr body \<Rightarrow> message\<lparr>n_attributes := ce_stamps body (n_attributes message)\<rparr>))"

section \<open>Enrichment only adds attributes, and once\<close>

lemma get_stamp:
  "hm_get (stamp a key v) k =
     (if k = key \<and> hm_get a key = None then Option.bind v as_str else hm_get a k)"
  by (auto simp: stamp_def split: option.splits)

lemma get_stamp_topic:
  "hm_get (stamp_topic topic a) k =
     (if k = ''relay.topic'' \<and> hm_get a k = None then Some (rsplit_last (CHR ''/'') topic) else hm_get a k)"
  by (auto simp: stamp_topic_def split: option.splits)

lemma hm_ok_stamp [simp]: "hm_ok a \<Longrightarrow> hm_ok (stamp a k v)"
  by (auto simp: stamp_def split: option.splits)

lemma stamp_keep: "hm_get a key \<noteq> None \<or> Option.bind v as_str = None \<Longrightarrow> stamp a key v = a"
  by (auto simp: stamp_def hm_entry_or_insert_def split: option.splits)

lemma stamp_topic_keep: "hm_get a ''relay.topic'' \<noteq> None \<Longrightarrow> stamp_topic topic a = a"
  by (auto simp: stamp_topic_def hm_entry_or_insert_def)

definition ce_keys :: "string list" where
  "ce_keys = [''ce-id'', ''ce-source'', ''ce-type'', ''ce-specversion'', ''ce-subject'']"

lemma get_ce_stamps_other: "k \<notin> set ce_keys \<Longrightarrow> hm_get (ce_stamps body a) k = hm_get a k"
  by (simp add: ce_stamps_def ce_keys_def get_stamp Let_def)

lemma get_stamp_kept: "hm_get a k = Some v \<Longrightarrow> hm_get (stamp a key w) k = Some v"
  by (auto simp: get_stamp)

lemma get_ce_stamps_kept: "hm_get a k = Some v \<Longrightarrow> hm_get (ce_stamps body a) k = Some v"
  unfolding ce_stamps_def Let_def by (intro get_stamp_kept)

lemma get_ce_type:
  "hm_get a ''ce-type'' = None \<Longrightarrow> get_str body ''type'' = Some t \<Longrightarrow>
     hm_get (ce_stamps body a) ''ce-type'' = Some t"
  by (simp add: ce_stamps_def get_stamp Let_def get_str_def)

lemma stamp_done_self: "hm_get (stamp b k v) k \<noteq> None \<or> Option.bind v as_str = None"
  by (auto simp: get_stamp)

lemma stamp_done_mono: "hm_get b k \<noteq> None \<or> P \<Longrightarrow> hm_get (stamp b key w) k \<noteq> None \<or> P"
  by (auto simp: get_stamp)

lemma ce_stamps_done:
  "stamp (ce_stamps body a) ''ce-id'' (json_get body ''id'') = ce_stamps body a"
  "stamp (ce_stamps body a) ''ce-source'' (json_get body ''source'') = ce_stamps body a"
  "stamp (ce_stamps body a) ''ce-type'' (json_get body ''type'') = ce_stamps body a"
  "stamp (ce_stamps body a) ''ce-specversion'' (json_get body ''specversion'') = ce_stamps body a"
  "stamp (ce_stamps body a) ''ce-subject'' (json_get body ''subject'') = ce_stamps body a"
  unfolding ce_stamps_def Let_def
  by (rule stamp_keep, (rule stamp_done_self | rule stamp_done_mono)+)+

lemma ce_stamps_idem: "ce_stamps body (ce_stamps body a) = ce_stamps body a"
  by (simp add: ce_stamps_def [of body "ce_stamps body a"] Let_def ce_stamps_done)

lemma enrich_frame [simp]:
  "n_data (enrich_message jp t m) = n_data m"
  "n_ordering_key (enrich_message jp t m) = n_ordering_key m"
  "n_message_id (enrich_message jp t m) = n_message_id m"
  by (auto simp: enrich_message_def Let_def split: sum.splits)

lemma enrich_keeps:
  "hm_get (n_attributes m) k = Some v \<Longrightarrow> hm_get (n_attributes (enrich_message jp t m)) k = Some v"
  by (auto simp: enrich_message_def Let_def get_stamp_topic get_ce_stamps_kept split: sum.splits)

lemma enrich_other:
  "k \<noteq> ''relay.topic'' \<Longrightarrow> k \<notin> set ce_keys \<Longrightarrow>
     hm_get (n_attributes (enrich_message jp t m)) k = hm_get (n_attributes m) k"
  by (auto simp: enrich_message_def Let_def get_stamp_topic get_ce_stamps_other split: sum.splits)

lemma enrich_topic:
  "hm_get (n_attributes m) ''relay.topic'' = None \<Longrightarrow>
   hm_get (n_attributes (enrich_message jp t m)) ''relay.topic'' = Some (rsplit_last (CHR ''/'') t)"
  by (auto simp: enrich_message_def Let_def get_stamp_topic get_ce_stamps_kept split: sum.splits)

lemma content_type_enrich:
  "content_type_of (n_attributes (enrich_message jp t m)) = content_type_of (n_attributes m)"
proof -
  have "hm_get (n_attributes (enrich_message jp t m)) k = hm_get (n_attributes m) k"
    if "k \<in> {''content-type'', ''Content-Type''}" for k
    using that by (intro enrich_other) (auto simp: ce_keys_def)
  then show ?thesis by (simp add: content_type_of_def cong: option.case_cong)
qed

lemma looks_like_ce_cong:
  "n_data m = n_data m' \<Longrightarrow> content_type_of (n_attributes m) = content_type_of (n_attributes m') \<Longrightarrow>
     looks_like_ce jp m = looks_like_ce jp m'"
  by (simp add: looks_like_ce_def)

lemma enrich_eq:
  "enrich_message jp t m =
     (let m1 = m\<lparr>n_attributes := stamp_topic t (n_attributes m)\<rparr> in
      case jp (n_data m) of
        Inl _ \<Rightarrow> m1
      | Inr body \<Rightarrow>
          if looks_like_ce jp m then m\<lparr>n_attributes := ce_stamps body (stamp_topic t (n_attributes m))\<rparr>
          else m1)"
proof -
  have "looks_like_ce jp (m\<lparr>n_attributes := stamp_topic t (n_attributes m)\<rparr>) = looks_like_ce jp m"
    by (rule looks_like_ce_cong) (simp_all add: content_type_of_def get_stamp_topic cong: option.case_cong)
  then show ?thesis by (auto simp: enrich_message_def Let_def split: sum.splits)
qed

lemma enrich_idem: "enrich_message jp t (enrich_message jp t m) = enrich_message jp t m"
proof -
  let ?e = "enrich_message jp t m"
  have l: "looks_like_ce jp ?e = looks_like_ce jp m"
    by (rule looks_like_ce_cong) (simp_all add: content_type_enrich)
  have "hm_get (n_attributes ?e) ''relay.topic'' \<noteq> None"
    by (cases "hm_get (n_attributes m) ''relay.topic''") (auto simp: enrich_topic dest: enrich_keeps)
  then have s: "stamp_topic t (n_attributes ?e) = n_attributes ?e" by (rule stamp_topic_keep)
  show ?thesis
  proof (cases "jp (n_data m)")
    case (Inl e)
    then show ?thesis by (subst enrich_eq) (simp add: s)
  next
    case (Inr body)
    show ?thesis
    proof (cases "looks_like_ce jp m")
      case True
      then have "n_attributes ?e = ce_stamps body (stamp_topic t (n_attributes m))"
        using Inr by (simp add: enrich_eq)
      then have "ce_stamps body (n_attributes ?e) = n_attributes ?e" by (simp add: ce_stamps_idem)
      then show ?thesis using Inr by (subst enrich_eq) (simp add: s l)
    next
      case False
      then show ?thesis using Inr by (subst enrich_eq) (simp add: s l)
    qed
  qed
qed

end
