(* ===== verification/Store_State.thy ===== *)
theory Store_State
  imports Attribute_Filter Cloud_Events
begin

text \<open>
  The state of \<open>MemoryBackend\<close> (\<open>src/memory.rs\<close>) and its helpers: the retry backoff, the
  field masks of the update calls, and the test that blocks ordered delivery.

  Every operation of the store takes the write lock for its whole body, so an operation is
  one atomic step: a function from an environment and a state to an outcome and a state.
  The environment holds what a call takes from outside the program.
\<close>

section \<open>State\<close>

record inflight =
  if_topic_index :: nat
  if_deadline :: time

record retry_entry =
  re_topic_index :: nat
  re_available_at :: time

record topic_state =
  ts_spec :: topic_spec
  ts_messages :: "relay_message list"
  ts_seen_ids :: "(string, string) hmap"

record subscription_state =
  ss_spec :: subscription_spec
  ss_next_index :: nat
  ss_acked :: "nat set"
  ss_inflight :: "(string, inflight) hmap"
  ss_retry_queue :: "retry_entry list"
  ss_attempts :: "(nat, u32) hmap"
  ss_ordering_acked :: "(string, nat) hmap"

record state =
  st_topics :: "(string, topic_state) hmap"
  st_subscriptions :: "(string, subscription_state) hmap"
  st_snapshots :: "(string, snapshot_spec) hmap"
  st_schemas :: "(string, schema_spec) hmap"
  st_iam :: "(string, iam_policy) hmap"

definition empty_state :: state where
  "empty_state = \<lparr>st_topics = [], st_subscriptions = [], st_snapshots = [], st_schemas = [],
     st_iam = []\<rparr>"

section \<open>The environment of a call\<close>

text \<open>
  \<^item> \<open>e_now\<close>: the clock as the call first reads it; \<open>e_clock k\<close>: its further readings;
  \<^item> \<open>e_uuid k\<close>: the \<open>k\<close>-th fresh identifier the call draws (\<open>Uuid::new_v4\<close>);
  \<^item> \<open>e_order\<close>: the order in which the leases' hash map is iterated;
  \<^item> \<open>e_persist\<close>: \<open>None\<close> when \<open>persist_locked\<close> succeeds (or no file is configured), and
    the message of its error otherwise;
  \<^item> \<open>e_json\<close>: the JSON parser.
\<close>

record env =
  e_now :: time
  e_clock :: "nat \<Rightarrow> time"
  e_uuid :: "nat \<Rightarrow> string"
  e_order :: "(string \<times> inflight) list \<Rightarrow> (string \<times> inflight) list"
  e_persist :: "string option"
  e_json :: json_parser

text \<open>Iterating a map yields each of its entries once.\<close>

definition env_order_ok :: "env \<Rightarrow> bool" where
  "env_order_ok e = (\<forall>m. mset (e_order e m) = mset m)"

text \<open>
  Fresh identifiers are distinct from each other and avoid the set \<open>used\<close>; the
  hyphenated hexadecimal form of a UUID is not empty and has no colon.
\<close>

definition env_fresh :: "env \<Rightarrow> string set \<Rightarrow> bool" where
  "env_fresh e used = (inj (e_uuid e) \<and> range (e_uuid e) \<inter> used = {} \<and> [] \<notin> range (e_uuid e)
     \<and> (\<forall>k. CHR '':'' \<notin> set (e_uuid e k)))"

definition persist_locked :: "env \<Rightarrow> 'a \<Rightarrow> 'a res" where
  "persist_locked e x = (case e_persist e of None \<Rightarrow> Ok x | Some m \<Rightarrow> Err (Internal m))"

lemma persist_locked_no_panic [simp]: "persist_locked e x \<noteq> Panic"
  by (simp add: persist_locked_def split: option.splits)

lemma persist_locked_Ok [simp]: "persist_locked e x = Ok y \<longleftrightarrow> e_persist e = None \<and> y = x"
  by (auto simp: persist_locked_def split: option.splits)

section \<open>Backoff\<close>

definition normalize_ack_deadline :: "u32 \<Rightarrow> u32" where
  "normalize_ack_deadline s = clamp s 10 600"

definition backoff_bounds :: "subscription_spec \<Rightarrow> u32 \<times> u32" where
  "backoff_bounds spec =
     (case s_retry spec of
        Some r \<Rightarrow> (r_minimum_backoff_seconds r,
                   max (r_maximum_backoff_seconds r) (r_minimum_backoff_seconds r))
      | None \<Rightarrow> (10, 600))"

definition backoff_seconds :: "subscription_spec \<Rightarrow> u32 \<Rightarrow> u32" where
  "backoff_seconds spec attempt =
     (let (min_b, max_b) = backoff_bounds spec in
      if max_b = 0 then 0
      else let exp = min (sat_sub_u32 attempt 1) 10;
               delay = sat_mul_u32 min_b (push_bit (unat (min exp 16)) 1)
           in clamp delay min_b (max max_b 1))"

text \<open>The doubling as a number: \<open>min * 2 ^ (attempt - 1)\<close>, the exponent capped at ten.\<close>

definition backoff_spec :: "nat \<Rightarrow> nat \<Rightarrow> nat \<Rightarrow> nat" where
  "backoff_spec mn mx attempt = (if mx = 0 then 0 else min (mn * 2 ^ min (attempt - 1) 10) (max mx 1))"

lemma backoff_bounds_le: "fst (backoff_bounds spec) \<le> snd (backoff_bounds spec)"
  by (simp add: backoff_bounds_def split: option.split)

lemma unat_min: "unat (min a b :: 'a::len word) = min (unat a) (unat b)"
  by (simp add: min_def word_le_nat_alt)

lemma unat_max: "unat (max a b :: 'a::len word) = max (unat a) (unat b)"
  by (simp add: max_def word_le_nat_alt)

lemma unat_clamp: "unat (clamp a lo hi :: 'a::len word) = clamp (unat a) (unat lo) (unat hi)"
  by (simp add: clamp_def word_less_nat_alt)

lemma unat_shift_one: "k \<le> 10 \<Longrightarrow> unat (push_bit k (1 :: u32)) = 2 ^ k"
proof -
  assume "k \<le> 10"
  then have "(2 :: nat) ^ k \<le> 2 ^ 10" by (intro power_increasing) auto
  then have "(2 :: nat) ^ k < 2 ^ 32" by simp
  then have "take_bit 32 ((2 :: nat) ^ k) = 2 ^ k" by (rule take_bit_nat_eq_self)
  moreover have "unat (of_nat (2 ^ k) :: u32) = take_bit 32 (2 ^ k)"
    by (simp only: unsigned_of_nat) simp
  moreover have "push_bit k (1 :: u32) = of_nat (2 ^ k)" by (simp add: push_bit_eq_mult)
  ultimately show ?thesis by metis
qed

lemma unat_backoff_seconds:
  "unat (backoff_seconds spec attempt) =
     backoff_spec (unat (fst (backoff_bounds spec))) (unat (snd (backoff_bounds spec))) (unat attempt)"
proof -
  obtain mn mx where b: "backoff_bounds spec = (mn, mx)" by (cases "backoff_bounds spec")
  have le: "unat mn \<le> unat mx" using backoff_bounds_le [of spec] b by (simp add: word_le_nat_alt)
  show ?thesis
  proof (cases "mx = 0")
    case True
    then show ?thesis by (simp add: b backoff_seconds_def backoff_spec_def)
  next
    case False
    then have pos: "0 < unat mx" by (simp add: unat_gt_0)
    define k where "k = unat (min (min (sat_sub_u32 attempt 1) 10) 16)"
    have k: "k = min (unat attempt - 1) 10" "k \<le> 10"
      by (simp_all add: k_def unat_min unat_sat_sub_u32)
    have "unat (sat_mul_u32 mn (push_bit k 1)) = min (unat mn * 2 ^ k) (2 ^ 32 - 1)"
      using k(2) by (simp only: unat_sat_mul_u32 unat_shift_one)
    then have d: "unat (sat_mul_u32 mn (2 ^ k)) = min (unat mn * 2 ^ k) (2 ^ 32 - 1)"
      by simp
    have "unat mx < 2 ^ 32" by (rule order_less_le_trans [OF unsigned_less]) simp
    moreover have "unat mn \<le> unat mn * 2 ^ k" by simp
    ultimately have "clamp (min (unat mn * 2 ^ k) (2 ^ 32 - 1)) (unat mn) (max (unat mx) 1)
        = min (unat mn * 2 ^ k) (max (unat mx) 1)"
      using le pos by (auto simp: clamp_def min_def max_def)
    then show ?thesis
      using False pos
      by (simp add: b backoff_seconds_def backoff_spec_def Let_def unat_clamp unat_max d
          k(1) [symmetric] flip: k_def One_nat_def)
  qed
qed

lemma backoff_spec_bounds:
  "mn \<le> mx \<Longrightarrow> mn \<le> backoff_spec mn mx attempt" "backoff_spec mn mx attempt \<le> mx"
  by (auto simp: backoff_spec_def min_def max_def)

lemma backoff_spec_mono: "a \<le> b \<Longrightarrow> backoff_spec mn mx a \<le> backoff_spec mn mx b"
proof -
  assume "a \<le> b"
  then have "(2::nat) ^ min (a - 1) 10 \<le> 2 ^ min (b - 1) 10"
    by (intro power_increasing) auto
  then have "mn * 2 ^ min (a - 1) 10 \<le> mn * 2 ^ min (b - 1) 10" by (rule mult_le_mono2)
  then have "min (mn * 2 ^ min (a - 1) 10) (max mx 1) \<le> min (mn * 2 ^ min (b - 1) 10) (max mx 1)"
    by (rule min.mono) simp
  then show ?thesis by (simp only: backoff_spec_def split: if_split) simp
qed

section \<open>Field masks\<close>

definition mask_all :: "string list \<Rightarrow> bool" where
  "mask_all upd = (upd = [] \<or> ''*'' \<in> set upd)"

definition topic_mask_field :: "topic_spec \<Rightarrow> string \<Rightarrow> topic_spec \<Rightarrow> topic_spec" where
  "topic_mask_field incoming field existing =
     (if field = ''labels'' then existing\<lparr>t_labels := t_labels incoming\<rparr>
      else if field = ''kms_key_name'' \<or> field = ''kmsKeyName''
        then existing\<lparr>t_kms_key_name := t_kms_key_name incoming\<rparr>
      else if field = ''schema_settings'' \<or> field = ''schemaSettings''
           \<or> field = ''schema_name'' \<or> field = ''schemaName''
        then existing\<lparr>t_schema_name := t_schema_name incoming,
                      t_schema_encoding := t_schema_encoding incoming\<rparr>
      else existing)"

definition apply_topic_mask :: "topic_spec \<Rightarrow> topic_spec \<Rightarrow> string list \<Rightarrow> topic_spec" where
  "apply_topic_mask existing incoming upd =
     (if mask_all upd then
        existing\<lparr>t_labels := t_labels incoming, t_kms_key_name := t_kms_key_name incoming,
                 t_schema_name := t_schema_name incoming,
                 t_schema_encoding := t_schema_encoding incoming\<rparr>
      else fold (topic_mask_field incoming) upd existing)"

definition subscription_mask_field ::
  "subscription_spec \<Rightarrow> string \<Rightarrow> subscription_spec \<Rightarrow> subscription_spec" where
  "subscription_mask_field incoming field existing =
     (if field = ''ack_deadline_seconds'' \<or> field = ''ackDeadlineSeconds''
        then existing\<lparr>s_ack_deadline_seconds := s_ack_deadline_seconds incoming\<rparr>
      else if field = ''labels'' then existing\<lparr>s_labels := s_labels incoming\<rparr>
      else if field = ''enable_message_ordering'' \<or> field = ''enableMessageOrdering''
        then existing\<lparr>s_enable_message_ordering := s_enable_message_ordering incoming\<rparr>
      else if field = ''enable_exactly_once_delivery'' \<or> field = ''enableExactlyOnceDelivery''
        then existing\<lparr>s_enable_exactly_once_delivery := s_enable_exactly_once_delivery incoming\<rparr>
      else if field = ''dead_letter_policy'' \<or> field = ''deadLetterPolicy''
        then existing\<lparr>s_dead_letter := s_dead_letter incoming\<rparr>
      else if field = ''retry_policy'' \<or> field = ''retryPolicy''
        then existing\<lparr>s_retry := s_retry incoming\<rparr>
      else if field = ''push_config'' \<or> field = ''pushConfig''
        then existing\<lparr>s_push_endpoint := s_push_endpoint incoming,
                      s_push_attributes := s_push_attributes incoming\<rparr>
      else existing)"

definition apply_subscription_mask ::
  "subscription_spec \<Rightarrow> subscription_spec \<Rightarrow> string list \<Rightarrow> subscription_spec" where
  "apply_subscription_mask existing incoming upd =
     (if mask_all upd then
        existing\<lparr>s_ack_deadline_seconds := s_ack_deadline_seconds incoming,
                 s_labels := s_labels incoming,
                 s_enable_message_ordering := s_enable_message_ordering incoming,
                 s_enable_exactly_once_delivery := s_enable_exactly_once_delivery incoming,
                 s_dead_letter := s_dead_letter incoming,
                 s_retry := s_retry incoming,
                 s_push_endpoint := s_push_endpoint incoming,
                 s_push_attributes := s_push_attributes incoming\<rparr>
      else fold (subscription_mask_field incoming) upd existing)"

lemma topic_mask_frame [simp]: "t_name (apply_topic_mask ex inc upd) = t_name ex"
proof -
  have "t_name (fold (topic_mask_field inc) fs ex) = t_name ex" for fs
    by (induction fs arbitrary: ex) (simp_all add: topic_mask_field_def)
  then show ?thesis by (simp add: apply_topic_mask_def)
qed

lemma subscription_mask_field_frame [simp]:
  "s_name (subscription_mask_field inc f ex) = s_name ex"
  "s_topic (subscription_mask_field inc f ex) = s_topic ex"
  "s_filter (subscription_mask_field inc f ex) = s_filter ex"
  by (simp_all add: subscription_mask_field_def)

lemma subscription_mask_frame [simp]:
  "s_name (apply_subscription_mask ex inc upd) = s_name ex"
  "s_topic (apply_subscription_mask ex inc upd) = s_topic ex"
  "s_filter (apply_subscription_mask ex inc upd) = s_filter ex"
proof -
  have "s_name (fold (subscription_mask_field inc) fs ex) = s_name ex
      \<and> s_topic (fold (subscription_mask_field inc) fs ex) = s_topic ex
      \<and> s_filter (fold (subscription_mask_field inc) fs ex) = s_filter ex" for fs
    by (induction fs arbitrary: ex) simp_all
  then show "s_name (apply_subscription_mask ex inc upd) = s_name ex"
    "s_topic (apply_subscription_mask ex inc upd) = s_topic ex"
    "s_filter (apply_subscription_mask ex inc upd) = s_filter ex"
    by (simp_all add: apply_subscription_mask_def)
qed

section \<open>Ordered delivery\<close>

text \<open>
  The loop of \<open>ordering_blocked\<close> over the messages before \<open>index\<close>, with its two
  \<open>continue\<close>s and two \<open>return true\<close>s; \<open>i\<close> is the index of the first message of the list.
\<close>

primrec blocked_scan :: "subscription_state \<Rightarrow> string \<Rightarrow> time \<Rightarrow> nat \<Rightarrow> relay_message list \<Rightarrow> bool" where
  "blocked_scan sub key now i [] = False"
| "blocked_scan sub key now i (msg # msgs) =
     (if m_ordering_key msg \<noteq> key then blocked_scan sub key now (Suc i) msgs
      else if i \<in> ss_acked sub then blocked_scan sub key now (Suc i) msgs
      else if list_ex (\<lambda>v. if_topic_index v = i \<and> now < if_deadline v) (hm_values (ss_inflight sub)) then True
      else if i \<notin> ss_acked sub then True
      else blocked_scan sub key now (Suc i) msgs)"

text \<open>\<open>topic.messages[index]\<close> panics when the index is out of range.\<close>

definition ordering_blocked :: "subscription_state \<Rightarrow> topic_state \<Rightarrow> nat \<Rightarrow> time \<Rightarrow> bool res" where
  "ordering_blocked sub topic index now =
     (if \<not> s_enable_message_ordering (ss_spec sub) then Ok False
      else if length (ts_messages topic) \<le> index then Panic
      else let key = m_ordering_key (ts_messages topic ! index) in
        if key = [] then Ok False
        else Ok (blocked_scan sub key now 0 (take index (ts_messages topic))))"

text \<open>The specification: an earlier message with the same key is not acknowledged.\<close>

definition earlier_unacked :: "nat set \<Rightarrow> relay_message list \<Rightarrow> nat \<Rightarrow> bool" where
  "earlier_unacked acked msgs index =
     (m_ordering_key (msgs ! index) \<noteq> [] \<and>
      (\<exists>i < index. m_ordering_key (msgs ! i) = m_ordering_key (msgs ! index) \<and> i \<notin> acked))"

lemma blocked_scan_iff:
  "blocked_scan sub key now i msgs \<longleftrightarrow>
     (\<exists>j < length msgs. m_ordering_key (msgs ! j) = key \<and> i + j \<notin> ss_acked sub)"
proof (induction msgs arbitrary: i)
  case Nil
  then show ?case by simp
next
  case (Cons m msgs)
  have "(\<exists>j < length (m # msgs). m_ordering_key ((m # msgs) ! j) = key \<and> i + j \<notin> ss_acked sub) \<longleftrightarrow>
     (m_ordering_key m = key \<and> i \<notin> ss_acked sub) \<or>
     (\<exists>j < length msgs. m_ordering_key (msgs ! j) = key \<and> Suc i + j \<notin> ss_acked sub)"
    by (auto simp: less_Suc_eq_0_disj)
  then show ?case using Cons.IH [of "Suc i"] by auto
qed

lemma ordering_blocked_iff:
  assumes "index < length (ts_messages topic)"
  shows "ordering_blocked sub topic index now =
    Ok (s_enable_message_ordering (ss_spec sub) \<and> earlier_unacked (ss_acked sub) (ts_messages topic) index)"
  using assms
  by (auto simp: ordering_blocked_def earlier_unacked_def Let_def blocked_scan_iff)

end
