(* ===== verification/Store_Admin.thy ===== *)
theory Store_Admin
  imports Store_State
begin

text \<open>
  The resource operations of \<open>MemoryBackend\<close>: topics, subscriptions, snapshots, schemas
  and IAM policies, with their listings. A reading operation is a function of the state;
  a writing one takes the environment and returns the outcome with the new state.
\<close>

section \<open>Topics\<close>

definition new_topic_state :: "topic_spec \<Rightarrow> topic_state" where
  "new_topic_state topic = \<lparr>ts_spec = topic, ts_messages = [], ts_seen_ids = []\<rparr>"

definition create_topic :: "env \<Rightarrow> topic_spec \<Rightarrow> state \<Rightarrow> topic_spec res \<times> state" where
  "create_topic e topic s =
     (if \<not> starts_with (t_name topic) ''projects/'' \<or> \<not> str_contains (t_name topic) ''/topics/'' then
        (Err (InvalidArgument (''invalid topic name '' @ t_name topic)), s)
      else if hm_contains (st_topics s) (t_name topic) then
        (Err (AlreadyExists (t_name topic)), s)
      else
        (let s' = s\<lparr>st_topics := hm_insert (t_name topic) (new_topic_state topic) (st_topics s)\<rparr>
         in (persist_locked e topic, s')))"

definition update_topic ::
  "env \<Rightarrow> topic_spec \<Rightarrow> string list \<Rightarrow> state \<Rightarrow> topic_spec res \<times> state" where
  "update_topic e topic update_mask s =
     (case hm_get (st_topics s) (t_name topic) of
        None \<Rightarrow> (Err (NotFound (t_name topic)), s)
      | Some entry \<Rightarrow>
          (let out = apply_topic_mask (ts_spec entry) topic update_mask;
               s' = s\<lparr>st_topics := hm_insert (t_name topic) (entry\<lparr>ts_spec := out\<rparr>) (st_topics s)\<rparr>
           in (persist_locked e out, s')))"

definition get_topic :: "state \<Rightarrow> string \<Rightarrow> topic_spec res" where
  "get_topic s name =
     (case hm_get (st_topics s) name of Some t \<Rightarrow> Ok (ts_spec t) | None \<Rightarrow> Err (NotFound name))"

definition list_topics :: "state \<Rightarrow> string \<Rightarrow> int \<Rightarrow> string \<Rightarrow> topic_spec page res" where
  "list_topics s project page_size page_token =
     Ok (paginate (listing t_name project (map ts_spec (hm_values (st_topics s)))) page_size page_token)"

definition list_topic_subscriptions :: "state \<Rightarrow> string \<Rightarrow> int \<Rightarrow> string \<Rightarrow> string page res" where
  "list_topic_subscriptions s topic page_size page_token =
     (if \<not> hm_contains (st_topics s) topic then Err (NotFound topic)
      else Ok (paginate
        (sort (map (\<lambda>x. s_name (ss_spec x))
           (filter (\<lambda>x. s_topic (ss_spec x) = topic) (hm_values (st_subscriptions s)))))
        page_size page_token))"

definition delete_topic :: "env \<Rightarrow> string \<Rightarrow> state \<Rightarrow> unit res \<times> state" where
  "delete_topic e name s =
     (case hm_get (st_topics s) name of
        None \<Rightarrow> (Err (NotFound name), s)
      | Some _ \<Rightarrow> (persist_locked e (), s\<lparr>st_topics := hm_remove name (st_topics s)\<rparr>))"

section \<open>Subscriptions\<close>

definition new_subscription_state :: "subscription_spec \<Rightarrow> nat \<Rightarrow> subscription_state" where
  "new_subscription_state spec topic_len =
     \<lparr>ss_spec = spec, ss_next_index = topic_len, ss_acked = {}, ss_inflight = [],
      ss_retry_queue = [], ss_attempts = [], ss_ordering_acked = []\<rparr>"

definition normalized :: "subscription_spec \<Rightarrow> subscription_spec" where
  "normalized spec =
     spec\<lparr>s_ack_deadline_seconds := normalize_ack_deadline (max (s_ack_deadline_seconds spec) 10)\<rparr>"

definition create_subscription ::
  "env \<Rightarrow> subscription_spec \<Rightarrow> state \<Rightarrow> subscription_spec res \<times> state" where
  "create_subscription e subscription s =
     (let name = s_name subscription in
      if \<not> starts_with name ''projects/'' \<or> \<not> str_contains name ''/subscriptions/'' then
        (Err (InvalidArgument (''invalid subscription name '' @ name)), s)
      else if hm_contains (st_subscriptions s) name then (Err (AlreadyExists name), s)
      else
        (case (if trim (s_filter subscription) \<noteq> []
               then res_bind (parse_filter (s_filter subscription)) (\<lambda>_. Ok ()) else Ok ()) of
           Err err \<Rightarrow> (Err err, s)
         | Panic \<Rightarrow> (Panic, s)
         | Ok _ \<Rightarrow>
             (case hm_get (st_topics s) (s_topic subscription) of
                None \<Rightarrow> (Err (NotFound (s_topic subscription)), s)
              | Some topic \<Rightarrow>
                  (let spec = normalized subscription;
                       sub = new_subscription_state spec (length (ts_messages topic));
                       s' = s\<lparr>st_subscriptions := hm_insert name sub (st_subscriptions s)\<rparr>
                   in (persist_locked e spec, s')))))"

definition update_subscription ::
  "env \<Rightarrow> subscription_spec \<Rightarrow> string list \<Rightarrow> state \<Rightarrow> subscription_spec res \<times> state" where
  "update_subscription e subscription update_mask s =
     (let name = s_name subscription in
      case hm_get (st_subscriptions s) name of
        None \<Rightarrow> (Err (NotFound name), s)
      | Some entry \<Rightarrow>
          if ''filter'' \<in> set update_mask \<and> s_filter subscription \<noteq> []
             \<and> s_filter subscription \<noteq> s_filter (ss_spec entry) then
            (Err (FailedPrecondition ''subscription filter is immutable after create''), s)
          else
            (let out = normalized (apply_subscription_mask (ss_spec entry) subscription update_mask);
                 s' = s\<lparr>st_subscriptions :=
                        hm_insert name (entry\<lparr>ss_spec := out\<rparr>) (st_subscriptions s)\<rparr>
             in (persist_locked e out, s')))"

definition get_subscription :: "state \<Rightarrow> string \<Rightarrow> subscription_spec res" where
  "get_subscription s name =
     (case hm_get (st_subscriptions s) name of
        Some x \<Rightarrow> Ok (ss_spec x) | None \<Rightarrow> Err (NotFound name))"

definition list_subscriptions :: "state \<Rightarrow> string \<Rightarrow> int \<Rightarrow> string \<Rightarrow> subscription_spec page res" where
  "list_subscriptions s project page_size page_token =
     Ok (paginate (listing s_name project (map ss_spec (hm_values (st_subscriptions s))))
           page_size page_token)"

definition delete_subscription :: "env \<Rightarrow> string \<Rightarrow> state \<Rightarrow> unit res \<times> state" where
  "delete_subscription e name s =
     (case hm_get (st_subscriptions s) name of
        None \<Rightarrow> (Err (NotFound name), s)
      | Some _ \<Rightarrow>
          (persist_locked e (), s\<lparr>st_subscriptions := hm_remove name (st_subscriptions s)\<rparr>))"

definition modify_push_config ::
  "env \<Rightarrow> string \<Rightarrow> string option \<Rightarrow> attrs \<Rightarrow> state \<Rightarrow> unit res \<times> state" where
  "modify_push_config e subscription push_endpoint push_attributes s =
     (case hm_get (st_subscriptions s) subscription of
        None \<Rightarrow> (Err (NotFound subscription), s)
      | Some sub \<Rightarrow>
          (let endpoint = (case push_endpoint of
                             Some x \<Rightarrow> if x = [] then None else Some x | None \<Rightarrow> None);
               spec = (ss_spec sub)\<lparr>s_push_endpoint := endpoint, s_push_attributes := push_attributes\<rparr>
           in (persist_locked e (),
               s\<lparr>st_subscriptions :=
                 hm_insert subscription (sub\<lparr>ss_spec := spec\<rparr>) (st_subscriptions s)\<rparr>)))"

definition list_push_subscriptions :: "state \<Rightarrow> subscription_spec list res" where
  "list_push_subscriptions s =
     Ok (map ss_spec (filter (\<lambda>x. s_push_endpoint (ss_spec x) \<noteq> None) (hm_values (st_subscriptions s))))"

section \<open>Snapshots\<close>

definition create_snapshot ::
  "env \<Rightarrow> string \<Rightarrow> string \<Rightarrow> attrs \<Rightarrow> state \<Rightarrow> snapshot_spec res \<times> state" where
  "create_snapshot e name subscription labels s =
     (if \<not> starts_with name ''projects/'' \<or> \<not> str_contains name ''/snapshots/'' then
        (Err (InvalidArgument (''invalid snapshot name '' @ name)), s)
      else if hm_contains (st_snapshots s) name then (Err (AlreadyExists name), s)
      else
        (case hm_get (st_subscriptions s) subscription of
           None \<Rightarrow> (Err (NotFound subscription), s)
         | Some sub \<Rightarrow>
             (let spec = \<lparr>sn_name = name, sn_topic = s_topic (ss_spec sub),
                          sn_expire_time = e_now e + seconds (7 * 24 * 60 * 60),
                          sn_labels = labels, sn_topic_index = ss_next_index sub\<rparr>
              in (persist_locked e spec,
                  s\<lparr>st_snapshots := hm_insert name spec (st_snapshots s)\<rparr>))))"

definition update_snapshot ::
  "env \<Rightarrow> snapshot_spec \<Rightarrow> string list \<Rightarrow> state \<Rightarrow> snapshot_spec res \<times> state" where
  "update_snapshot e snapshot update_mask s =
     (case hm_get (st_snapshots s) (sn_name snapshot) of
        None \<Rightarrow> (Err (NotFound (sn_name snapshot)), s)
      | Some entry \<Rightarrow>
          (let out = (if update_mask = [] \<or> ''*'' \<in> set update_mask \<or> ''labels'' \<in> set update_mask
                      then entry\<lparr>sn_labels := sn_labels snapshot\<rparr> else entry)
           in (persist_locked e out,
               s\<lparr>st_snapshots := hm_insert (sn_name snapshot) out (st_snapshots s)\<rparr>)))"

definition get_snapshot :: "state \<Rightarrow> string \<Rightarrow> snapshot_spec res" where
  "get_snapshot s name =
     (case hm_get (st_snapshots s) name of Some x \<Rightarrow> Ok x | None \<Rightarrow> Err (NotFound name))"

definition list_snapshots :: "state \<Rightarrow> string \<Rightarrow> int \<Rightarrow> string \<Rightarrow> snapshot_spec page res" where
  "list_snapshots s project page_size page_token =
     Ok (paginate (listing sn_name project (hm_values (st_snapshots s))) page_size page_token)"

definition delete_snapshot :: "env \<Rightarrow> string \<Rightarrow> state \<Rightarrow> unit res \<times> state" where
  "delete_snapshot e name s =
     (case hm_get (st_snapshots s) name of
        None \<Rightarrow> (Err (NotFound name), s)
      | Some _ \<Rightarrow> (persist_locked e (), s\<lparr>st_snapshots := hm_remove name (st_snapshots s)\<rparr>))"

section \<open>IAM policies\<close>

definition default_policy :: iam_policy where
  "default_policy = \<lparr>p_version = 1,
     p_bindings = [\<lparr>b_role = ''roles/pubsub.admin'', b_members = [''allAuthenticatedUsers'']\<rparr>],
     p_etag = ''default''\<rparr>"

definition get_iam_policy :: "state \<Rightarrow> string \<Rightarrow> iam_policy res" where
  "get_iam_policy s resource =
     Ok (case hm_get (st_iam s) resource of Some p \<Rightarrow> p | None \<Rightarrow> default_policy)"

definition set_iam_policy :: "env \<Rightarrow> string \<Rightarrow> iam_policy \<Rightarrow> state \<Rightarrow> iam_policy res \<times> state" where
  "set_iam_policy e resource policy s =
     (let p1 = (if p_etag policy = [] then policy\<lparr>p_etag := e_uuid e 0\<rparr> else policy);
          p2 = (if p_version p1 = 0 then p1\<lparr>p_version := 1\<rparr> else p1)
      in (persist_locked e p2, s\<lparr>st_iam := hm_insert resource p2 (st_iam s)\<rparr>))"

definition test_iam_permissions :: "state \<Rightarrow> string \<Rightarrow> string list \<Rightarrow> string list res" where
  "test_iam_permissions s resource permissions =
     res_bind (get_iam_policy s resource) (\<lambda>_. Ok permissions)"

section \<open>Schemas\<close>

definition create_schema :: "env \<Rightarrow> schema_spec \<Rightarrow> state \<Rightarrow> schema_spec res \<times> state" where
  "create_schema e schema s =
     (if \<not> starts_with (sc_name schema) ''projects/'' \<or> \<not> str_contains (sc_name schema) ''/schemas/'' then
        (Err (InvalidArgument (''invalid schema name '' @ sc_name schema)), s)
      else
        (case validate_definition (e_json e) schema of
           Err err \<Rightarrow> (Err err, s)
         | Panic \<Rightarrow> (Panic, s)
         | Ok _ \<Rightarrow>
             if hm_contains (st_schemas s) (sc_name schema) then (Err (AlreadyExists (sc_name schema)), s)
             else (persist_locked e schema,
                   s\<lparr>st_schemas := hm_insert (sc_name schema) schema (st_schemas s)\<rparr>)))"

definition get_schema :: "state \<Rightarrow> string \<Rightarrow> schema_spec res" where
  "get_schema s name =
     (case hm_get (st_schemas s) name of Some x \<Rightarrow> Ok x | None \<Rightarrow> Err (NotFound name))"

definition list_schemas :: "state \<Rightarrow> string \<Rightarrow> int \<Rightarrow> string \<Rightarrow> schema_spec page res" where
  "list_schemas s parent page_size page_token =
     Ok (paginate (listing sc_name parent (hm_values (st_schemas s))) page_size page_token)"

definition delete_schema :: "env \<Rightarrow> string \<Rightarrow> state \<Rightarrow> unit res \<times> state" where
  "delete_schema e name s =
     (case hm_get (st_schemas s) name of
        None \<Rightarrow> (Err (NotFound name), s)
      | Some _ \<Rightarrow> (persist_locked e (), s\<lparr>st_schemas := hm_remove name (st_schemas s)\<rparr>))"

definition validate_message ::
  "json_parser \<Rightarrow> state \<Rightarrow> string option \<Rightarrow> schema_spec option \<Rightarrow> bytes \<Rightarrow> unit res" where
  "validate_message jp s schema_name schema message =
     res_bind
       (case schema of
          Some x \<Rightarrow> Ok x
        | None \<Rightarrow>
            (case schema_name of
               Some name \<Rightarrow> get_schema s name
             | None \<Rightarrow> Err (InvalidArgument ''schema name or schema body is required'')))
       (\<lambda>resolved. validate_payload jp resolved ''JSON'' message)"

section \<open>The contract of a resource table\<close>

text \<open>
  What the four resource kinds promise their callers, the gateway's handlers: reading
  returns what the table holds or \<open>NotFound\<close>, deletion removes exactly one name, and a
  resource that can be created is found afterwards in its normal form, is refused a
  second time, and can be created again once deleted.
\<close>

locale resource_table =
  fixes look :: "state \<Rightarrow> string \<Rightarrow> 'a option"
    and get :: "state \<Rightarrow> string \<Rightarrow> 'a res"
    and del :: "env \<Rightarrow> string \<Rightarrow> state \<Rightarrow> unit res \<times> state"
  assumes get_look: "get s n = (case look s n of Some v \<Rightarrow> Ok v | None \<Rightarrow> Err (NotFound n))"
    and del_none: "look s n = None \<Longrightarrow> del e n s = (Err (NotFound n), s)"
    and del_some: "look s n = Some v \<Longrightarrow> fst (del e n s) = persist_locked e ()"
    and del_look: "look (snd (del e n s)) k = (if k = n then None else look s k)"
begin

lemma get_Ok: "get s n = Ok v \<longleftrightarrow> look s n = Some v"
  by (auto simp: get_look split: option.splits)

lemma get_after_del: "get (snd (del e n s)) n = Err (NotFound n)"
  by (simp add: get_look del_look)

lemma get_other_after_del: "k \<noteq> n \<Longrightarrow> get (snd (del e n s)) k = get s k"
  by (simp add: get_look del_look)

lemma del_twice: "del e' n (snd (del e n s)) = (Err (NotFound n), snd (del e n s))"
  by (rule del_none) (simp add: del_look)

lemma del_outcome:
  "fst (del e n s) = (case look s n of None \<Rightarrow> Err (NotFound n) | Some _ \<Rightarrow> persist_locked e ())"
  by (auto simp: del_none del_some split: option.splits)

end

locale creatable_table = resource_table look get del
  for look :: "state \<Rightarrow> string \<Rightarrow> 'a option" and get del +
  fixes create :: "env \<Rightarrow> 'a \<Rightarrow> state \<Rightarrow> 'a res \<times> state"
    and name_of :: "'a \<Rightarrow> string"
    and norm :: "'a \<Rightarrow> 'a"
  assumes create_exists:
      "look s (name_of x) \<noteq> None \<Longrightarrow> \<not> is_ok (fst (create e x s)) \<and> snd (create e x s) = s"
    and create_Ok: "fst (create e x s) = Ok y \<Longrightarrow>
      y = norm x \<and> e_persist e = None \<and>
      look (snd (create e x s)) = (look s)(name_of x \<mapsto> norm x)"
    and create_failed:
      "\<not> is_ok (fst (create e x s)) \<Longrightarrow> e_persist e = None \<Longrightarrow> snd (create e x s) = s"
    and norm_name: "name_of (norm x) = name_of x"
begin

lemma get_after_create: "fst (create e x s) = Ok y \<Longrightarrow> get (snd (create e x s)) (name_of x) = Ok (norm x)"
  by (simp add: get_Ok create_Ok)

lemma get_other_after_create:
  "fst (create e x s) = Ok y \<Longrightarrow> k \<noteq> name_of x \<Longrightarrow> get (snd (create e x s)) k = get s k"
  by (simp add: get_look create_Ok)

lemma create_twice:
  assumes "fst (create e x s) = Ok y" and "name_of z = name_of x"
  shows "\<not> is_ok (fst (create e' z (snd (create e x s))))"
    and "snd (create e' z (snd (create e x s))) = snd (create e x s)"
  using create_exists [of "snd (create e x s)" z e'] create_Ok [OF assms(1)] assms(2) by auto

lemma create_was_fresh: "fst (create e x s) = Ok y \<Longrightarrow> look s (name_of x) = None"
  using create_exists [of s x e] by fastforce

lemma create_then_del:
  assumes "fst (create e x s) = Ok y"
  shows "look (snd (del e' (name_of x) (snd (create e x s)))) = look s"
  using create_Ok [OF assms] create_was_fresh [OF assms] by (auto simp: del_look)

end

definition look_topic :: "state \<Rightarrow> string \<Rightarrow> topic_spec option" where
  "look_topic s n = map_option ts_spec (hm_get (st_topics s) n)"

definition look_subscription :: "state \<Rightarrow> string \<Rightarrow> subscription_spec option" where
  "look_subscription s n = map_option ss_spec (hm_get (st_subscriptions s) n)"

definition look_snapshot :: "state \<Rightarrow> string \<Rightarrow> snapshot_spec option" where
  "look_snapshot s n = hm_get (st_snapshots s) n"

definition look_schema :: "state \<Rightarrow> string \<Rightarrow> schema_spec option" where
  "look_schema s n = hm_get (st_schemas s) n"

lemma normalized_frame [simp]:
  "s_name (normalized x) = s_name x" "s_topic (normalized x) = s_topic x"
  "s_filter (normalized x) = s_filter x"
  "s_enable_message_ordering (normalized x) = s_enable_message_ordering x"
  by (simp_all add: normalized_def)

lemma persist_not_ok: "\<not> is_ok (persist_locked e x) \<Longrightarrow> e_persist e \<noteq> None"
  by (auto simp: persist_locked_def split: option.splits)

interpretation topic_table: creatable_table look_topic get_topic delete_topic create_topic t_name "\<lambda>x. x"
proof unfold_locales
  fix s n
  show "get_topic s n = (case look_topic s n of None \<Rightarrow> Err (NotFound n) | Some v \<Rightarrow> Ok v)"
    by (simp add: get_topic_def look_topic_def split: option.splits)
qed (auto simp: look_topic_def delete_topic_def create_topic_def hm_contains_def new_topic_state_def
      fun_eq_iff Let_def dest: persist_not_ok split: option.splits if_splits)

interpretation subscription_table:
  creatable_table look_subscription get_subscription delete_subscription create_subscription s_name normalized
proof unfold_locales
  fix s n
  show "get_subscription s n =
      (case look_subscription s n of None \<Rightarrow> Err (NotFound n) | Some v \<Rightarrow> Ok v)"
    by (simp add: get_subscription_def look_subscription_def split: option.splits)
qed (auto simp: look_subscription_def delete_subscription_def create_subscription_def hm_contains_def
      new_subscription_state_def fun_eq_iff Let_def dest: persist_not_ok
      split: option.splits if_splits res.splits)

interpretation schema_table: creatable_table look_schema get_schema delete_schema create_schema sc_name "\<lambda>x. x"
proof unfold_locales
  fix s n
  show "get_schema s n = (case look_schema s n of None \<Rightarrow> Err (NotFound n) | Some v \<Rightarrow> Ok v)"
    by (simp add: get_schema_def look_schema_def split: option.splits)
qed (auto simp: look_schema_def delete_schema_def create_schema_def hm_contains_def
      fun_eq_iff dest: persist_not_ok split: option.splits if_splits res.splits)

interpretation snapshot_table: resource_table look_snapshot get_snapshot delete_snapshot
  by unfold_locales (auto simp: look_snapshot_def get_snapshot_def delete_snapshot_def split: option.splits)

end
