(* ===== verification/Store_Messages.thy ===== *)
theory Store_Messages
  imports Store_Admin
begin

text \<open>
  The data plane of \<open>MemoryBackend\<close>: publish, pull, acknowledge, modify-ack-deadline and
  the two seeks, each the whole body of the source.
\<close>

section \<open>Publish\<close>

fun validate_all :: "json_parser \<Rightarrow> schema_spec \<Rightarrow> string \<Rightarrow> new_message list \<Rightarrow> unit res" where
  "validate_all jp spec encoding [] = Ok ()"
| "validate_all jp spec encoding (m # ms) =
     res_bind (validate_payload jp spec encoding (n_data m)) (\<lambda>_. validate_all jp spec encoding ms)"

definition client_id_of :: "new_message \<Rightarrow> string" where
  "client_id_of m =
     (if n_message_id m \<noteq> [] then n_message_id m
      else (case hm_get (n_attributes m) ''idempotency_key'' of Some k \<Rightarrow> k | None \<Rightarrow> []))"

definition stored_message :: "env \<Rightarrow> string \<Rightarrow> new_message \<Rightarrow> relay_message" where
  "stored_message e mid m =
     \<lparr>m_id = mid, m_data = n_data m, m_attributes = n_attributes m,
      m_ordering_key = n_ordering_key m, m_published_at = e_now e\<rparr>"

definition append_message :: "env \<Rightarrow> string \<Rightarrow> new_message \<Rightarrow> topic_state \<Rightarrow> topic_state" where
  "append_message e mid m t =
     t\<lparr>ts_seen_ids := (if client_id_of m \<noteq> [] then hm_insert (client_id_of m) mid (ts_seen_ids t)
                       else ts_seen_ids t),
       ts_messages := ts_messages t @ [stored_message e mid m]\<rparr>"

text \<open>The loop over the batch; \<open>k\<close> counts the identifiers drawn so far.\<close>

fun publish_loop ::
  "env \<Rightarrow> string \<Rightarrow> nat \<Rightarrow> new_message list \<Rightarrow> topic_state \<Rightarrow> string list \<times> topic_state" where
  "publish_loop e topic k [] t = ([], t)"
| "publish_loop e topic k (message # messages) t =
     (let m = enrich_message (e_json e) topic message;
          client_id = client_id_of m
      in
      case (if client_id \<noteq> [] then hm_get (ts_seen_ids t) client_id else None) of
        Some existing \<Rightarrow>
          (let (ids, t') = publish_loop e topic k messages t in (existing # ids, t'))
      | None \<Rightarrow>
          (let mid = (if client_id = [] then e_uuid e k else client_id);
               k' = (if client_id = [] then Suc k else k);
               (ids, t') = publish_loop e topic k' messages (append_message e mid m t)
           in (mid # ids, t')))"

definition bound_schema :: "state \<Rightarrow> topic_state \<Rightarrow> (string \<times> schema_spec) option res" where
  "bound_schema s t =
     (if t_schema_name (ts_spec t) = [] then Ok None
      else (case hm_get (st_schemas s) (t_schema_name (ts_spec t)) of
              Some spec \<Rightarrow> Ok (Some (t_schema_encoding (ts_spec t), spec))
            | None \<Rightarrow> Err (FailedPrecondition
                (''bound schema '' @ t_schema_name (ts_spec t) @ '' not found''))))"

definition publish :: "env \<Rightarrow> string \<Rightarrow> new_message list \<Rightarrow> state \<Rightarrow> string list res \<times> state" where
  "publish e topic messages s =
     (case hm_get (st_topics s) topic of
        None \<Rightarrow> (Err (NotFound topic), s)
      | Some t \<Rightarrow>
          (case res_bind (bound_schema s t) (\<lambda>schema.
                  case schema of
                    None \<Rightarrow> Ok ()
                  | Some (encoding, spec) \<Rightarrow> validate_all (e_json e) spec encoding messages) of
             Err err \<Rightarrow> (Err err, s)
           | Panic \<Rightarrow> (Panic, s)
           | Ok _ \<Rightarrow>
               (let (ids, t') = publish_loop e topic 0 messages t
                in (persist_locked e ids, s\<lparr>st_topics := hm_insert topic t' (st_topics s)\<rparr>))))"

section \<open>Pull\<close>

subsection \<open>Expired leases\<close>

definition attempt_of :: "subscription_state \<Rightarrow> nat \<Rightarrow> u32 \<Rightarrow> u32" where
  "attempt_of sub index dflt =
     (case hm_get (ss_attempts sub) index of Some a \<Rightarrow> a | None \<Rightarrow> dflt)"

definition retry_at :: "subscription_state \<Rightarrow> nat \<Rightarrow> time \<Rightarrow> retry_entry" where
  "retry_at sub index now =
     \<lparr>re_topic_index = index,
      re_available_at = now + seconds (unat (backoff_seconds (ss_spec sub) (attempt_of sub index 1)))\<rparr>"

definition expire_one :: "time \<Rightarrow> string \<times> nat \<Rightarrow> subscription_state \<Rightarrow> subscription_state" where
  "expire_one now x sub =
     (let sub' = sub\<lparr>ss_inflight := hm_remove (fst x) (ss_inflight sub)\<rparr> in
      if snd x \<in> ss_acked sub' then sub'
      else sub'\<lparr>ss_retry_queue := ss_retry_queue sub' @ [retry_at sub' (snd x) now]\<rparr>)"

definition expired_leases :: "env \<Rightarrow> subscription_state \<Rightarrow> (string \<times> nat) list" where
  "expired_leases e sub =
     map (\<lambda>(ack_id, v). (ack_id, if_topic_index v))
       (filter (\<lambda>(ack_id, v). if_deadline v \<le> e_now e) (e_order e (ss_inflight sub)))"

definition expire_leases :: "env \<Rightarrow> subscription_state \<Rightarrow> subscription_state" where
  "expire_leases e sub = fold (expire_one (e_now e)) (expired_leases e sub) sub"

subsection \<open>One round of the delivery loop\<close>

record pull_state =
  pl_sub :: subscription_state
  pl_topics :: "(string, topic_state) hmap"
  pl_deliveries :: "delivery list"
  pl_skipped :: "nat set"
  pl_draws :: nat
  pl_reads :: nat

datatype loop_step = Continue pull_state | Break | Crash

primrec position :: "('a \<Rightarrow> bool) \<Rightarrow> 'a list \<Rightarrow> nat option" where
  "position p [] = None"
| "position p (x # xs) = (if p x then Some 0 else map_option Suc (position p xs))"

definition entry_ready :: "time \<Rightarrow> nat set \<Rightarrow> retry_entry \<Rightarrow> bool" where
  "entry_ready now skipped x = (re_available_at x \<le> now \<and> re_topic_index x \<notin> skipped)"

definition pick_index ::
  "time \<Rightarrow> nat \<Rightarrow> nat set \<Rightarrow> subscription_state \<Rightarrow> (nat \<times> subscription_state) option" where
  "pick_index now topic_len skipped sub =
     (case position (entry_ready now skipped) (ss_retry_queue sub) of
        Some pos \<Rightarrow>
          Some (re_topic_index (ss_retry_queue sub ! pos),
                sub\<lparr>ss_retry_queue := take pos (ss_retry_queue sub) @ drop (Suc pos) (ss_retry_queue sub)\<rparr>)
      | None \<Rightarrow>
          if ss_next_index sub < topic_len
          then Some (ss_next_index sub, sub\<lparr>ss_next_index := Suc (ss_next_index sub)\<rparr>)
          else None)"

definition leased :: "subscription_state \<Rightarrow> nat \<Rightarrow> bool" where
  "leased sub index = list_ex (\<lambda>v. if_topic_index v = index) (hm_values (ss_inflight sub))"

definition dead_message :: "env \<Rightarrow> string \<Rightarrow> pull_state \<Rightarrow> relay_message \<Rightarrow> relay_message" where
  "dead_message e subscription st original =
     \<lparr>m_id = e_uuid e (pl_draws st), m_data = m_data original,
      m_attributes =
        hm_insert ''x-zyvor-original-message-id'' (m_id original)
          (hm_insert ''x-zyvor-dead-letter-source'' subscription (m_attributes original)),
      m_ordering_key = m_ordering_key original, m_published_at = e_clock e (pl_reads st)\<rparr>"

definition filter_rejects :: "subscription_spec \<Rightarrow> attrs \<Rightarrow> bool" where
  "filter_rejects spec attributes =
     (s_filter spec \<noteq> [] \<and>
      (case parse_filter (s_filter spec) of
         Ok flt \<Rightarrow> \<not> filter_matches flt attributes
       | _ \<Rightarrow> True))"

definition lease_of :: "env \<Rightarrow> subscription_state \<Rightarrow> nat \<Rightarrow> inflight" where
  "lease_of e sub index =
     \<lparr>if_topic_index = index,
      if_deadline = e_now e
        + seconds (unat (normalize_ack_deadline (s_ack_deadline_seconds (ss_spec sub))))\<rparr>"

text \<open>The end of the loop body: filter, acknowledgement id, lease, delivery.\<close>

definition deliver_step ::
  "env \<Rightarrow> string \<Rightarrow> nat \<Rightarrow> u32 \<Rightarrow> topic_state \<Rightarrow> subscription_state \<Rightarrow> pull_state \<Rightarrow> loop_step" where
  "deliver_step e subscription index current_attempt topic sub st =
     (if length (ts_messages topic) \<le> index then Crash
      else
        let message = ts_messages topic ! index in
        if filter_rejects (ss_spec sub) (m_attributes message)
        then Continue (st\<lparr>pl_sub := sub\<lparr>ss_acked := insert index (ss_acked sub)\<rparr>\<rparr>)
        else
          let exactly_once = s_enable_exactly_once_delivery (ss_spec sub);
              ack_id = (if exactly_once
                        then subscription @ '':'' @ show_nat index @ '':'' @ show_nat (unat current_attempt)
                        else e_uuid e (pl_draws st));
              draws = (if exactly_once then pl_draws st else Suc (pl_draws st));
              sub' = sub\<lparr>ss_inflight := hm_insert ack_id (lease_of e sub index) (ss_inflight sub)\<rparr>;
              d = \<lparr>dv_ack_id = ack_id, dv_message = message, dv_delivery_attempt = current_attempt\<rparr>
          in Continue (st\<lparr>pl_sub := sub', pl_draws := draws, pl_deliveries := pl_deliveries st @ [d]\<rparr>))"

text \<open>The dead-letter test before it.\<close>

definition attempt_step ::
  "env \<Rightarrow> string \<Rightarrow> nat \<Rightarrow> topic_state \<Rightarrow> subscription_state \<Rightarrow> pull_state \<Rightarrow> loop_step" where
  "attempt_step e subscription index topic sub0 st =
     (let current_attempt = attempt_of sub0 index 0 + 1;
          sub = sub0\<lparr>ss_attempts := hm_insert index current_attempt (ss_attempts sub0)\<rparr>
      in
      case s_dead_letter (ss_spec sub) of
        None \<Rightarrow> deliver_step e subscription index current_attempt topic sub st
      | Some dlq \<Rightarrow>
          if clamp (d_max_delivery_attempts dlq) 5 100 < current_attempt then
            if length (ts_messages topic) \<le> index then Crash
            else
              (case hm_get (pl_topics st) (d_topic dlq) of
                 None \<Rightarrow> deliver_step e subscription index current_attempt topic sub st
               | Some dead_topic \<Rightarrow>
                   (let msg = dead_message e subscription st (ts_messages topic ! index);
                        dead' = dead_topic\<lparr>ts_messages := ts_messages dead_topic @ [msg]\<rparr>
                    in Continue (st\<lparr>pl_sub := sub\<lparr>ss_acked := insert index (ss_acked sub)\<rparr>,
                                    pl_topics := hm_insert (d_topic dlq) dead' (pl_topics st),
                                    pl_draws := Suc (pl_draws st), pl_reads := Suc (pl_reads st)\<rparr>)))
          else deliver_step e subscription index current_attempt topic sub st)"

definition pull_step :: "env \<Rightarrow> string \<Rightarrow> string \<Rightarrow> nat \<Rightarrow> pull_state \<Rightarrow> loop_step" where
  "pull_step e subscription topic_name topic_len st =
     (case pick_index (e_now e) topic_len (pl_skipped st) (pl_sub st) of
        None \<Rightarrow> Break
      | Some (index, sub) \<Rightarrow>
          if index \<in> ss_acked sub \<or> leased sub index then Continue (st\<lparr>pl_sub := sub\<rparr>)
          else
            (case hm_get (pl_topics st) topic_name of
               None \<Rightarrow> Crash
             | Some topic \<Rightarrow>
                 (case ordering_blocked sub topic index (e_now e) of
                    Ok True \<Rightarrow>
                      Continue (st\<lparr>pl_skipped := insert index (pl_skipped st),
                                   pl_sub := sub\<lparr>ss_retry_queue := ss_retry_queue sub
                                     @ [\<lparr>re_topic_index = index, re_available_at = e_now e\<rparr>]\<rparr>\<rparr>)
                  | Ok False \<Rightarrow> attempt_step e subscription index topic sub st
                  | _ \<Rightarrow> Crash)))"

subsection \<open>The loop terminates\<close>

text \<open>
  Each round takes a message that was not yet read, or removes a retry entry that was
  ready; a blocked index is put back, but as one to be skipped.
\<close>

definition pull_measure :: "time \<Rightarrow> nat \<Rightarrow> pull_state \<Rightarrow> nat" where
  "pull_measure now topic_len st =
     (topic_len - ss_next_index (pl_sub st))
       + length (filter (entry_ready now (pl_skipped st)) (ss_retry_queue (pl_sub st)))"

lemma position_Some:
  "position p xs = Some i \<longleftrightarrow> i < length xs \<and> p (xs ! i) \<and> (\<forall>j < i. \<not> p (xs ! j))"
proof (induction xs arbitrary: i)
  case Nil
  then show ?case by simp
next
  case (Cons x xs)
  show ?case
  proof (cases i)
    case 0
    then show ?thesis by auto
  next
    case (Suc k)
    have "(\<forall>j < Suc k. \<not> p ((x # xs) ! j)) \<longleftrightarrow> \<not> p x \<and> (\<forall>j < k. \<not> p (xs ! j))"
      by (auto simp: less_Suc_eq_0_disj)
    then show ?thesis using Suc Cons.IH [of k] by auto
  qed
qed

lemma position_None: "position p xs = None \<longleftrightarrow> (\<forall>x \<in> set xs. \<not> p x)"
  by (induction xs) auto

lemma split_at: "i < length xs \<Longrightarrow> xs = take i xs @ xs ! i # drop (Suc i) xs"
  by (rule id_take_nth_drop)

lemma filter_remove_at:
  "i < length xs \<Longrightarrow> p (xs ! i) \<Longrightarrow>
     Suc (length (filter p (take i xs @ drop (Suc i) xs))) = length (filter p xs)"
  by (subst (5) split_at) auto

lemma pick_index_cases:
  assumes "pick_index now topic_len skipped sub = Some (index, sub')"
  obtains (retry) pos where
      "pos < length (ss_retry_queue sub)"
      "entry_ready now skipped (ss_retry_queue sub ! pos)"
      "index = re_topic_index (ss_retry_queue sub ! pos)"
      "sub' = sub\<lparr>ss_retry_queue := take pos (ss_retry_queue sub) @ drop (Suc pos) (ss_retry_queue sub)\<rparr>"
    | (fresh) "ss_next_index sub < topic_len" "index = ss_next_index sub"
      "sub' = sub\<lparr>ss_next_index := Suc (ss_next_index sub)\<rparr>"
      "\<forall>x \<in> set (ss_retry_queue sub). \<not> entry_ready now skipped x"
  using assms by (auto simp: pick_index_def position_Some position_None split: option.splits if_splits)

lemma pick_index_measure:
  assumes "pick_index now topic_len (pl_skipped st) (pl_sub st) = Some (index, sub')"
  shows "pull_measure now topic_len (st\<lparr>pl_sub := sub'\<rparr>) < pull_measure now topic_len st"
  using assms
proof (cases rule: pick_index_cases)
  case (retry pos)
  then show ?thesis
    using filter_remove_at [of pos "ss_retry_queue (pl_sub st)" "entry_ready now (pl_skipped st)"]
    by (simp add: pull_measure_def)
next
  case fresh
  then show ?thesis by (simp add: pull_measure_def)
qed

lemma deliver_step_frame:
  assumes "deliver_step e subscription index n topic sub st = Continue st'"
  shows "ss_next_index (pl_sub st') = ss_next_index sub \<and> ss_retry_queue (pl_sub st') = ss_retry_queue sub
    \<and> pl_skipped st' = pl_skipped st"
  using assms by (auto simp: deliver_step_def Let_def split: if_splits)

lemma attempt_step_frame:
  assumes "attempt_step e subscription index topic sub st = Continue st'"
  shows "ss_next_index (pl_sub st') = ss_next_index sub \<and> ss_retry_queue (pl_sub st') = ss_retry_queue sub
    \<and> pl_skipped st' = pl_skipped st"
  using assms
  by (auto simp: attempt_step_def Let_def dest: deliver_step_frame split: option.splits if_splits)

lemma entry_ready_skip: "entry_ready now (insert i sk) x \<Longrightarrow> entry_ready now sk x"
  by (simp add: entry_ready_def)

lemma length_filter_mono: "(\<And>x. p x \<Longrightarrow> q x) \<Longrightarrow> length (filter p xs) \<le> length (filter q xs)"
  by (induction xs) (auto intro: le_SucI)

lemma pull_step_measure:
  assumes "pull_step e subscription topic_name topic_len st = Continue st'"
  shows "pull_measure (e_now e) topic_len st' < pull_measure (e_now e) topic_len st"
proof -
  from assms obtain index sub where
    p: "pick_index (e_now e) topic_len (pl_skipped st) (pl_sub st) = Some (index, sub)"
    by (auto simp: pull_step_def split: option.splits)
  let ?mid = "st\<lparr>pl_sub := sub\<rparr>"
  have lt: "pull_measure (e_now e) topic_len ?mid < pull_measure (e_now e) topic_len st"
    by (rule pick_index_measure [OF p])
  have "pull_measure (e_now e) topic_len st' \<le> pull_measure (e_now e) topic_len ?mid"
  proof (cases "index \<in> ss_acked sub \<or> leased sub index")
    case True
    with assms p show ?thesis by (simp add: pull_step_def)
  next
    case False
    with assms p obtain topic b where
      t: "hm_get (pl_topics st) topic_name = Some topic"
      and b: "ordering_blocked sub topic index (e_now e) = Ok b"
      by (auto simp: pull_step_def split: option.splits res.splits)
    show ?thesis
    proof (cases b)
      case True
      have "length (filter (entry_ready (e_now e) (insert index (pl_skipped st))) (ss_retry_queue sub))
          \<le> length (filter (entry_ready (e_now e) (pl_skipped st)) (ss_retry_queue sub))"
        by (rule length_filter_mono) (rule entry_ready_skip)
      moreover have "\<not> entry_ready (e_now e) (insert index (pl_skipped st))
          \<lparr>re_topic_index = index, re_available_at = e_now e\<rparr>"
        by (simp add: entry_ready_def)
      ultimately show ?thesis
        using assms p t b True False by (auto simp: pull_step_def pull_measure_def)
    next
      case blocked: False
      with assms p t b False have "attempt_step e subscription index topic sub st = Continue st'"
        by (simp add: pull_step_def)
      then show ?thesis by (auto simp: pull_measure_def dest: attempt_step_frame)
    qed
  qed
  with lt show ?thesis by simp
qed

text \<open>\<open>None\<close> is the panic.\<close>

function pull_loop ::
  "env \<Rightarrow> string \<Rightarrow> string \<Rightarrow> nat \<Rightarrow> nat \<Rightarrow> pull_state \<Rightarrow> pull_state option" where
  "pull_loop e subscription topic_name topic_len limit st =
     (if length (pl_deliveries st) < limit then
        (case pull_step e subscription topic_name topic_len st of
           Continue st' \<Rightarrow> pull_loop e subscription topic_name topic_len limit st'
         | Break \<Rightarrow> Some st
         | Crash \<Rightarrow> None)
      else Some st)"
  by pat_completeness auto
termination
  by (relation "measure (\<lambda>(e, subscription, topic_name, topic_len, limit, st).
        pull_measure (e_now e) topic_len st)")
    (auto dest: pull_step_measure)

declare pull_loop.simps [simp del]

subsection \<open>The operation\<close>

text \<open>
  The subscription is removed from the map first and inserted again after the closure has
  run; a panic inside the closure leaves it removed.
\<close>

definition pull_start :: "env \<Rightarrow> subscription_state \<Rightarrow> state \<Rightarrow> pull_state" where
  "pull_start e sub s =
     \<lparr>pl_sub = expire_leases e sub, pl_topics = st_topics s, pl_deliveries = [],
      pl_skipped = {}, pl_draws = 0, pl_reads = 0\<rparr>"

definition pull :: "env \<Rightarrow> string \<Rightarrow> u32 \<Rightarrow> state \<Rightarrow> delivery list res \<times> state" where
  "pull e subscription max_messages s =
     (case hm_get (st_subscriptions s) subscription of
        None \<Rightarrow> (Err (NotFound subscription), s)
      | Some sub \<Rightarrow>
          (let topic_name = s_topic (ss_spec sub);
               removed = hm_remove subscription (st_subscriptions s) in
           case hm_get (st_topics s) topic_name of
             None \<Rightarrow>
               (Err (FailedPrecondition (''topic '' @ topic_name @ '' no longer exists'')),
                s\<lparr>st_subscriptions := hm_insert subscription sub removed\<rparr>)
           | Some topic \<Rightarrow>
               (case pull_loop e subscription topic_name (length (ts_messages topic))
                       (unat (clamp max_messages 1 1000)) (pull_start e sub s) of
                  None \<Rightarrow> (Panic, s\<lparr>st_subscriptions := removed\<rparr>)
                | Some st \<Rightarrow>
                    (persist_locked e (pl_deliveries st),
                     s\<lparr>st_topics := pl_topics st,
                       st_subscriptions := hm_insert subscription (pl_sub st) removed\<rparr>))))"

section \<open>Acknowledge\<close>

definition ordering_key_at :: "topic_state option \<Rightarrow> nat \<Rightarrow> string" where
  "ordering_key_at t index =
     (case t of
        None \<Rightarrow> []
      | Some t \<Rightarrow> if index < length (ts_messages t) then m_ordering_key (ts_messages t ! index) else [])"

definition mark_acked :: "topic_state option \<Rightarrow> nat \<Rightarrow> subscription_state \<Rightarrow> subscription_state" where
  "mark_acked t index sub =
     (let key = ordering_key_at t index in
      sub\<lparr>ss_ordering_acked := (if key \<noteq> [] then hm_insert key index (ss_ordering_acked sub)
                               else ss_ordering_acked sub),
          ss_acked := insert index (ss_acked sub)\<rparr>)"

fun ack_loop ::
  "env \<Rightarrow> topic_state option \<Rightarrow> string list \<Rightarrow> subscription_state \<Rightarrow> unit res \<times> subscription_state" where
  "ack_loop e t [] sub = (Ok (), sub)"
| "ack_loop e t (ack_id # ack_ids) sub =
     (case hm_get (ss_inflight sub) ack_id of
        None \<Rightarrow> ack_loop e t ack_ids sub
      | Some entry \<Rightarrow>
          (let sub' = sub\<lparr>ss_inflight := hm_remove ack_id (ss_inflight sub)\<rparr> in
           if s_enable_exactly_once_delivery (ss_spec sub) \<and> if_deadline entry < e_now e
           then (Err (FailedPrecondition (''ack deadline expired for '' @ ack_id)), sub')
           else ack_loop e t ack_ids (mark_acked t (if_topic_index entry) sub')))"

definition acknowledge :: "env \<Rightarrow> string \<Rightarrow> string list \<Rightarrow> state \<Rightarrow> unit res \<times> state" where
  "acknowledge e subscription ack_ids s =
     (case hm_get (st_subscriptions s) subscription of
        None \<Rightarrow> (Err (NotFound subscription), s)
      | Some sub \<Rightarrow>
          (let (r, sub') = ack_loop e (hm_get (st_topics s) (s_topic (ss_spec sub))) ack_ids sub;
               s' = s\<lparr>st_subscriptions := hm_insert subscription sub' (st_subscriptions s)\<rparr>
           in (case r of Ok _ \<Rightarrow> persist_locked e () | x \<Rightarrow> x, s')))"

section \<open>Modify ack deadline\<close>

definition modify_deadline_one ::
  "env \<Rightarrow> u32 \<Rightarrow> string \<Rightarrow> subscription_state \<Rightarrow> subscription_state" where
  "modify_deadline_one e secs ack_id sub =
     (case hm_get (ss_inflight sub) ack_id of
        None \<Rightarrow> sub
      | Some entry \<Rightarrow>
          if secs = 0 then
            (let sub' = sub\<lparr>ss_inflight := hm_remove ack_id (ss_inflight sub)\<rparr>
             in sub'\<lparr>ss_retry_queue := retry_at sub' (if_topic_index entry) (e_now e) # ss_retry_queue sub'\<rparr>)
          else
            sub\<lparr>ss_inflight := hm_insert ack_id (entry\<lparr>if_deadline := e_now e + seconds (unat secs)\<rparr>)
                                (ss_inflight sub)\<rparr>)"

definition modify_ack_deadline ::
  "env \<Rightarrow> string \<Rightarrow> string list \<Rightarrow> u32 \<Rightarrow> state \<Rightarrow> unit res \<times> state" where
  "modify_ack_deadline e subscription ack_ids secs s =
     (if 600 < secs then (Err (InvalidArgument ''ack_deadline_seconds must be <= 600''), s)
      else
        (case hm_get (st_subscriptions s) subscription of
           None \<Rightarrow> (Err (NotFound subscription), s)
         | Some sub \<Rightarrow>
             (persist_locked e (),
              s\<lparr>st_subscriptions :=
                hm_insert subscription (fold (modify_deadline_one e secs) ack_ids sub)
                  (st_subscriptions s)\<rparr>)))"

section \<open>Seek\<close>

definition reset_cursor :: "nat \<Rightarrow> subscription_state \<Rightarrow> subscription_state" where
  "reset_cursor index sub =
     sub\<lparr>ss_next_index := index, ss_acked := {}, ss_inflight := [], ss_retry_queue := [],
         ss_attempts := [], ss_ordering_acked := []\<rparr>"

definition seek_index :: "relay_message list \<Rightarrow> time \<Rightarrow> nat" where
  "seek_index messages t =
     (case position (\<lambda>m. t \<le> m_published_at m) messages of Some i \<Rightarrow> i | None \<Rightarrow> length messages)"

definition seek_to_time :: "env \<Rightarrow> string \<Rightarrow> time \<Rightarrow> state \<Rightarrow> unit res \<times> state" where
  "seek_to_time e subscription t s =
     (case hm_get (st_subscriptions s) subscription of
        None \<Rightarrow> (Err (NotFound subscription), s)
      | Some sub \<Rightarrow>
          (case hm_get (st_topics s) (s_topic (ss_spec sub)) of
             None \<Rightarrow> (Err (NotFound (s_topic (ss_spec sub))), s)
           | Some topic \<Rightarrow>
               (persist_locked e (),
                s\<lparr>st_subscriptions :=
                  hm_insert subscription (reset_cursor (seek_index (ts_messages topic) t) sub)
                    (st_subscriptions s)\<rparr>)))"

definition seek_to_snapshot :: "env \<Rightarrow> string \<Rightarrow> string \<Rightarrow> state \<Rightarrow> unit res \<times> state" where
  "seek_to_snapshot e subscription snapshot s =
     (case hm_get (st_snapshots s) snapshot of
        None \<Rightarrow> (Err (NotFound snapshot), s)
      | Some snap \<Rightarrow>
          (case hm_get (st_subscriptions s) subscription of
             None \<Rightarrow> (Err (NotFound subscription), s)
           | Some sub \<Rightarrow>
               if s_topic (ss_spec sub) \<noteq> sn_topic snap then
                 (Err (FailedPrecondition ''snapshot topic does not match subscription topic''), s)
               else
                 (persist_locked e (),
                  s\<lparr>st_subscriptions :=
                    hm_insert subscription (reset_cursor (sn_topic_index snap) sub)
                      (st_subscriptions s)\<rparr>)))"

end
