(* ===== verification/Store_Invariant.thy ===== *)
theory Store_Invariant
  imports Store_Messages
begin

text \<open>
  The well-formedness of one subscription's delivery state, and how the operations on it
  move message indices between its four places: not yet read, queued for retry, leased and
  acknowledged.
\<close>

section \<open>Where a message index is\<close>

definition leased_at :: "subscription_state \<Rightarrow> nat list" where
  "leased_at sub = map if_topic_index (hm_values (ss_inflight sub))"

definition queued :: "subscription_state \<Rightarrow> nat list" where
  "queued sub = map re_topic_index (ss_retry_queue sub)"

definition live :: "subscription_state \<Rightarrow> nat list" where
  "live sub = leased_at sub @ queued sub"

definition tracked :: "subscription_state \<Rightarrow> nat set" where
  "tracked sub = ss_acked sub \<union> set (live sub)"

lemma leased_iff: "leased sub i \<longleftrightarrow> i \<in> set (leased_at sub)"
  by (auto simp: leased_def leased_at_def list_ex_iff)

lemma hm_insert_fresh: "hm_get m k = None \<Longrightarrow> hm_insert k v m = m @ [(k, v)]"
  by (induction m) (auto split: if_splits)

lemma hm_remove_mset:
  "hm_ok m \<Longrightarrow> hm_get m k = Some v \<Longrightarrow> mset m = add_mset (k, v) (mset (hm_remove k m))"
proof (induction m)
  case Nil
  then show ?case by simp
next
  case (Cons p m)
  obtain k' v' where p: "p = (k', v')" by (cases p)
  from Cons.prems(1) p have ok: "hm_ok m" "k' \<notin> fst ` set m" by (auto simp: hm_ok_def)
  show ?case
  proof (cases "k = k'")
    case True
    have "hm_get m k' = None" using ok(2) by (simp add: hm_get_None_iff)
    then show ?thesis using Cons.prems(2) True p by (simp add: hm_remove_absent)
  next
    case False
    then show ?thesis using Cons.IH [OF ok(1)] Cons.prems(2) p by simp
  qed
qed

lemma hm_values_remove:
  "hm_ok m \<Longrightarrow> hm_get m k = Some v \<Longrightarrow> mset (hm_values m) = add_mset v (mset (hm_values (hm_remove k m)))"
  by (drule (1) hm_remove_mset) (simp add: hm_values_def)

lemma hm_values_update:
  assumes "hm_ok m" "hm_get m k = Some v"
  shows "mset (hm_values (hm_insert k w m)) = add_mset w (mset (hm_values (hm_remove k m)))"
proof -
  have eq: "hm_remove k (hm_insert k w m) = hm_remove k m"
    using assms by (induction m) (auto simp: hm_ok_def split: if_splits)
  show ?thesis
    using hm_values_remove [of "hm_insert k w m" k w] assms(1) by (simp add: eq)
qed

section \<open>Well-formedness\<close>

text \<open>
  An acknowledgement identifier is a fresh one, without a colon, or the one built for
  exactly-once delivery, which names the index.
\<close>

definition lease_key_ok :: "string \<Rightarrow> string \<Rightarrow> nat \<Rightarrow> bool" where
  "lease_key_ok name k i =
     (CHR '':'' \<notin> set k \<or> (\<exists>a. k = name @ '':'' @ show_nat i @ '':'' @ show_nat a))"

definition sub_ok :: "string \<Rightarrow> nat \<Rightarrow> subscription_state \<Rightarrow> bool" where
  "sub_ok name len sub =
     (hm_ok (ss_inflight sub) \<and> hm_ok (ss_attempts sub) \<and> hm_ok (ss_ordering_acked sub) \<and>
      ss_next_index sub \<le> len \<and> distinct (live sub) \<and> set (live sub) \<inter> ss_acked sub = {} \<and>
      (\<forall>i \<in> tracked sub. i < ss_next_index sub) \<and>
      (\<forall>(k, v) \<in> set (ss_inflight sub). lease_key_ok name k (if_topic_index v)))"

lemma sub_okD:
  assumes "sub_ok name len sub"
  shows "hm_ok (ss_inflight sub)" "hm_ok (ss_attempts sub)" "hm_ok (ss_ordering_acked sub)"
    "ss_next_index sub \<le> len" "distinct (live sub)" "set (live sub) \<inter> ss_acked sub = {}"
    "i \<in> tracked sub \<Longrightarrow> i < ss_next_index sub"
    "(k, v) \<in> set (ss_inflight sub) \<Longrightarrow> lease_key_ok name k (if_topic_index v)"
  using assms by (auto simp: sub_ok_def)

lemma sub_ok_mono: "sub_ok name len sub \<Longrightarrow> len \<le> len' \<Longrightarrow> sub_ok name len' sub"
  by (simp add: sub_ok_def)

lemma sub_ok_new: "sub_ok name len (new_subscription_state spec len)"
  by (simp add: sub_ok_def new_subscription_state_def live_def leased_at_def queued_def tracked_def
      hm_values_def)

lemma sub_ok_reset: "i \<le> len \<Longrightarrow> sub_ok name len (reset_cursor i sub)"
  by (simp add: sub_ok_def reset_cursor_def live_def leased_at_def queued_def tracked_def hm_values_def)

lemma sub_ok_spec [simp]: "sub_ok name len (sub\<lparr>ss_spec := x\<rparr>) = sub_ok name len sub"
  by (simp add: sub_ok_def live_def leased_at_def queued_def tracked_def)

text \<open>
  How to carry it over a step: the live indices are permuted, the acknowledged set and the
  cursor are kept, and no lease appears under a new key.
\<close>

lemma live_mset:
  "mset (live sub) = image_mset if_topic_index (mset (hm_values (ss_inflight sub)))
     + image_mset re_topic_index (mset (ss_retry_queue sub))"
  by (simp add: live_def leased_at_def queued_def)

lemma sub_ok_permute:
  assumes ok: "sub_ok name len sub"
    and "mset (live sub') = mset (live sub)" "ss_acked sub' = ss_acked sub"
    and "ss_next_index sub' = ss_next_index sub"
    and "hm_ok (ss_inflight sub')" "hm_ok (ss_attempts sub')" "hm_ok (ss_ordering_acked sub')"
    and "\<forall>(k, v) \<in> set (ss_inflight sub'). lease_key_ok name k (if_topic_index v)"
  shows "sub_ok name len sub'"
proof -
  have "set (live sub') = set (live sub)" using assms(2) by (metis set_mset_mset)
  moreover have "distinct (live sub')" using assms(2) sub_okD(5) [OF ok] by (metis mset_eq_imp_distinct_iff)
  ultimately show ?thesis using assms by (auto simp: sub_ok_def tracked_def)
qed

lemma tracked_permute:
  "mset (live sub') = mset (live sub) \<Longrightarrow> ss_acked sub' = ss_acked sub \<Longrightarrow> tracked sub' = tracked sub"
  unfolding tracked_def by (metis set_mset_mset)

section \<open>Moving a lease back to the queue\<close>

definition requeue_back :: "string \<Rightarrow> retry_entry \<Rightarrow> subscription_state \<Rightarrow> subscription_state" where
  "requeue_back k x sub =
     sub\<lparr>ss_inflight := hm_remove k (ss_inflight sub), ss_retry_queue := ss_retry_queue sub @ [x]\<rparr>"

definition requeue_front :: "string \<Rightarrow> retry_entry \<Rightarrow> subscription_state \<Rightarrow> subscription_state" where
  "requeue_front k x sub =
     sub\<lparr>ss_inflight := hm_remove k (ss_inflight sub), ss_retry_queue := x # ss_retry_queue sub\<rparr>"

lemma requeue_back_sel [simp]:
  "ss_spec (requeue_back k x sub) = ss_spec sub"
  "ss_next_index (requeue_back k x sub) = ss_next_index sub"
  "ss_acked (requeue_back k x sub) = ss_acked sub"
  "ss_attempts (requeue_back k x sub) = ss_attempts sub"
  "ss_ordering_acked (requeue_back k x sub) = ss_ordering_acked sub"
  "ss_inflight (requeue_back k x sub) = hm_remove k (ss_inflight sub)"
  "ss_retry_queue (requeue_back k x sub) = ss_retry_queue sub @ [x]"
  by (simp_all add: requeue_back_def)

lemma retry_at_requeue [simp]: "retry_at (requeue_back k x sub) i now = retry_at sub i now"
  by (simp add: retry_at_def attempt_of_def)

lemma live_requeue:
  assumes "hm_ok (ss_inflight sub)" "hm_get (ss_inflight sub) k = Some v"
    and "re_topic_index x = if_topic_index v"
  shows "mset (live (requeue_back k x sub)) = mset (live sub)"
    and "mset (live (requeue_front k x sub)) = mset (live sub)"
  using hm_values_remove [OF assms(1,2)] assms(3)
  by (simp_all add: live_mset requeue_back_def requeue_front_def)

lemma sub_ok_requeue:
  assumes ok: "sub_ok name len sub" and k: "hm_get (ss_inflight sub) k = Some v"
    and x: "re_topic_index x = if_topic_index v"
  shows "sub_ok name len (requeue_back k x sub)" "tracked (requeue_back k x sub) = tracked sub"
    and "sub_ok name len (requeue_front k x sub)" "tracked (requeue_front k x sub) = tracked sub"
proof -
  note live = live_requeue [OF sub_okD(1) [OF ok] k x]
  show "sub_ok name len (requeue_back k x sub)"
    by (rule sub_ok_permute [OF ok live(1)])
      (use ok in \<open>auto simp: requeue_back_def sub_ok_def hm_set_remove\<close>)
  show "sub_ok name len (requeue_front k x sub)"
    by (rule sub_ok_permute [OF ok live(2)])
      (use ok in \<open>auto simp: requeue_front_def sub_ok_def hm_set_remove\<close>)
  show "tracked (requeue_back k x sub) = tracked sub"
    by (rule tracked_permute [OF live(1)]) (simp add: requeue_back_def)
  show "tracked (requeue_front k x sub) = tracked sub"
    by (rule tracked_permute [OF live(2)]) (simp add: requeue_front_def)
qed

lemma lease_not_acked:
  assumes "sub_ok name len sub" "hm_get (ss_inflight sub) k = Some v"
  shows "if_topic_index v \<notin> ss_acked sub" "if_topic_index v < ss_next_index sub"
    "if_topic_index v \<in> set (leased_at sub)"
proof -
  show l: "if_topic_index v \<in> set (leased_at sub)"
    using hm_get_SomeD [OF assms(2)] by (force simp: leased_at_def hm_values_def)
  then have m: "if_topic_index v \<in> set (live sub)" by (simp add: live_def)
  then show "if_topic_index v \<notin> ss_acked sub" using sub_okD(6) [OF assms(1)] by auto
  show "if_topic_index v < ss_next_index sub"
    using sub_okD(7) [OF assms(1)] m by (simp add: tracked_def)
qed

section \<open>Expired leases\<close>

lemma expire_one_requeues:
  assumes ok: "sub_ok name len sub" and k: "hm_get (ss_inflight sub) k = Some v"
  shows "expire_one now (k, if_topic_index v) sub
    = requeue_back k (retry_at sub (if_topic_index v) now) sub"
  using lease_not_acked(1) [OF assms]
  by (simp add: expire_one_def requeue_back_def retry_at_def attempt_of_def)

lemma expire_fold:
  assumes "sub_ok name len sub" "distinct (map fst kis)"
    and "\<forall>(k, i) \<in> set kis. \<exists>v. hm_get (ss_inflight sub) k = Some v \<and> if_topic_index v = i"
  shows "let sub' = fold (expire_one now) kis sub in
    sub_ok name len sub' \<and> tracked sub' = tracked sub \<and> ss_spec sub' = ss_spec sub
    \<and> ss_next_index sub' = ss_next_index sub \<and> ss_acked sub' = ss_acked sub
    \<and> ss_attempts sub' = ss_attempts sub \<and> ss_ordering_acked sub' = ss_ordering_acked sub
    \<and> (\<forall>k. hm_get (ss_inflight sub') k = (if k \<in> fst ` set kis then None else hm_get (ss_inflight sub) k))
    \<and> ss_retry_queue sub' = ss_retry_queue sub @ map (\<lambda>(k, i). retry_at sub i now) kis"
  using assms
proof (induction kis arbitrary: sub)
  case Nil
  then show ?case by simp
next
  case (Cons ki kis)
  obtain k i where ki: "ki = (k, i)" by (cases ki)
  from Cons.prems(3) ki obtain v where v: "hm_get (ss_inflight sub) k = Some v" "if_topic_index v = i"
    by auto
  let ?mid = "requeue_back k (retry_at sub i now) sub"
  have step: "expire_one now ki sub = ?mid"
    using expire_one_requeues [OF Cons.prems(1) v(1)] v(2) ki by simp
  have mid: "sub_ok name len ?mid" "tracked ?mid = tracked sub"
    using sub_ok_requeue [OF Cons.prems(1) v(1), of "retry_at sub i now"] v(2)
    by (simp_all add: retry_at_def)
  have in_mid: "\<forall>(k, i) \<in> set kis. \<exists>v. hm_get (ss_inflight ?mid) k = Some v \<and> if_topic_index v = i"
  proof (intro ballI)
    fix x
    assume x: "x \<in> set kis"
    obtain k' i' where k': "x = (k', i')" by (cases x)
    have "k' \<noteq> k" using Cons.prems(2) x k' ki by (force simp: image_iff)
    then show "case x of (k, i) \<Rightarrow> \<exists>v. hm_get (ss_inflight ?mid) k = Some v \<and> if_topic_index v = i"
      using Cons.prems(3) x k' by auto
  qed
  have "distinct (map fst kis)" using Cons.prems(2) by simp
  note IH = Cons.IH [OF mid(1) this in_mid, unfolded Let_def]
  have f: "fold (expire_one now) (ki # kis) sub = fold (expire_one now) kis ?mid"
    by (simp add: step)
  show ?case
    unfolding Let_def f using IH mid(2) ki by (simp add: case_prod_beta)
qed

lemma expired_leases_set:
  assumes "env_order_ok e"
  shows "set (expired_leases e sub) =
    {(k, if_topic_index v) | k v. (k, v) \<in> set (ss_inflight sub) \<and> if_deadline v \<le> e_now e}"
proof -
  have "mset (e_order e (ss_inflight sub)) = mset (ss_inflight sub)"
    using assms by (simp add: env_order_ok_def)
  then have "set (e_order e (ss_inflight sub)) = set (ss_inflight sub)" by (rule mset_eq_setD)
  then show ?thesis
    by (simp add: expired_leases_def image_Collect case_prod_beta)
qed

lemma expired_leases_distinct:
  assumes "env_order_ok e" "hm_ok (ss_inflight sub)"
  shows "distinct (map fst (expired_leases e sub))"
proof -
  have "mset (e_order e (ss_inflight sub)) = mset (ss_inflight sub)"
    using assms(1) by (simp add: env_order_ok_def)
  then have "mset (map fst (e_order e (ss_inflight sub))) = mset (map fst (ss_inflight sub))"
    by simp
  then have d: "distinct (map fst (e_order e (ss_inflight sub)))"
    using assms(2) unfolding hm_ok_def by (metis mset_eq_imp_distinct_iff)
  have "map fst (expired_leases e sub) =
      map fst (filter (\<lambda>(k, v). if_deadline v \<le> e_now e) (e_order e (ss_inflight sub)))"
    by (simp add: expired_leases_def comp_def case_prod_beta)
  then show ?thesis using distinct_map_filter [OF d] by (simp add: case_prod_beta)
qed

text \<open>
  What the start of a pull does: exactly the leases whose deadline has passed leave the
  lease map for the end of the retry queue, with their backoff; nothing else changes.
\<close>

lemma expire_leases_ok:
  assumes ok: "sub_ok name len sub" and e: "env_order_ok e"
  shows "sub_ok name len (expire_leases e sub)" "tracked (expire_leases e sub) = tracked sub"
    "ss_spec (expire_leases e sub) = ss_spec sub"
    "ss_next_index (expire_leases e sub) = ss_next_index sub"
    "ss_acked (expire_leases e sub) = ss_acked sub"
    "ss_attempts (expire_leases e sub) = ss_attempts sub"
    "hm_get (ss_inflight (expire_leases e sub)) k =
       (case hm_get (ss_inflight sub) k of
          Some v \<Rightarrow> if if_deadline v \<le> e_now e then None else Some v
        | None \<Rightarrow> None)"
    "ss_retry_queue (expire_leases e sub) =
       ss_retry_queue sub @ map (\<lambda>(k, i). retry_at sub i (e_now e)) (expired_leases e sub)"
proof -
  have hm: "hm_ok (ss_inflight sub)" by (rule sub_okD(1) [OF ok])
  have mem: "\<forall>(k, i) \<in> set (expired_leases e sub).
      \<exists>v. hm_get (ss_inflight sub) k = Some v \<and> if_topic_index v = i"
    by (auto simp: expired_leases_set [OF e] hm_get_iff [OF hm])
  note f = expire_fold [OF ok expired_leases_distinct [OF e hm] mem, of "e_now e",
      folded expire_leases_def, unfolded Let_def]
  show "sub_ok name len (expire_leases e sub)" "tracked (expire_leases e sub) = tracked sub"
    "ss_spec (expire_leases e sub) = ss_spec sub"
    "ss_next_index (expire_leases e sub) = ss_next_index sub"
    "ss_acked (expire_leases e sub) = ss_acked sub"
    "ss_attempts (expire_leases e sub) = ss_attempts sub"
    "ss_retry_queue (expire_leases e sub) =
       ss_retry_queue sub @ map (\<lambda>(k, i). retry_at sub i (e_now e)) (expired_leases e sub)"
    using f by blast+
  have keys: "k \<in> fst ` set (expired_leases e sub) \<longleftrightarrow>
      (\<exists>v. hm_get (ss_inflight sub) k = Some v \<and> if_deadline v \<le> e_now e)"
    by (force simp: expired_leases_set [OF e] hm_get_iff [OF hm])
  show "hm_get (ss_inflight (expire_leases e sub)) k =
       (case hm_get (ss_inflight sub) k of
          Some v \<Rightarrow> if if_deadline v \<le> e_now e then None else Some v
        | None \<Rightarrow> None)"
    using f keys by (auto split: option.splits)
qed

end
