(* ===== verification/Ack_Correct.thy ===== *)
theory Ack_Correct
  imports Store_Invariant
begin

text \<open>
  Acknowledge, modify-ack-deadline and the seeks on one subscription: which indices move
  where, on every branch, the expired exactly-once lease included.
\<close>

section \<open>Releasing a lease\<close>

definition release :: "string \<Rightarrow> subscription_state \<Rightarrow> subscription_state" where
  "release k sub = sub\<lparr>ss_inflight := hm_remove k (ss_inflight sub)\<rparr>"

lemma release_sel [simp]:
  "ss_spec (release k sub) = ss_spec sub" "ss_next_index (release k sub) = ss_next_index sub"
  "ss_acked (release k sub) = ss_acked sub" "ss_attempts (release k sub) = ss_attempts sub"
  "ss_ordering_acked (release k sub) = ss_ordering_acked sub"
  "ss_retry_queue (release k sub) = ss_retry_queue sub"
  "ss_inflight (release k sub) = hm_remove k (ss_inflight sub)"
  by (simp_all add: release_def)

lemma mark_acked_sel [simp]:
  "ss_spec (mark_acked t i sub) = ss_spec sub" "ss_next_index (mark_acked t i sub) = ss_next_index sub"
  "ss_acked (mark_acked t i sub) = insert i (ss_acked sub)"
  "ss_attempts (mark_acked t i sub) = ss_attempts sub"
  "ss_retry_queue (mark_acked t i sub) = ss_retry_queue sub"
  "ss_inflight (mark_acked t i sub) = ss_inflight sub"
  "live (mark_acked t i sub) = live sub"
  by (simp_all add: mark_acked_def Let_def live_def leased_at_def queued_def)

lemma mark_acked_ok: "hm_ok (ss_ordering_acked sub) \<Longrightarrow> hm_ok (ss_ordering_acked (mark_acked t i sub))"
  by (simp add: mark_acked_def Let_def)

lemma live_release:
  assumes "sub_ok name len sub" "hm_get (ss_inflight sub) k = Some v"
  shows "mset (live sub) = add_mset (if_topic_index v) (mset (live (release k sub)))"
    and "set (live (release k sub)) = set (live sub) - {if_topic_index v}"
    and "distinct (live (release k sub))"
proof -
  show m: "mset (live sub) = add_mset (if_topic_index v) (mset (live (release k sub)))"
    using hm_values_remove [OF sub_okD(1) [OF assms(1)] assms(2)] by (simp add: live_mset)
  then have "mset (live sub) = mset (if_topic_index v # live (release k sub))" by simp
  then have d: "distinct (if_topic_index v # live (release k sub))"
    and s: "set (live sub) = set (if_topic_index v # live (release k sub))"
    using sub_okD(5) [OF assms(1)] by (metis mset_eq_imp_distinct_iff, metis mset_eq_setD)
  show "distinct (live (release k sub))" using d by simp
  show "set (live (release k sub)) = set (live sub) - {if_topic_index v}" using d s by auto
qed

lemma sub_ok_release:
  assumes "sub_ok name len sub" "hm_get (ss_inflight sub) k = Some v"
  shows "sub_ok name len (release k sub)"
    and "tracked (release k sub) = tracked sub - {if_topic_index v}"
    and "if_topic_index v \<in> tracked sub"
proof -
  note l = live_release [OF assms]
  show "sub_ok name len (release k sub)"
    using assms(1) l(2,3) by (auto simp: sub_ok_def tracked_def hm_set_remove)
  show "tracked (release k sub) = tracked sub - {if_topic_index v}"
    using lease_not_acked(1) [OF assms] l(2) by (auto simp: tracked_def)
  show "if_topic_index v \<in> tracked sub"
    using lease_not_acked(3) [OF assms] by (auto simp: tracked_def live_def)
qed

lemma sub_ok_mark:
  assumes "sub_ok name len sub" "hm_get (ss_inflight sub) k = Some v"
  shows "sub_ok name len (mark_acked t (if_topic_index v) (release k sub))"
    and "tracked (mark_acked t (if_topic_index v) (release k sub)) = tracked sub"
proof -
  note r = sub_ok_release [OF assms] and l = live_release [OF assms]
  have lt: "if_topic_index v < ss_next_index sub" by (rule lease_not_acked(2) [OF assms])
  have "if_topic_index v \<in> set (live sub)"
    using lease_not_acked(3) [OF assms] by (simp add: live_def)
  then show tr: "tracked (mark_acked t (if_topic_index v) (release k sub)) = tracked sub"
    using l(2) by (simp add: tracked_def) blast
  have d: "set (live (release k sub)) \<inter> insert (if_topic_index v) (ss_acked sub) = {}"
    using l(2) sub_okD(6) [OF assms(1)] by auto
  show "sub_ok name len (mark_acked t (if_topic_index v) (release k sub))"
    unfolding sub_ok_def tr
    using r(1) d sub_okD(7) [OF assms(1)] by (simp add: sub_ok_def mark_acked_ok)
qed

section \<open>Acknowledge\<close>

text \<open>The indices held by a list of acknowledgement identifiers.\<close>

definition held :: "subscription_state \<Rightarrow> string list \<Rightarrow> nat set" where
  "held sub ks = {if_topic_index v | k v. k \<in> set ks \<and> hm_get (ss_inflight sub) k = Some v}"

lemma held_Nil [simp]: "held sub [] = {}"
  by (simp add: held_def)

lemma held_Cons_None: "hm_get (ss_inflight sub) k = None \<Longrightarrow> held sub (k # ks) = held sub ks"
  by (auto simp: held_def)

lemma held_Cons_Some:
  "hm_get (ss_inflight sub) k = Some v \<Longrightarrow>
     held sub (k # ks) = insert (if_topic_index v) (held (release k sub) ks)"
  by (rule set_eqI) (auto simp: held_def split: if_splits, metis option.inject)

lemma held_mark [simp]: "held (mark_acked t i sub) ks = held sub ks"
  by (simp add: held_def)

lemma ack_loop_Some:
  "hm_get (ss_inflight sub) k = Some v \<Longrightarrow> ack_loop e t (k # ks) sub =
     (if s_enable_exactly_once_delivery (ss_spec sub) \<and> if_deadline v < e_now e
      then (Err (FailedPrecondition (''ack deadline expired for '' @ k)), release k sub)
      else ack_loop e t ks (mark_acked t (if_topic_index v) (release k sub)))"
  by (simp add: Let_def release_def)

lemma ack_loop_None: "hm_get (ss_inflight sub) k = None \<Longrightarrow> ack_loop e t (k # ks) sub = ack_loop e t ks sub"
  by simp

lemma ack_loop_no_panic: "fst (ack_loop e t ks sub) \<noteq> Panic"
  by (induction ks arbitrary: sub) (auto simp: Let_def split: option.splits)

text \<open>Without exactly-once delivery there is no error branch.\<close>

lemma ack_loop_plain:
  "\<not> s_enable_exactly_once_delivery (ss_spec sub) \<Longrightarrow> fst (ack_loop e t ks sub) = Ok ()"
  by (induction ks arbitrary: sub) (auto simp: Let_def mark_acked_def split: option.splits)

declare ack_loop.simps(2) [simp del]

lemma ack_loop_frame:
  assumes "ack_loop e t ks sub = (r, sub')"
  shows "ss_spec sub' = ss_spec sub \<and> ss_next_index sub' = ss_next_index sub
    \<and> ss_attempts sub' = ss_attempts sub \<and> ss_retry_queue sub' = ss_retry_queue sub
    \<and> ss_acked sub \<subseteq> ss_acked sub'"
  using assms
proof (induction ks arbitrary: sub)
  case Nil
  then show ?case by auto
next
  case (Cons k ks)
  show ?case
  proof (cases "hm_get (ss_inflight sub) k")
    case None
    then show ?thesis using Cons by (auto simp: ack_loop_None)
  next
    case (Some v)
    then show ?thesis
      using Cons.prems Cons.IH [of "mark_acked t (if_topic_index v) (release k sub)"]
      by (auto simp: ack_loop_Some split: if_splits)
  qed
qed

lemma ack_loop_Ok:
  assumes "sub_ok name len sub" "ack_loop e t ks sub = (Ok (), sub')"
  shows "sub_ok name len sub' \<and> tracked sub' = tracked sub
    \<and> ss_acked sub' = ss_acked sub \<union> held sub ks
    \<and> (\<forall>k. hm_get (ss_inflight sub') k = (if k \<in> set ks then None else hm_get (ss_inflight sub) k))"
  using assms
proof (induction ks arbitrary: sub)
  case Nil
  then show ?case by auto
next
  case (Cons k ks)
  show ?case
  proof (cases "hm_get (ss_inflight sub) k")
    case None
    then show ?thesis using Cons.IH [OF Cons.prems(1)] Cons.prems(2) by (auto simp: held_Cons_None ack_loop_None)
  next
    case (Some v)
    let ?mid = "mark_acked t (if_topic_index v) (release k sub)"
    have "ack_loop e t ks ?mid = (Ok (), sub')"
      using Cons.prems(2) Some by (simp add: ack_loop_Some split: if_splits)
    note IH = Cons.IH [OF sub_ok_mark(1) [OF Cons.prems(1) Some] this]
    show ?thesis using IH sub_ok_mark(2) [OF Cons.prems(1) Some] by (auto simp: held_Cons_Some [OF Some])
  qed
qed

text \<open>
  The error branch: the lease whose deadline has passed is dropped and its index goes
  nowhere else, so that the subscription no longer tracks it.
\<close>

lemma ack_loop_Err:
  assumes "sub_ok name len sub" "ack_loop e t ks sub = (Err err, sub')"
  shows "\<exists>k v. k \<in> set ks \<and> hm_get (ss_inflight sub) k = Some v \<and> if_deadline v < e_now e
    \<and> s_enable_exactly_once_delivery (ss_spec sub)
    \<and> err = FailedPrecondition (''ack deadline expired for '' @ k)
    \<and> sub_ok name len sub' \<and> tracked sub' = tracked sub - {if_topic_index v}"
  using assms
proof (induction ks arbitrary: sub)
  case Nil
  then show ?case by simp
next
  case (Cons k ks)
  show ?case
  proof (cases "hm_get (ss_inflight sub) k")
    case None
    then show ?thesis using Cons.IH [OF Cons.prems(1)] Cons.prems(2) by (fastforce simp: ack_loop_None)
  next
    case (Some v)
    let ?mid = "mark_acked t (if_topic_index v) (release k sub)"
    show ?thesis
    proof (cases "s_enable_exactly_once_delivery (ss_spec sub) \<and> if_deadline v < e_now e")
      case True
      then have "sub' = release k sub" "err = FailedPrecondition (''ack deadline expired for '' @ k)"
        using Cons.prems(2) Some by (auto simp: ack_loop_Some)
      then show ?thesis
        using True Some sub_ok_release [OF Cons.prems(1) Some] by (intro exI [of _ k] exI [of _ v]) simp
    next
      case False
      then have "ack_loop e t ks ?mid = (Err err, sub')"
        using Cons.prems(2) False by (simp only: ack_loop_Some [OF Some] if_False)
      note IH = Cons.IH [OF sub_ok_mark(1) [OF Cons.prems(1) Some] this]
      then obtain k' w where "k' \<in> set ks" "hm_get (ss_inflight ?mid) k' = Some w"
        "if_deadline w < e_now e" "s_enable_exactly_once_delivery (ss_spec sub)"
        "err = FailedPrecondition (''ack deadline expired for '' @ k')"
        "sub_ok name len sub'" "tracked sub' = tracked ?mid - {if_topic_index w}" by auto
      moreover have "hm_get (ss_inflight sub) k' = Some w"
        using \<open>hm_get (ss_inflight ?mid) k' = Some w\<close> by (simp split: if_splits)
      ultimately show ?thesis using sub_ok_mark(2) [OF Cons.prems(1) Some]
        by (intro exI [of _ k'] exI [of _ w]) simp
    qed
  qed
qed

lemma ack_loop_sub_ok:
  assumes "sub_ok name len sub"
  shows "sub_ok name len (snd (ack_loop e t ks sub))"
proof (cases "ack_loop e t ks sub")
  case (Pair r sub')
  show ?thesis
  proof (cases r)
    case (Ok u)
    then show ?thesis using ack_loop_Ok [OF assms, of e t ks sub'] Pair by simp
  next
    case (Err err)
    then show ?thesis using ack_loop_Err [OF assms, of e t ks err sub'] Pair by auto
  next
    case Panic
    then show ?thesis using ack_loop_no_panic [of e t ks sub] Pair by simp
  qed
qed

section \<open>Modify ack deadline\<close>

lemma modify_one_nack:
  assumes "hm_get (ss_inflight sub) k = Some v"
  shows "modify_deadline_one e 0 k sub
    = requeue_front k (retry_at sub (if_topic_index v) (e_now e)) sub"
  using assms by (simp add: modify_deadline_one_def requeue_front_def retry_at_def attempt_of_def Let_def)

lemma live_extend:
  assumes "hm_ok m" "hm_get m k = Some v"
  shows "mset (map if_topic_index (hm_values (hm_insert k (v\<lparr>if_deadline := d\<rparr>) m)))
    = mset (map if_topic_index (hm_values m))"
  using hm_values_update [OF assms] hm_values_remove [OF assms] by simp

lemma modify_one_ok:
  assumes ok: "sub_ok name len sub"
  shows "sub_ok name len (modify_deadline_one e secs k sub)
    \<and> tracked (modify_deadline_one e secs k sub) = tracked sub
    \<and> ss_acked (modify_deadline_one e secs k sub) = ss_acked sub
    \<and> ss_next_index (modify_deadline_one e secs k sub) = ss_next_index sub
    \<and> ss_spec (modify_deadline_one e secs k sub) = ss_spec sub"
proof (cases "hm_get (ss_inflight sub) k")
  case None
  then show ?thesis using ok by (simp add: modify_deadline_one_def)
next
  case (Some v)
  show ?thesis
  proof (cases "secs = 0")
    case True
    have "re_topic_index (retry_at sub (if_topic_index v) (e_now e)) = if_topic_index v"
      by (simp add: retry_at_def)
    note r = sub_ok_requeue(3,4) [OF ok Some this]
    show ?thesis unfolding True modify_one_nack [OF Some] using r by (simp add: requeue_front_def)
  next
    case False
    let ?sub = "sub\<lparr>ss_inflight := hm_insert k (v\<lparr>if_deadline := e_now e + seconds (unat secs)\<rparr>)
                                    (ss_inflight sub)\<rparr>"
    have eq: "modify_deadline_one e secs k sub = ?sub"
      using Some False by (simp add: modify_deadline_one_def)
    have live: "mset (live ?sub) = mset (live sub)"
      using live_extend [OF sub_okD(1) [OF ok] Some] by (simp add: live_def leased_at_def queued_def)
    have "lease_key_ok name k (if_topic_index v)"
      using sub_okD(8) [OF ok hm_get_SomeD [OF Some]] .
    then have "sub_ok name len ?sub"
      by (intro sub_ok_permute [OF ok live])
        (use ok in \<open>auto simp: sub_ok_def hm_set_insert\<close>)
    then show ?thesis using tracked_permute [OF live] by (simp add: eq)
  qed
qed

lemma modify_fold_ok:
  assumes "sub_ok name len sub"
  shows "sub_ok name len (fold (modify_deadline_one e secs) ks sub)
    \<and> tracked (fold (modify_deadline_one e secs) ks sub) = tracked sub
    \<and> ss_acked (fold (modify_deadline_one e secs) ks sub) = ss_acked sub
    \<and> ss_next_index (fold (modify_deadline_one e secs) ks sub) = ss_next_index sub
    \<and> ss_spec (fold (modify_deadline_one e secs) ks sub) = ss_spec sub"
  using assms
proof (induction ks arbitrary: sub)
  case Nil
  then show ?case by simp
next
  case (Cons k ks)
  then show ?case using modify_one_ok [OF Cons.prems, of e secs k] by simp
qed

lemma modify_fold_nack:
  assumes "sub_ok name len sub" "distinct ks" "\<forall>k \<in> set ks. hm_contains (ss_inflight sub) k"
  shows "ss_retry_queue (fold (modify_deadline_one e 0) ks sub) =
    rev (map (\<lambda>k. retry_at sub (if_topic_index (the (hm_get (ss_inflight sub) k))) (e_now e)) ks)
      @ ss_retry_queue sub"
  using assms
proof (induction ks arbitrary: sub)
  case Nil
  then show ?case by simp
next
  case (Cons k ks)
  from Cons.prems(3) obtain v where v: "hm_get (ss_inflight sub) k = Some v"
    by (auto simp: hm_contains_def)
  let ?mid = "requeue_front k (retry_at sub (if_topic_index v) (e_now e)) sub"
  have ok: "sub_ok name len ?mid"
    by (rule sub_ok_requeue(3) [OF Cons.prems(1) v]) (simp add: retry_at_def)
  have same: "hm_get (ss_inflight ?mid) k' = hm_get (ss_inflight sub) k'"
    "retry_at ?mid j now = retry_at sub j now" if "k' \<in> set ks" for k' j now
    using Cons.prems(2) that by (auto simp: requeue_front_def retry_at_def attempt_of_def)
  have "\<forall>k \<in> set ks. hm_contains (ss_inflight ?mid) k"
    using Cons.prems(3) same(1) by (simp add: hm_contains_def)
  note IH = Cons.IH [OF ok _ this]
  have "map (\<lambda>k. retry_at ?mid (if_topic_index (the (hm_get (ss_inflight ?mid) k))) (e_now e)) ks
      = map (\<lambda>k. retry_at sub (if_topic_index (the (hm_get (ss_inflight sub) k))) (e_now e)) ks"
    using same by (intro map_cong) simp_all
  moreover have "ss_retry_queue ?mid = retry_at sub (if_topic_index v) (e_now e) # ss_retry_queue sub"
    by (simp add: requeue_front_def)
  ultimately show ?case using IH Cons.prems(2) v by (simp add: modify_one_nack [OF v])
qed

section \<open>Seek\<close>

text \<open>
  Where a seek to a time puts the cursor: all messages before it were published before the
  time, and the one at it, if any, was not.
\<close>

lemma seek_index_spec:
  "seek_index msgs t \<le> length msgs"
  "i < seek_index msgs t \<Longrightarrow> m_published_at (msgs ! i) < t"
  "seek_index msgs t < length msgs \<Longrightarrow> t \<le> m_published_at (msgs ! seek_index msgs t)"
proof -
  show "seek_index msgs t \<le> length msgs"
    by (auto simp: seek_index_def position_Some split: option.splits)
  show "i < seek_index msgs t \<Longrightarrow> m_published_at (msgs ! i) < t"
  proof (cases "position (\<lambda>m. t \<le> m_published_at m) msgs")
    case None
    assume "i < seek_index msgs t"
    then have "msgs ! i \<in> set msgs" using None by (simp add: seek_index_def)
    then show ?thesis using None by (auto simp: position_None)
  next
    case (Some j)
    assume "i < seek_index msgs t"
    then have "i < j" using Some by (simp add: seek_index_def)
    then show ?thesis using Some by (auto simp: position_Some not_le)
  qed
  show "seek_index msgs t < length msgs \<Longrightarrow> t \<le> m_published_at (msgs ! seek_index msgs t)"
    using position_Some [of "\<lambda>m. t \<le> m_published_at m" msgs] by (simp add: seek_index_def split: option.splits)
qed

end
