(* ===== verification/Pull_Correct.thy ===== *)
theory Pull_Correct
  imports Ack_Correct
begin

text \<open>
  The delivery loop of \<open>pull\<close>: an invariant of its rounds, and what it gives for the
  whole call.
\<close>

section \<open>Topics only grow\<close>

definition topic_extends :: "topic_state \<Rightarrow> topic_state \<Rightarrow> bool" where
  "topic_extends t t' =
     (ts_spec t' = ts_spec t \<and> (\<exists>xs. ts_messages t' = ts_messages t @ xs) \<and>
      (\<forall>c. hm_get (ts_seen_ids t) c \<noteq> None \<longrightarrow> hm_get (ts_seen_ids t') c \<noteq> None))"

definition topics_extend :: "(string, topic_state) hmap \<Rightarrow> (string, topic_state) hmap \<Rightarrow> bool" where
  "topics_extend m m' =
     (\<forall>n. case hm_get m n of
            None \<Rightarrow> hm_get m' n = None
          | Some t \<Rightarrow> \<exists>t'. hm_get m' n = Some t' \<and> topic_extends t t')"

lemma topic_extends_refl [simp]: "topic_extends t t"
  by (simp add: topic_extends_def)

lemma topic_extends_trans: "topic_extends t u \<Longrightarrow> topic_extends u v \<Longrightarrow> topic_extends t v"
  by (auto simp: topic_extends_def)

lemma topics_extend_refl [simp]: "topics_extend m m"
  by (simp add: topics_extend_def split: option.split)

lemma topics_extendD:
  "topics_extend m m' \<Longrightarrow> hm_get m n = Some t \<Longrightarrow> \<exists>t'. hm_get m' n = Some t' \<and> topic_extends t t'"
  "topics_extend m m' \<Longrightarrow> hm_get m n = None \<Longrightarrow> hm_get m' n = None"
  by (auto simp: topics_extend_def dest: spec [of _ n])

lemma topics_extend_insert:
  assumes ext: "topics_extend m m'" and t: "hm_get m' n = Some t" and t': "topic_extends t t'"
  shows "topics_extend m (hm_insert n t' m')"
  unfolding topics_extend_def
proof (intro allI)
  fix k
  show "case hm_get m k of None \<Rightarrow> hm_get (hm_insert n t' m') k = None
    | Some u \<Rightarrow> \<exists>u'. hm_get (hm_insert n t' m') k = Some u' \<and> topic_extends u u'"
  proof (cases "hm_get m k")
    case None
    then show ?thesis using topics_extendD(2) [OF ext None] t by auto
  next
    case (Some u)
    then show ?thesis
      using topics_extendD(1) [OF ext Some] t t' by (auto intro: topic_extends_trans)
  qed
qed

section \<open>An index in hand\<close>

text \<open>
  Between picking an index and putting it in its next place: the subscription is well
  formed, and the index in hand is in none of the places.
\<close>

definition picked :: "string \<Rightarrow> nat \<Rightarrow> nat \<Rightarrow> subscription_state \<Rightarrow> bool" where
  "picked name len i sub =
     (sub_ok name len sub \<and> i \<notin> tracked sub \<and> i < ss_next_index sub)"

lemma pick_index_picked:
  assumes ok: "sub_ok name len sub" and p: "pick_index now len sk sub = Some (i, sub')"
  shows "picked name len i sub'"
    and "insert i (tracked sub') = tracked sub \<union> {ss_next_index sub..<ss_next_index sub'}"
    and "ss_next_index sub \<le> ss_next_index sub'"
    and "ss_spec sub' = ss_spec sub \<and> ss_acked sub' = ss_acked sub \<and> ss_attempts sub' = ss_attempts sub
      \<and> ss_inflight sub' = ss_inflight sub"
proof -
  have "picked name len i sub'
    \<and> insert i (tracked sub') = tracked sub \<union> {ss_next_index sub..<ss_next_index sub'}
    \<and> ss_next_index sub \<le> ss_next_index sub'
    \<and> ss_spec sub' = ss_spec sub \<and> ss_acked sub' = ss_acked sub \<and> ss_attempts sub' = ss_attempts sub
    \<and> ss_inflight sub' = ss_inflight sub"
    using p
  proof (cases rule: pick_index_cases)
    case (retry pos)
    let ?q = "ss_retry_queue sub"
    have "mset ?q = add_mset (?q ! pos) (mset (take pos ?q @ drop (Suc pos) ?q))"
      using split_at [OF retry(1)] by (metis mset.simps(2) mset_append union_mset_add_mset_right)
    then have live: "mset (live sub) = mset (i # live sub')"
      using retry(3,4) by (simp add: live_mset)
    have s: "set (live sub) = set (i # live sub')" by (rule mset_eq_setD [OF live])
    have d: "distinct (i # live sub')"
      using live sub_okD(5) [OF ok] by (metis mset_eq_imp_distinct_iff)
    have i: "i \<in> set (live sub)" using s by simp
    then have "i \<notin> ss_acked sub" "i < ss_next_index sub"
      using sub_okD(6,7) [OF ok] by (auto simp: tracked_def)
    moreover have tr: "tracked sub = insert i (tracked sub')"
      using s retry(4) by (auto simp: tracked_def)
    moreover have "sub_ok name len sub'"
      using ok d s retry(4) tr by (auto simp: sub_ok_def)
    ultimately show ?thesis using d retry(4) by (simp add: picked_def tracked_def)
  next
    case fresh
    have live: "live sub' = live sub" using fresh(3) by (simp add: live_def leased_at_def queued_def)
    have tr: "tracked sub' = tracked sub" using fresh(3) live by (simp add: tracked_def)
    have "i \<notin> tracked sub" using sub_okD(7) [OF ok] fresh(2) by fastforce
    moreover have "sub_ok name len sub'"
      using ok fresh(1,3) live tr by (auto simp: sub_ok_def less_Suc_eq)
    ultimately show ?thesis using fresh tr by (auto simp: picked_def)
  qed
  then show "picked name len i sub'"
    and "insert i (tracked sub') = tracked sub \<union> {ss_next_index sub..<ss_next_index sub'}"
    and "ss_next_index sub \<le> ss_next_index sub'"
    and "ss_spec sub' = ss_spec sub \<and> ss_acked sub' = ss_acked sub \<and> ss_attempts sub' = ss_attempts sub
      \<and> ss_inflight sub' = ss_inflight sub"
    by blast+
qed

lemma picked_attempts:
  "picked name len i sub \<Longrightarrow> picked name len i (sub\<lparr>ss_attempts := hm_insert j a (ss_attempts sub)\<rparr>)"
  by (auto simp: picked_def sub_ok_def tracked_def live_def leased_at_def queued_def)

text \<open>The three places an index in hand goes to.\<close>

lemma picked_ack:
  assumes "picked name len i sub"
  shows "sub_ok name len (sub\<lparr>ss_acked := insert i (ss_acked sub)\<rparr>)"
    and "tracked (sub\<lparr>ss_acked := insert i (ss_acked sub)\<rparr>) = insert i (tracked sub)"
  using assms by (auto simp: picked_def sub_ok_def tracked_def live_def leased_at_def queued_def)

lemma picked_queue:
  assumes "picked name len i sub" "re_topic_index x = i"
  shows "sub_ok name len (sub\<lparr>ss_retry_queue := ss_retry_queue sub @ [x]\<rparr>)"
    and "tracked (sub\<lparr>ss_retry_queue := ss_retry_queue sub @ [x]\<rparr>) = insert i (tracked sub)"
  using assms by (auto simp: picked_def sub_ok_def tracked_def live_def leased_at_def queued_def)

lemma picked_lease:
  assumes p: "picked name len i sub" and k: "hm_get (ss_inflight sub) k = None"
    and v: "if_topic_index v = i" "lease_key_ok name k i"
  shows "sub_ok name len (sub\<lparr>ss_inflight := hm_insert k v (ss_inflight sub)\<rparr>)"
    and "tracked (sub\<lparr>ss_inflight := hm_insert k v (ss_inflight sub)\<rparr>) = insert i (tracked sub)"
proof -
  let ?sub = "sub\<lparr>ss_inflight := hm_insert k v (ss_inflight sub)\<rparr>"
  have ok: "sub_ok name len sub" using p by (simp add: picked_def)
  have live: "mset (live ?sub) = mset (i # live sub)"
    using k v(1) by (simp add: live_mset hm_insert_fresh hm_values_def)
  have s: "set (live ?sub) = insert i (set (live sub))" using mset_eq_setD [OF live] by simp
  have "distinct (i # live sub)" using p sub_okD(5) [OF ok] by (simp add: picked_def tracked_def)
  then have d: "distinct (live ?sub)" using live by (metis mset_eq_imp_distinct_iff)
  show tr: "tracked ?sub = insert i (tracked sub)" using s by (simp add: tracked_def)
  have "ss_acked ?sub \<inter> set (live ?sub) = {}"
    using sub_okD(6) [OF ok] p s by (auto simp: picked_def tracked_def)
  moreover have "\<forall>(k, v) \<in> set (ss_inflight ?sub). lease_key_ok name k (if_topic_index v)"
    using ok v by (auto simp: sub_ok_def hm_set_insert)
  ultimately show "sub_ok name len ?sub"
    unfolding sub_ok_def tr using ok d p by (auto simp: sub_ok_def picked_def)
qed

section \<open>Acknowledgement identifiers\<close>

definition exactly_once_key :: "string \<Rightarrow> nat \<Rightarrow> nat \<Rightarrow> string" where
  "exactly_once_key name i a = name @ '':'' @ show_nat i @ '':'' @ show_nat a"

lemma show_nat_no_colon: "CHR '':'' \<notin> set (show_nat n)"
proof
  assume "CHR '':'' \<in> set (show_nat n)"
  then obtain d where d: "d < 10" "CHR '':'' = digit_char d" using show_nat_digits by blast
  then have "of_char (CHR '':'') = (of_char (digit_char d) :: nat)" by simp
  then show False using d(1) by (simp add: digit_char_def)
qed

lemma exactly_once_key_inj:
  assumes "exactly_once_key name i a = exactly_once_key name j b"
  shows "i = j"
proof -
  have eq: "show_nat i @ CHR '':'' # show_nat a = show_nat j @ CHR '':'' # show_nat b"
    using assms by (simp add: exactly_once_key_def)
  have "takeWhile (\<lambda>c. c \<noteq> CHR '':'') (show_nat k @ CHR '':'' # ys) = show_nat k" for k ys
    using show_nat_no_colon [of k] by (subst takeWhile_append2) auto
  then have "show_nat i = show_nat j" using eq by metis
  then show ?thesis by (rule show_nat_inj)
qed

lemma exactly_once_key_fresh:
  assumes ok: "sub_ok name len sub" and i: "i \<notin> tracked sub"
  shows "hm_get (ss_inflight sub) (exactly_once_key name i a) = None"
proof (rule ccontr)
  assume "\<not> ?thesis"
  then obtain v where v: "hm_get (ss_inflight sub) (exactly_once_key name i a) = Some v" by auto
  have "lease_key_ok name (exactly_once_key name i a) (if_topic_index v)"
    by (rule sub_okD(8) [OF ok hm_get_SomeD [OF v]])
  moreover have "CHR '':'' \<in> set (exactly_once_key name i a)" by (simp add: exactly_once_key_def)
  ultimately obtain b where "exactly_once_key name i a = exactly_once_key name (if_topic_index v) b"
    by (auto simp: lease_key_ok_def exactly_once_key_def)
  then have "i = if_topic_index v" by (rule exactly_once_key_inj)
  then show False using lease_not_acked(3) [OF ok v] i by (simp add: tracked_def live_def)
qed

end
