(* ===== verification/Pull_Loop.thy ===== *)
theory Pull_Loop
  imports Pull_Correct
begin

text \<open>
  The invariant of the delivery loop, the four things a round can do, and the outcome of
  the whole call.
\<close>

section \<open>The situation of a call\<close>

text \<open>
  What stays fixed during one call: the subscription's name, its topic's name and messages
  when the call started, the subscription after the leases expired, and the topics.
\<close>

record call =
  c_env :: env
  c_name :: string
  c_topic :: string
  c_msgs :: "relay_message list"
  c_sub :: subscription_state
  c_topics :: "(string, topic_state) hmap"

definition call_spec :: "call \<Rightarrow> subscription_spec" where
  "call_spec c = ss_spec (c_sub c)"

definition attempts_within :: "call \<Rightarrow> u32 \<Rightarrow> bool" where
  "attempts_within c a =
     (case s_dead_letter (call_spec c) of
        None \<Rightarrow> True
      | Some dlq \<Rightarrow> hm_get (c_topics c) (d_topic dlq) = None \<or> a \<le> clamp (d_max_delivery_attempts dlq) 5 100)"

text \<open>
  A delivery is right with respect to a subscription state: it is a leased message of the
  topic, with the lease this call gives, it passes the filter, no earlier message of its
  ordering key is unacknowledged, and its attempt number is one more than before.
\<close>

definition delivered_ok :: "call \<Rightarrow> subscription_state \<Rightarrow> delivery \<Rightarrow> bool" where
  "delivered_ok c sub d =
     (\<exists>i < length (c_msgs c).
        hm_get (ss_inflight sub) (dv_ack_id d) = Some (lease_of (c_env c) (c_sub c) i) \<and>
        dv_message d = c_msgs c ! i \<and>
        i \<notin> ss_acked (c_sub c) \<and> \<not> leased (c_sub c) i \<and>
        \<not> filter_rejects (call_spec c) (m_attributes (c_msgs c ! i)) \<and>
        (s_enable_message_ordering (call_spec c) \<longrightarrow> \<not> earlier_unacked (ss_acked sub) (c_msgs c) i) \<and>
        dv_delivery_attempt d = attempt_of (c_sub c) i 0 + 1 \<and>
        hm_get (ss_attempts sub) i = Some (dv_delivery_attempt d) \<and>
        attempts_within c (dv_delivery_attempt d))"

definition pull_inv :: "call \<Rightarrow> pull_state \<Rightarrow> bool" where
  "pull_inv c st =
     (sub_ok (c_name c) (length (c_msgs c)) (pl_sub st) \<and>
      ss_spec (pl_sub st) = call_spec c \<and>
      ss_next_index (c_sub c) \<le> ss_next_index (pl_sub st) \<and>
      tracked (pl_sub st) = tracked (c_sub c) \<union> {ss_next_index (c_sub c)..<ss_next_index (pl_sub st)} \<and>
      ss_acked (c_sub c) \<subseteq> ss_acked (pl_sub st) \<and>
      set (leased_at (c_sub c)) \<subseteq> set (leased_at (pl_sub st)) \<and>
      (\<forall>k v. hm_get (ss_inflight (c_sub c)) k = Some v \<longrightarrow> hm_get (ss_inflight (pl_sub st)) k = Some v) \<and>
      (\<forall>i. i \<notin> ss_acked (pl_sub st) \<longrightarrow> \<not> leased (pl_sub st) i \<longrightarrow>
         hm_get (ss_attempts (pl_sub st)) i = hm_get (ss_attempts (c_sub c)) i) \<and>
      fst ` set (ss_inflight (pl_sub st)) \<inter> e_uuid (c_env c) ` {pl_draws st..} = {} \<and>
      topics_extend (c_topics c) (pl_topics st) \<and> hm_ok (pl_topics st) \<and>
      (\<exists>t xs. hm_get (pl_topics st) (c_topic c) = Some t \<and> ts_messages t = c_msgs c @ xs) \<and>
      (\<forall>i \<in> pl_skipped st. i < length (c_msgs c) \<and> s_enable_message_ordering (call_spec c) \<and>
         earlier_unacked (ss_acked (c_sub c)) (c_msgs c) i) \<and>
      distinct (map dv_ack_id (pl_deliveries st)) \<and>
      (\<forall>d \<in> set (pl_deliveries st). delivered_ok c (pl_sub st) d))"

section \<open>One round\<close>

lemma earlier_unacked_append:
  "i < length msgs \<Longrightarrow> earlier_unacked A (msgs @ xs) i = earlier_unacked A msgs i"
  by (simp add: earlier_unacked_def nth_append cong: conj_cong)

lemma earlier_unacked_anti: "earlier_unacked A msgs i \<Longrightarrow> B \<subseteq> A \<Longrightarrow> earlier_unacked B msgs i"
  by (auto simp: earlier_unacked_def)

definition blocked_state :: "call \<Rightarrow> nat \<Rightarrow> subscription_state \<Rightarrow> pull_state \<Rightarrow> pull_state" where
  "blocked_state c i sub st =
     st\<lparr>pl_skipped := insert i (pl_skipped st),
        pl_sub := sub\<lparr>ss_retry_queue := ss_retry_queue sub
                        @ [\<lparr>re_topic_index = i, re_available_at = e_now (c_env c)\<rparr>]\<rparr>\<rparr>"

definition attempted :: "nat \<Rightarrow> subscription_state \<Rightarrow> subscription_state" where
  "attempted i sub = sub\<lparr>ss_attempts := hm_insert i (attempt_of sub i 0 + 1) (ss_attempts sub)\<rparr>"

definition acked_here :: "nat \<Rightarrow> subscription_state \<Rightarrow> subscription_state" where
  "acked_here i sub = sub\<lparr>ss_acked := insert i (ss_acked sub)\<rparr>"

definition leased_here :: "env \<Rightarrow> string \<Rightarrow> nat \<Rightarrow> subscription_state \<Rightarrow> subscription_state" where
  "leased_here e k i sub = sub\<lparr>ss_inflight := hm_insert k (lease_of e sub i) (ss_inflight sub)\<rparr>"

lemma leased_here_sel [simp]:
  "ss_spec (leased_here e k i sub) = ss_spec sub" "ss_acked (leased_here e k i sub) = ss_acked sub"
  "ss_next_index (leased_here e k i sub) = ss_next_index sub"
  "ss_attempts (leased_here e k i sub) = ss_attempts sub"
  "ss_inflight (leased_here e k i sub) = hm_insert k (lease_of e sub i) (ss_inflight sub)"
  by (simp_all add: leased_here_def)

lemma acked_here_sel [simp]:
  "ss_spec (acked_here i sub) = ss_spec sub" "ss_acked (acked_here i sub) = insert i (ss_acked sub)"
  "ss_next_index (acked_here i sub) = ss_next_index sub"
  "ss_attempts (acked_here i sub) = ss_attempts sub" "ss_inflight (acked_here i sub) = ss_inflight sub"
  "leased_at (acked_here i sub) = leased_at sub"
  by (simp_all add: acked_here_def leased_at_def)

lemma attempted_sel [simp]:
  "ss_spec (attempted i sub) = ss_spec sub" "ss_acked (attempted i sub) = ss_acked sub"
  "ss_next_index (attempted i sub) = ss_next_index sub" "ss_inflight (attempted i sub) = ss_inflight sub"
  "ss_retry_queue (attempted i sub) = ss_retry_queue sub"
  "ss_attempts (attempted i sub) = hm_insert i (attempt_of sub i 0 + 1) (ss_attempts sub)"
  "leased_at (attempted i sub) = leased_at sub" "tracked (attempted i sub) = tracked sub"
  by (simp_all add: attempted_def leased_at_def tracked_def live_def queued_def)

lemma picked_attempted: "picked name len i sub \<Longrightarrow> picked name len i (attempted i sub)"
  unfolding attempted_def by (rule picked_attempts)

text \<open>The outcome of a round, by the place the index in hand goes to.\<close>

definition dead_lettered ::
  "call \<Rightarrow> dead_letter_spec \<Rightarrow> topic_state \<Rightarrow> nat \<Rightarrow> subscription_state \<Rightarrow> pull_state \<Rightarrow> pull_state" where
  "dead_lettered c dlq dead_topic i sub st =
     st\<lparr>pl_sub := acked_here i (attempted i sub),
        pl_topics := hm_insert (d_topic dlq)
          (dead_topic\<lparr>ts_messages := ts_messages dead_topic
             @ [dead_message (c_env c) (c_name c) st (c_msgs c ! i)]\<rparr>) (pl_topics st),
        pl_draws := Suc (pl_draws st), pl_reads := Suc (pl_reads st)\<rparr>"

definition delivery_of :: "call \<Rightarrow> string \<Rightarrow> nat \<Rightarrow> subscription_state \<Rightarrow> delivery" where
  "delivery_of c k i sub =
     \<lparr>dv_ack_id = k, dv_message = c_msgs c ! i, dv_delivery_attempt = attempt_of sub i 0 + 1\<rparr>"

definition delivered_state :: "call \<Rightarrow> string \<Rightarrow> nat \<Rightarrow> nat \<Rightarrow> subscription_state \<Rightarrow> pull_state \<Rightarrow> pull_state" where
  "delivered_state c k draws i sub st =
     st\<lparr>pl_sub := leased_here (c_env c) k i (attempted i sub), pl_draws := draws,
        pl_deliveries := pl_deliveries st @ [delivery_of c k i sub]\<rparr>"

definition ack_key :: "call \<Rightarrow> nat \<Rightarrow> subscription_state \<Rightarrow> pull_state \<Rightarrow> string \<times> nat" where
  "ack_key c i sub st =
     (if s_enable_exactly_once_delivery (ss_spec sub)
      then (exactly_once_key (c_name c) i (unat (attempt_of sub i 0 + 1)), pl_draws st)
      else (e_uuid (c_env c) (pl_draws st), Suc (pl_draws st)))"

lemma deliver_step_eq:
  assumes "i < length (c_msgs c)" "ts_messages topic = c_msgs c @ xs"
  shows "deliver_step (c_env c) (c_name c) i (attempt_of sub i 0 + 1) topic (attempted i sub) st =
    Continue
      (if filter_rejects (ss_spec sub) (m_attributes (c_msgs c ! i))
       then st\<lparr>pl_sub := acked_here i (attempted i sub)\<rparr>
       else delivered_state c (fst (ack_key c i sub st)) (snd (ack_key c i sub st)) i sub st)"
  using assms
  by (simp add: deliver_step_def Let_def nth_append delivered_state_def delivery_of_def leased_here_def
      acked_here_def ack_key_def exactly_once_key_def)

lemma attempt_step_cases:
  assumes i: "i < length (c_msgs c)" and t: "ts_messages topic = c_msgs c @ xs"
    and spec: "ss_spec sub = call_spec c"
    and ext: "topics_extend (c_topics c) (pl_topics st)"
    and step: "attempt_step (c_env c) (c_name c) i topic sub st = r"
  obtains (dead) dlq dead_topic where
      "s_dead_letter (call_spec c) = Some dlq" "hm_get (pl_topics st) (d_topic dlq) = Some dead_topic"
      "clamp (d_max_delivery_attempts dlq) 5 100 < attempt_of sub i 0 + 1"
      "r = Continue (dead_lettered c dlq dead_topic i sub st)"
    | (filtered) "filter_rejects (call_spec c) (m_attributes (c_msgs c ! i))"
      "r = Continue (st\<lparr>pl_sub := acked_here i (attempted i sub)\<rparr>)"
    | (delivered) "\<not> filter_rejects (call_spec c) (m_attributes (c_msgs c ! i))"
      "attempts_within c (attempt_of sub i 0 + 1)"
      "r = Continue (delivered_state c (fst (ack_key c i sub st)) (snd (ack_key c i sub st)) i sub st)"
proof -
  note d = deliver_step_eq [OF i t, of sub st]
  have a: "sub\<lparr>ss_attempts := hm_insert i (attempt_of sub i 0 + 1) (ss_attempts sub)\<rparr> = attempted i sub"
    by (simp add: attempted_def)
  consider (none) "s_dead_letter (call_spec c) = None"
    | (few) dlq where "s_dead_letter (call_spec c) = Some dlq"
        "\<not> clamp (d_max_delivery_attempts dlq) 5 100 < attempt_of sub i 0 + 1"
    | (gone) dlq where "s_dead_letter (call_spec c) = Some dlq"
        "clamp (d_max_delivery_attempts dlq) 5 100 < attempt_of sub i 0 + 1"
        "hm_get (pl_topics st) (d_topic dlq) = None"
    | (move) dlq dead_topic where "s_dead_letter (call_spec c) = Some dlq"
        "clamp (d_max_delivery_attempts dlq) 5 100 < attempt_of sub i 0 + 1"
        "hm_get (pl_topics st) (d_topic dlq) = Some dead_topic"
    by (metis option.exhaust)
  then show ?thesis
  proof cases
    case none
    then have "attempt_step (c_env c) (c_name c) i topic sub st =
        deliver_step (c_env c) (c_name c) i (attempt_of sub i 0 + 1) topic (attempted i sub) st"
      by (simp add: attempt_step_def Let_def spec a)
    moreover have "attempts_within c (attempt_of sub i 0 + 1)" using none by (simp add: attempts_within_def)
    ultimately show ?thesis using filtered delivered step by (simp add: d spec split: if_splits)
  next
    case few
    then have "attempt_step (c_env c) (c_name c) i topic sub st =
        deliver_step (c_env c) (c_name c) i (attempt_of sub i 0 + 1) topic (attempted i sub) st"
      by (simp add: attempt_step_def Let_def spec a)
    moreover have "attempts_within c (attempt_of sub i 0 + 1)" using few by (simp add: attempts_within_def not_less)
    ultimately show ?thesis using filtered delivered step by (simp add: d spec split: if_splits)
  next
    case gone
    then have "attempt_step (c_env c) (c_name c) i topic sub st =
        deliver_step (c_env c) (c_name c) i (attempt_of sub i 0 + 1) topic (attempted i sub) st"
      using i t by (simp add: attempt_step_def Let_def spec a)
    moreover have "hm_get (c_topics c) (d_topic dlq) = None"
      using gone(3) topics_extendD(1) [OF ext, of "d_topic dlq"] by (cases "hm_get (c_topics c) (d_topic dlq)") auto
    then have "attempts_within c (attempt_of sub i 0 + 1)" using gone by (simp add: attempts_within_def)
    ultimately show ?thesis using filtered delivered step by (simp add: d spec split: if_splits)
  next
    case move
    then have "attempt_step (c_env c) (c_name c) i topic sub st =
        Continue (dead_lettered c dlq dead_topic i sub st)"
      using i t by (simp add: attempt_step_def Let_def spec a dead_lettered_def acked_here_def nth_append)
    then show ?thesis using dead move step by simp
  qed
qed

section \<open>The invariant is kept\<close>

lemma topics_extend_trans:
  assumes "topics_extend a b" "topics_extend b c"
  shows "topics_extend a c"
  unfolding topics_extend_def
proof (intro allI)
  fix n
  show "case hm_get a n of None \<Rightarrow> hm_get c n = None
    | Some t \<Rightarrow> \<exists>t'. hm_get c n = Some t' \<and> topic_extends t t'"
  proof (cases "hm_get a n")
    case None
    then show ?thesis using topics_extendD(2) [OF assms(1)] topics_extendD(2) [OF assms(2)] by simp
  next
    case (Some t)
    then show ?thesis
      using topics_extendD(1) [OF assms(1) Some] topics_extendD(1) [OF assms(2)] topic_extends_trans
      by fastforce
  qed
qed

lemma pull_invD:
  assumes "pull_inv c st"
  shows "sub_ok (c_name c) (length (c_msgs c)) (pl_sub st)" "ss_spec (pl_sub st) = call_spec c"
    "ss_next_index (c_sub c) \<le> ss_next_index (pl_sub st)"
    "tracked (pl_sub st) = tracked (c_sub c) \<union> {ss_next_index (c_sub c)..<ss_next_index (pl_sub st)}"
    "ss_acked (c_sub c) \<subseteq> ss_acked (pl_sub st)"
    "set (leased_at (c_sub c)) \<subseteq> set (leased_at (pl_sub st))"
    "hm_get (ss_inflight (c_sub c)) k = Some v \<Longrightarrow> hm_get (ss_inflight (pl_sub st)) k = Some v"
    "i \<notin> ss_acked (pl_sub st) \<Longrightarrow> \<not> leased (pl_sub st) i \<Longrightarrow>
       hm_get (ss_attempts (pl_sub st)) i = hm_get (ss_attempts (c_sub c)) i"
    "fst ` set (ss_inflight (pl_sub st)) \<inter> e_uuid (c_env c) ` {pl_draws st..} = {}"
    "topics_extend (c_topics c) (pl_topics st)" "hm_ok (pl_topics st)"
    "\<exists>t xs. hm_get (pl_topics st) (c_topic c) = Some t \<and> ts_messages t = c_msgs c @ xs"
    "i \<in> pl_skipped st \<Longrightarrow> i < length (c_msgs c) \<and> s_enable_message_ordering (call_spec c) \<and>
         earlier_unacked (ss_acked (c_sub c)) (c_msgs c) i"
    "distinct (map dv_ack_id (pl_deliveries st))"
    "d \<in> set (pl_deliveries st) \<Longrightarrow> delivered_ok c (pl_sub st) d"
  by (insert assms, unfold pull_inv_def, (elim conjE, assumption | blast)+)

lemma leased_of_inflight: "hm_get (ss_inflight sub) k = Some v \<Longrightarrow> leased sub (if_topic_index v)"
  by (drule hm_get_SomeD) (force simp: leased_def list_ex_iff hm_values_def)

lemma delivered_ok_mono:
  assumes d: "delivered_ok c sub d"
    and "\<And>k v. hm_get (ss_inflight sub) k = Some v \<Longrightarrow> hm_get (ss_inflight sub') k = Some v"
    and "ss_acked sub \<subseteq> ss_acked sub'"
    and "\<And>j. leased sub j \<Longrightarrow> hm_get (ss_attempts sub') j = hm_get (ss_attempts sub) j"
  shows "delivered_ok c sub' d"
proof -
  from d obtain i where i: "i < length (c_msgs c)"
      "hm_get (ss_inflight sub) (dv_ack_id d) = Some (lease_of (c_env c) (c_sub c) i)"
      "dv_message d = c_msgs c ! i" "i \<notin> ss_acked (c_sub c)" "\<not> leased (c_sub c) i"
      "\<not> filter_rejects (call_spec c) (m_attributes (c_msgs c ! i))"
      "s_enable_message_ordering (call_spec c) \<longrightarrow> \<not> earlier_unacked (ss_acked sub) (c_msgs c) i"
      "dv_delivery_attempt d = attempt_of (c_sub c) i 0 + 1"
      "hm_get (ss_attempts sub) i = Some (dv_delivery_attempt d)"
      "attempts_within c (dv_delivery_attempt d)"
    unfolding delivered_ok_def by blast
  have "leased sub i" using leased_of_inflight [OF i(2)] by (simp add: lease_of_def)
  then have "hm_get (ss_attempts sub') i = Some (dv_delivery_attempt d)" using assms(4) i(9) by simp
  moreover have "s_enable_message_ordering (call_spec c) \<longrightarrow> \<not> earlier_unacked (ss_acked sub') (c_msgs c) i"
    using i(7) assms(3) earlier_unacked_anti by blast
  ultimately show ?thesis unfolding delivered_ok_def using i assms(2) [OF i(2)] by blast
qed

text \<open>
  A round that puts the index in hand somewhere keeps the invariant, provided it only adds
  leases and acknowledgements, and any new delivery is right.
\<close>

lemma pull_inv_round:
  assumes inv: "pull_inv c st"
    and p: "pick_index now (length (c_msgs c)) (pl_skipped st) (pl_sub st) = Some (i, sub)"
    and ok: "sub_ok (c_name c) (length (c_msgs c)) (pl_sub st')"
    and tr: "tracked (pl_sub st') = insert i (tracked sub)"
    and frame: "ss_spec (pl_sub st') = ss_spec sub" "ss_next_index (pl_sub st') = ss_next_index sub"
      "ss_acked sub \<subseteq> ss_acked (pl_sub st')"
    and leases: "\<And>k v. hm_get (ss_inflight sub) k = Some v \<Longrightarrow> hm_get (ss_inflight (pl_sub st')) k = Some v"
    and att: "\<And>j. j \<noteq> i \<Longrightarrow> hm_get (ss_attempts (pl_sub st')) j = hm_get (ss_attempts sub) j"
      "i \<notin> ss_acked (pl_sub st') \<Longrightarrow> \<not> leased (pl_sub st') i \<Longrightarrow>
         hm_get (ss_attempts (pl_sub st')) i = hm_get (ss_attempts sub) i"
    and keys: "fst ` set (ss_inflight (pl_sub st')) \<inter> e_uuid (c_env c) ` {pl_draws st'..} = {}"
    and topics: "topics_extend (pl_topics st) (pl_topics st')" "hm_ok (pl_topics st')"
    and skip: "\<And>j. j \<in> pl_skipped st' \<Longrightarrow> j \<in> pl_skipped st \<or> (j < length (c_msgs c)
       \<and> s_enable_message_ordering (call_spec c) \<and> earlier_unacked (ss_acked (pl_sub st)) (c_msgs c) j)"
    and dels: "pl_deliveries st' = pl_deliveries st
      \<or> (\<exists>d. pl_deliveries st' = pl_deliveries st @ [d] \<and> delivered_ok c (pl_sub st') d
            \<and> hm_get (ss_inflight sub) (dv_ack_id d) = None)"
  shows "pull_inv c st'"
proof -
  note I = pull_invD [OF inv]
  note P = pick_index_picked [OF I(1) p]
  have same: "ss_spec sub = ss_spec (pl_sub st)" "ss_acked sub = ss_acked (pl_sub st)"
    "ss_attempts sub = ss_attempts (pl_sub st)" "ss_inflight sub = ss_inflight (pl_sub st)"
    using P(4) by auto
  have lsd: "leased sub j \<longleftrightarrow> leased (pl_sub st) j" for j by (simp add: leased_def same)
  have up: "leased (pl_sub st') j" if j: "leased sub j" for j
  proof -
    from j obtain k v where "(k, v) \<in> set (ss_inflight sub)" "if_topic_index v = j"
      by (auto simp: leased_def list_ex_iff hm_values_def)
    then have "hm_get (ss_inflight sub) k = Some v"
      using hm_get_iff sub_okD(1) [OF I(1)] same(4) by metis
    then show ?thesis using leased_of_inflight [OF leases] \<open>if_topic_index v = j\<close> by blast
  qed
  have inot: "\<not> leased sub i" using P(1) by (auto simp: picked_def leased_iff tracked_def live_def)
  have c4: "tracked (pl_sub st') =
      tracked (c_sub c) \<union> {ss_next_index (c_sub c)..<ss_next_index (pl_sub st')}"
    using tr P(2,3) I(3,4) frame(2) by auto
  have c8: "hm_get (ss_attempts (pl_sub st')) j = hm_get (ss_attempts (c_sub c)) j"
    if "j \<notin> ss_acked (pl_sub st')" "\<not> leased (pl_sub st') j" for j
  proof -
    have "hm_get (ss_attempts (pl_sub st')) j = hm_get (ss_attempts sub) j"
      using att that by (cases "j = i") auto
    moreover have "j \<notin> ss_acked (pl_sub st)" "\<not> leased (pl_sub st) j"
      using that frame(3) same(2) up lsd by auto
    ultimately show ?thesis using I(8) same(3) by simp
  qed
  have c12: "\<exists>t xs. hm_get (pl_topics st') (c_topic c) = Some t \<and> ts_messages t = c_msgs c @ xs"
  proof -
    obtain t xs where t: "hm_get (pl_topics st) (c_topic c) = Some t" "ts_messages t = c_msgs c @ xs"
      using I(12) by blast
    obtain t' where "hm_get (pl_topics st') (c_topic c) = Some t'" "topic_extends t t'"
      using topics_extendD(1) [OF topics(1) t(1)] by blast
    then show ?thesis using t(2) by (auto simp: topic_extends_def)
  qed
  have old: "delivered_ok c (pl_sub st') d" if "d \<in> set (pl_deliveries st)" for d
  proof (rule delivered_ok_mono [OF I(15) [OF that]])
    show "hm_get (ss_inflight (pl_sub st')) k = Some v" if "hm_get (ss_inflight (pl_sub st)) k = Some v" for k v
      using leases that same(4) by simp
    show "ss_acked (pl_sub st) \<subseteq> ss_acked (pl_sub st')" using frame(3) same(2) by simp
    show "hm_get (ss_attempts (pl_sub st')) j = hm_get (ss_attempts (pl_sub st)) j"
      if "leased (pl_sub st) j" for j
      using att(1) [of j] that inot lsd same(3) by (cases "j = i") auto
  qed
  have c15: "distinct (map dv_ack_id (pl_deliveries st')) \<and> (\<forall>d \<in> set (pl_deliveries st'). delivered_ok c (pl_sub st') d)"
    using dels
  proof
    assume "pl_deliveries st' = pl_deliveries st"
    then show ?thesis using I(14) old by simp
  next
    assume "\<exists>d. pl_deliveries st' = pl_deliveries st @ [d] \<and> delivered_ok c (pl_sub st') d
            \<and> hm_get (ss_inflight sub) (dv_ack_id d) = None"
    then obtain d where d: "pl_deliveries st' = pl_deliveries st @ [d]" "delivered_ok c (pl_sub st') d"
      "hm_get (ss_inflight sub) (dv_ack_id d) = None" by blast
    have "dv_ack_id d \<noteq> dv_ack_id d'" if "d' \<in> set (pl_deliveries st)" for d'
      using I(15) [OF that] d(3) same(4) by (auto simp: delivered_ok_def)
    then show ?thesis using d(1,2) I(14) old by auto
  qed
  have c6: "set (leased_at (c_sub c)) \<subseteq> set (leased_at (pl_sub st'))"
    using I(6) up lsd by (auto simp: leased_iff)
  have c13: "\<forall>j \<in> pl_skipped st'. j < length (c_msgs c) \<and> s_enable_message_ordering (call_spec c) \<and>
         earlier_unacked (ss_acked (c_sub c)) (c_msgs c) j"
    using skip I(5) I(13) earlier_unacked_anti by blast
  have c3: "ss_next_index (c_sub c) \<le> ss_next_index (pl_sub st')" using I(3) P(3) frame(2) by simp
  have c2: "ss_spec (pl_sub st') = call_spec c" using I(2) same(1) frame(1) by simp
  have c5: "ss_acked (c_sub c) \<subseteq> ss_acked (pl_sub st')" using I(5) same(2) frame(3) by auto
  have c7: "\<forall>k v. hm_get (ss_inflight (c_sub c)) k = Some v \<longrightarrow> hm_get (ss_inflight (pl_sub st')) k = Some v"
    using I(7) leases same(4) by simp
  have c10: "topics_extend (c_topics c) (pl_topics st')" by (rule topics_extend_trans [OF I(10) topics(1)])
  show ?thesis
    unfolding pull_inv_def
    by (intro conjI allI impI ok c2 c3 c4 c5 c6 c8 keys c10 topics(2) c12 c13
        c7 [rule_format] c15 [THEN conjunct1] c15 [THEN conjunct2])
qed

end
