(* ===== verification/Pull_Rounds.thy ===== *)
theory Pull_Rounds
  imports Pull_Loop
begin

text \<open>
  Each round of the delivery loop keeps the invariant and never panics; the whole call.
\<close>

section \<open>The four rounds\<close>

lemma no_later_uuid:
  assumes "K \<inter> e_uuid e ` {n..} = {}" "n \<le> m"
  shows "K \<inter> e_uuid e ` {m..} = {}"
proof -
  have "e_uuid e ` {m..} \<subseteq> e_uuid e ` {n..}" using assms(2) by (intro image_mono) auto
  then show ?thesis using assms(1) by blast
qed

lemma pull_inv_blocked:
  assumes inv: "pull_inv c st"
    and p: "pick_index now (length (c_msgs c)) (pl_skipped st) (pl_sub st) = Some (i, sub)"
    and b: "i < length (c_msgs c)" "s_enable_message_ordering (call_spec c)"
      "earlier_unacked (ss_acked sub) (c_msgs c) i"
  shows "pull_inv c (blocked_state c i sub st)"
proof -
  note I = pull_invD [OF inv]
  note P = pick_index_picked [OF I(1) p]
  let ?x = "\<lparr>re_topic_index = i, re_available_at = e_now (c_env c)\<rparr>"
  have q: "sub_ok (c_name c) (length (c_msgs c)) (sub\<lparr>ss_retry_queue := ss_retry_queue sub @ [?x]\<rparr>)"
    "tracked (sub\<lparr>ss_retry_queue := ss_retry_queue sub @ [?x]\<rparr>) = insert i (tracked sub)"
    using picked_queue [OF P(1), of ?x] by simp_all
  show ?thesis
    by (rule pull_inv_round [OF inv p])
      (use q b P(4) I(9,11) in \<open>auto simp: blocked_state_def\<close>)
qed

lemma pull_inv_acked:
  assumes inv: "pull_inv c st"
    and p: "pick_index now (length (c_msgs c)) (pl_skipped st) (pl_sub st) = Some (i, sub)"
    and st': "pl_sub st' = acked_here i (attempted i sub)" "pl_skipped st' = pl_skipped st"
      "pl_deliveries st' = pl_deliveries st" "pl_draws st \<le> pl_draws st'"
      "topics_extend (pl_topics st) (pl_topics st')" "hm_ok (pl_topics st')"
  shows "pull_inv c st'"
proof -
  note I = pull_invD [OF inv]
  note P = pick_index_picked [OF I(1) p]
  note q = picked_ack [OF picked_attempted [OF P(1)], folded acked_here_def]
  have "fst ` set (ss_inflight sub) \<inter> e_uuid (c_env c) ` {pl_draws st'..} = {}"
    using no_later_uuid [OF I(9) st'(4)] P(4) by simp
  then show ?thesis
    by (intro pull_inv_round [OF inv p]) (use q st' in \<open>auto\<close>)
qed

lemma pull_inv_delivered:
  assumes inv: "pull_inv c st" and fresh: "env_fresh (c_env c) U"
    and p: "pick_index now (length (c_msgs c)) (pl_skipped st) (pl_sub st) = Some (i, sub)"
    and i: "\<not> filter_rejects (call_spec c) (m_attributes (c_msgs c ! i))"
      "attempts_within c (attempt_of sub i 0 + 1)"
      "s_enable_message_ordering (call_spec c) \<longrightarrow> \<not> earlier_unacked (ss_acked sub) (c_msgs c) i"
  shows "pull_inv c (delivered_state c (fst (ack_key c i sub st)) (snd (ack_key c i sub st)) i sub st)"
proof -
  note I = pull_invD [OF inv]
  note P = pick_index_picked [OF I(1) p]
  note A = picked_attempted [OF P(1)]
  obtain k draws where k: "ack_key c i sub st = (k, draws)" by (cases "ack_key c i sub st")
  have P': "sub_ok (c_name c) (length (c_msgs c)) sub" "i \<notin> tracked sub" "i < ss_next_index sub"
    using P(1) by (auto simp: picked_def)
  have same: "ss_spec sub = call_spec c" "ss_acked sub = ss_acked (pl_sub st)"
    "ss_attempts sub = ss_attempts (pl_sub st)" "ss_inflight sub = ss_inflight (pl_sub st)"
    using P(4) I(2) by auto
  have kf: "hm_get (ss_inflight sub) k = None \<and> lease_key_ok (c_name c) k i \<and> pl_draws st \<le> draws
      \<and> insert k (fst ` set (ss_inflight sub)) \<inter> e_uuid (c_env c) ` {draws..} = {}"
  proof (cases "s_enable_exactly_once_delivery (ss_spec sub)")
    case True
    then have k': "k = exactly_once_key (c_name c) i (unat (attempt_of sub i 0 + 1))" "draws = pl_draws st"
      using k by (auto simp: ack_key_def)
    have "CHR '':'' \<in> set k" by (simp add: k'(1) exactly_once_key_def)
    then have "k \<notin> e_uuid (c_env c) ` {draws..}" using fresh by (auto simp: env_fresh_def)
    moreover have "hm_get (ss_inflight sub) k = None"
      unfolding k'(1) by (rule exactly_once_key_fresh [OF P'(1,2)])
    moreover have "lease_key_ok (c_name c) k i"
      by (auto simp: lease_key_ok_def k'(1) exactly_once_key_def)
    ultimately show ?thesis using I(9) same(4) k'(2) by auto
  next
    case False
    then have k': "k = e_uuid (c_env c) (pl_draws st)" "draws = Suc (pl_draws st)"
      using k by (auto simp: ack_key_def)
    have "k \<notin> fst ` set (ss_inflight sub)" using I(9) k'(1) same(4) by auto
    then have "hm_get (ss_inflight sub) k = None" by (simp add: hm_get_None_iff)
    moreover have "lease_key_ok (c_name c) k i" using fresh by (simp add: lease_key_ok_def k'(1) env_fresh_def)
    moreover have "inj (e_uuid (c_env c))" using fresh by (simp add: env_fresh_def)
    then have "k \<notin> e_uuid (c_env c) ` {draws..}" using k' by (auto dest: injD)
    moreover have "fst ` set (ss_inflight sub) \<inter> e_uuid (c_env c) ` {draws..} = {}"
      using no_later_uuid [OF I(9), of draws] same(4) k'(2) by simp
    ultimately show ?thesis using k'(2) by auto
  qed
  have lease: "sub_ok (c_name c) (length (c_msgs c)) (leased_here (c_env c) k i (attempted i sub))"
    "tracked (leased_here (c_env c) k i (attempted i sub)) = insert i (tracked sub)"
    using picked_lease [OF A, of k "lease_of (c_env c) (attempted i sub) i"] kf
    by (simp_all add: leased_here_def lease_of_def)
  let ?sub = "leased_here (c_env c) k i (attempted i sub)"
  have "i \<notin> ss_acked (pl_sub st)" "\<not> leased (pl_sub st) i"
    using P'(2) same(2,4) by (auto simp: tracked_def live_def leased_iff leased_at_def)
  then have old: "hm_get (ss_attempts sub) i = hm_get (ss_attempts (c_sub c)) i"
    "i \<notin> ss_acked (c_sub c)" "\<not> leased (c_sub c) i"
    using I(5,6) I(8) [of i] same(3) by (auto simp: leased_iff)
  have att: "attempt_of sub i 0 = attempt_of (c_sub c) i 0" using old(1) by (simp add: attempt_of_def)
  have lo: "lease_of (c_env c) (attempted i sub) i = lease_of (c_env c) (c_sub c) i"
    using same(1) by (simp add: lease_of_def call_spec_def)
  have "i < length (c_msgs c)" using P'(3) sub_okD(4) [OF P'(1)] by simp
  then have d: "delivered_ok c ?sub (delivery_of c k i sub)"
    unfolding delivered_ok_def using old i att by (intro exI [of _ i]) (simp add: delivery_of_def lo)
  have leases: "hm_get (ss_inflight ?sub) k' = Some v" if "hm_get (ss_inflight sub) k' = Some v" for k' v
    using that kf by auto
  have keys: "fst ` set (ss_inflight ?sub) \<inter> e_uuid (c_env c) ` {draws..} = {}"
    using kf by (auto simp: hm_insert_fresh)
  have lsd: "leased ?sub i" using kf by (simp add: leased_def list_ex_iff hm_insert_fresh hm_values_def lease_of_def)
  show ?thesis
    unfolding k fst_conv snd_conv
    by (rule pull_inv_round [OF inv p])
      (use lease d leases keys lsd kf I(11) in \<open>auto simp: delivered_state_def delivery_of_def\<close>)
qed

section \<open>A round\<close>

text \<open>
  The four rounds as a relation on loop states, with what holds of each; a round of the
  loop is one of them, or the loop is at its end.
\<close>

inductive round :: "call \<Rightarrow> pull_state \<Rightarrow> pull_state \<Rightarrow> bool" for c st where
  blocked: "\<lbrakk>pick_index (e_now (c_env c)) (length (c_msgs c)) (pl_skipped st) (pl_sub st) = Some (i, sub);
     i < length (c_msgs c); s_enable_message_ordering (call_spec c);
     earlier_unacked (ss_acked sub) (c_msgs c) i\<rbrakk>
   \<Longrightarrow> round c st (blocked_state c i sub st)"
| dead: "\<lbrakk>pick_index (e_now (c_env c)) (length (c_msgs c)) (pl_skipped st) (pl_sub st) = Some (i, sub);
     s_dead_letter (call_spec c) = Some dlq; hm_get (pl_topics st) (d_topic dlq) = Some dead_topic;
     clamp (d_max_delivery_attempts dlq) 5 100 < attempt_of sub i 0 + 1\<rbrakk>
   \<Longrightarrow> round c st (dead_lettered c dlq dead_topic i sub st)"
| filtered: "\<lbrakk>pick_index (e_now (c_env c)) (length (c_msgs c)) (pl_skipped st) (pl_sub st) = Some (i, sub);
     filter_rejects (call_spec c) (m_attributes (c_msgs c ! i))\<rbrakk>
   \<Longrightarrow> round c st (st\<lparr>pl_sub := acked_here i (attempted i sub)\<rparr>)"
| delivered: "\<lbrakk>pick_index (e_now (c_env c)) (length (c_msgs c)) (pl_skipped st) (pl_sub st) = Some (i, sub);
     \<not> filter_rejects (call_spec c) (m_attributes (c_msgs c ! i));
     attempts_within c (attempt_of sub i 0 + 1);
     s_enable_message_ordering (call_spec c) \<longrightarrow> \<not> earlier_unacked (ss_acked sub) (c_msgs c) i\<rbrakk>
   \<Longrightarrow> round c st
        (delivered_state c (fst (ack_key c i sub st)) (snd (ack_key c i sub st)) i sub st)"

lemma pull_step_round:
  assumes inv: "pull_inv c st"
  shows "(pull_step (c_env c) (c_name c) (c_topic c) (length (c_msgs c)) st = Break
     \<and> pick_index (e_now (c_env c)) (length (c_msgs c)) (pl_skipped st) (pl_sub st) = None)
    \<or> (\<exists>st'. pull_step (c_env c) (c_name c) (c_topic c) (length (c_msgs c)) st = Continue st'
         \<and> round c st st')"
proof -
  note I = pull_invD [OF inv]
  let ?step = "pull_step (c_env c) (c_name c) (c_topic c) (length (c_msgs c)) st"
  show ?thesis
  proof (cases "pick_index (e_now (c_env c)) (length (c_msgs c)) (pl_skipped st) (pl_sub st)")
    case None
    then show ?thesis by (simp add: pull_step_def)
  next
    case (Some q)
    obtain i sub where "q = (i, sub)" by (cases q)
    with Some have p: "pick_index (e_now (c_env c)) (length (c_msgs c)) (pl_skipped st) (pl_sub st) = Some (i, sub)"
      by simp
    note P = pick_index_picked [OF I(1) p]
    have P': "sub_ok (c_name c) (length (c_msgs c)) sub" "i \<notin> tracked sub" "i < ss_next_index sub"
      using P(1) by (auto simp: picked_def)
    have len: "i < length (c_msgs c)" using P'(3) sub_okD(4) [OF P'(1)] by simp
    have spec: "ss_spec sub = call_spec c" using P(4) I(2) by simp
    have new: "\<not> (i \<in> ss_acked sub \<or> leased sub i)"
      using P'(2) by (auto simp: tracked_def live_def leased_iff)
    obtain t xs where t: "hm_get (pl_topics st) (c_topic c) = Some t" "ts_messages t = c_msgs c @ xs"
      using I(12) by blast
    define b where "b = (s_enable_message_ordering (call_spec c) \<and> earlier_unacked (ss_acked sub) (c_msgs c) i)"
    have "ordering_blocked sub t i (e_now (c_env c)) = Ok b"
      using ordering_blocked_iff [of i t sub] len by (simp add: t(2) spec earlier_unacked_append b_def)
    then have step: "?step =
        (if b then Continue (blocked_state c i sub st)
         else attempt_step (c_env c) (c_name c) i t sub st)"
      using p new t(1) by (simp add: pull_step_def blocked_state_def)
    show ?thesis
    proof (cases b)
      case True
      then show ?thesis using step round.blocked [OF p len] by (simp add: b_def)
    next
      case False
      show ?thesis
        using len t(2) spec I(10) refl
      proof (cases rule: attempt_step_cases [where st = st])
        case (dead dlq dead_topic)
        then show ?thesis using step False round.dead [OF p dead(1-3)] by simp
      next
        case filtered
        then show ?thesis using step False round.filtered [OF p filtered(1)] by simp
      next
        case delivered
        then show ?thesis
          using step False round.delivered [OF p delivered(1,2)] by (auto simp: b_def)
      qed
    qed
  qed
qed

lemma round_inv:
  assumes inv: "pull_inv c st" and fresh: "env_fresh (c_env c) U" and r: "round c st st'"
  shows "pull_inv c st'"
  using r
proof cases
  case (blocked i sub)
  then show ?thesis using pull_inv_blocked [OF inv] by blast
next
  case (dead i sub dlq dead_topic)
  have "topics_extend (pl_topics st) (pl_topics (dead_lettered c dlq dead_topic i sub st))"
    unfolding dead_lettered_def
    using topics_extend_insert [OF topics_extend_refl dead(4)] by (simp add: topic_extends_def)
  then show ?thesis
    unfolding dead(1) using pull_invD(11) [OF inv]
    by (intro pull_inv_acked [OF inv dead(2)]) (simp_all add: dead_lettered_def)
next
  case (filtered i sub)
  then show ?thesis
    using pull_invD(11) [OF inv] by (intro pull_inv_acked [OF inv filtered(2)]) simp_all
next
  case (delivered i sub)
  then show ?thesis using pull_inv_delivered [OF inv fresh delivered(2-5)] by simp
qed

section \<open>The loop\<close>

lemma deliver_step_deliveries:
  "deliver_step e n i a t sub st = Continue st' \<Longrightarrow>
     length (pl_deliveries st') \<le> Suc (length (pl_deliveries st))"
  by (auto simp: deliver_step_def Let_def split: if_splits)

lemma attempt_step_deliveries:
  "attempt_step e n i t sub st = Continue st' \<Longrightarrow>
     length (pl_deliveries st') \<le> Suc (length (pl_deliveries st))"
  by (auto simp: attempt_step_def Let_def dest: deliver_step_deliveries split: option.splits if_splits)

lemma pull_step_deliveries:
  "pull_step e n tn len st = Continue st' \<Longrightarrow>
     length (pl_deliveries st') \<le> Suc (length (pl_deliveries st))"
  by (auto simp: pull_step_def dest: attempt_step_deliveries
      split: option.splits prod.splits if_splits res.splits bool.splits)

text \<open>
  The rule for the loop: what every round keeps holds at the end, and the loop ends with
  the limit reached or nothing left to pick.
\<close>

lemma pull_loop_rule:
  assumes "pull_inv c st" "env_fresh (c_env c) U" "length (pl_deliveries st) \<le> limit" "P st"
    and keep: "\<And>st st'. pull_inv c st \<Longrightarrow> P st \<Longrightarrow> round c st st' \<Longrightarrow> P st'"
  shows "\<exists>st'. pull_loop (c_env c) (c_name c) (c_topic c) (length (c_msgs c)) limit st = Some st'
    \<and> pull_inv c st' \<and> P st' \<and> length (pl_deliveries st') \<le> limit
    \<and> (length (pl_deliveries st') < limit \<longrightarrow>
         pick_index (e_now (c_env c)) (length (c_msgs c)) (pl_skipped st') (pl_sub st') = None)"
  using assms(1-4)
proof (induction "c_env c" "c_name c" "c_topic c" "length (c_msgs c)" limit st
    rule: pull_loop.induct)
  case (1 limit st)
  let ?step = "pull_step (c_env c) (c_name c) (c_topic c) (length (c_msgs c)) st"
  show ?case
  proof (cases "length (pl_deliveries st) < limit")
    case False
    then show ?thesis using "1.prems" by (subst pull_loop.simps) auto
  next
    case True
    from pull_step_round [OF "1.prems"(1)] show ?thesis
    proof
      assume "?step = Break
        \<and> pick_index (e_now (c_env c)) (length (c_msgs c)) (pl_skipped st) (pl_sub st) = None"
      then show ?thesis using "1.prems" True by (subst pull_loop.simps) simp
    next
      assume "\<exists>st'. ?step = Continue st' \<and> round c st st'"
      then obtain st' where st': "?step = Continue st'" "round c st st'" by blast
      have inv: "pull_inv c st'" by (rule round_inv [OF "1.prems"(1,2) st'(2)])
      have "length (pl_deliveries st') \<le> limit"
        using pull_step_deliveries [OF st'(1)] True by simp
      from "1.hyps" [OF True st'(1) inv "1.prems"(2) this keep [OF "1.prems"(1,4) st'(2)]]
      show ?thesis using True st'(1) by (subst pull_loop.simps) simp
    qed
  qed
qed

section \<open>Where the changes come from\<close>

text \<open>The delivery attempts of an index are used up, and there is a topic to move it to.\<close>

definition exhausted :: "call \<Rightarrow> nat \<Rightarrow> bool" where
  "exhausted c i =
     (case s_dead_letter (call_spec c) of
        None \<Rightarrow> False
      | Some dlq \<Rightarrow> hm_get (c_topics c) (d_topic dlq) \<noteq> None
          \<and> clamp (d_max_delivery_attempts dlq) 5 100 < attempt_of (c_sub c) i 0 + 1)"

text \<open>Its copy in the dead-letter topic.\<close>

definition dead_copy :: "call \<Rightarrow> nat \<Rightarrow> relay_message \<Rightarrow> bool" where
  "dead_copy c i m =
     (m_data m = m_data (c_msgs c ! i) \<and> m_ordering_key m = m_ordering_key (c_msgs c ! i) \<and>
      hm_get (m_attributes m) ''x-zyvor-original-message-id'' = Some (m_id (c_msgs c ! i)) \<and>
      hm_get (m_attributes m) ''x-zyvor-dead-letter-source'' = Some (c_name c))"

definition dead_stored :: "call \<Rightarrow> (string, topic_state) hmap \<Rightarrow> nat \<Rightarrow> bool" where
  "dead_stored c topics i =
     (\<exists>dlq u m. s_dead_letter (call_spec c) = Some dlq \<and> hm_get topics (d_topic dlq) = Some u \<and>
        m \<in> set (ts_messages u) \<and> dead_copy c i m)"

lemma dead_stored_extend: "topics_extend m m' \<Longrightarrow> dead_stored c m i \<Longrightarrow> dead_stored c m' i"
  unfolding dead_stored_def using topics_extendD(1) [of m m'] by (fastforce simp: topic_extends_def)

definition pull_origin :: "call \<Rightarrow> pull_state \<Rightarrow> bool" where
  "pull_origin c st =
     ((\<forall>i \<in> ss_acked (pl_sub st). i \<in> ss_acked (c_sub c)
         \<or> filter_rejects (call_spec c) (m_attributes (c_msgs c ! i))
         \<or> exhausted c i \<and> dead_stored c (pl_topics st) i) \<and>
      (\<forall>k v. hm_get (ss_inflight (pl_sub st)) k = Some v \<longrightarrow>
         hm_get (ss_inflight (c_sub c)) k = Some v \<or> k \<in> dv_ack_id ` set (pl_deliveries st)) \<and>
      (\<forall>x \<in> set (ss_retry_queue (pl_sub st)).
         x \<in> set (ss_retry_queue (c_sub c)) \<or> re_topic_index x \<in> pl_skipped st))"

lemma pick_index_queue:
  "pick_index now len sk sub = Some (i, sub') \<Longrightarrow> set (ss_retry_queue sub') \<subseteq> set (ss_retry_queue sub)"
  by (erule pick_index_cases) (auto dest: in_set_takeD in_set_dropD)

lemma pull_origin_round:
  assumes inv: "pull_inv c st" and org: "pull_origin c st" and r: "round c st st'"
  shows "pull_origin c st'"
proof -
  note I = pull_invD [OF inv]
  have att: "attempt_of sub i 0 = attempt_of (c_sub c) i 0"
    if p: "pick_index (e_now (c_env c)) (length (c_msgs c)) (pl_skipped st) (pl_sub st) = Some (i, sub)"
    for i sub
  proof -
    note P = pick_index_picked [OF I(1) p]
    have "i \<notin> ss_acked (pl_sub st)" "\<not> leased (pl_sub st) i"
      using P(1,4) by (auto simp: picked_def tracked_def live_def leased_iff leased_at_def)
    then show ?thesis using I(8) [of i] P(4) by (simp add: attempt_of_def)
  qed
  note pic = pick_index_picked(4) [OF I(1)] pick_index_queue
  show ?thesis
    using r
  proof cases
    case (blocked i sub)
    then show ?thesis using org pic(1) [OF blocked(2)] pic(2) [OF blocked(2)]
      by (auto simp: pull_origin_def blocked_state_def)
  next
    case (dead i sub dlq dead_topic)
    have "hm_get (c_topics c) (d_topic dlq) \<noteq> None"
      using topics_extendD(2) [OF I(10), of "d_topic dlq"] dead(4) by fastforce
    then have ex: "exhausted c i" using dead(3,5) att [OF dead(2)] by (simp add: exhausted_def)
    have ext: "topics_extend (pl_topics st) (pl_topics st')"
      unfolding dead(1) dead_lettered_def
      using topics_extend_insert [OF topics_extend_refl dead(4)] by (simp add: topic_extends_def)
    have "dead_copy c i (dead_message (c_env c) (c_name c) st (c_msgs c ! i))"
      by (simp add: dead_copy_def dead_message_def)
    then have "dead_stored c (pl_topics st') i"
      unfolding dead_stored_def dead(1) using dead(3) by (fastforce simp: dead_lettered_def)
    then show ?thesis
      using dead(1) org pic(1) [OF dead(2)] pic(2) [OF dead(2)] ex dead_stored_extend [OF ext]
      by (auto simp: pull_origin_def dead_lettered_def acked_here_def)
  next
    case (filtered i sub)
    then show ?thesis using org pic(1) [OF filtered(2)] pic(2) [OF filtered(2)]
      by (auto simp: pull_origin_def acked_here_def)
  next
    case (delivered i sub)
    then show ?thesis using org pic(1) [OF delivered(2)] pic(2) [OF delivered(2)]
      by (auto simp: pull_origin_def delivered_state_def delivery_of_def leased_here_def)
  qed
qed

end
