(* ===== verification/Publish_Correct.thy ===== *)
theory Publish_Correct
  imports Pull_Correct
begin

text \<open>
  Publish: the batch is appended in order, one identifier per message; a client's
  identifier is stored once; a bound schema is enforced before anything is stored.
\<close>

section \<open>The identifiers a topic has seen\<close>

definition seen_ok :: "topic_state \<Rightarrow> bool" where
  "seen_ok t =
     (hm_ok (ts_seen_ids t) \<and>
      (\<forall>k v. hm_get (ts_seen_ids t) k = Some v \<longrightarrow>
         v = k \<and> k \<noteq> [] \<and> (\<exists>m \<in> set (ts_messages t). m_id m = k)))"

lemma seen_okD:
  assumes "seen_ok t" "hm_get (ts_seen_ids t) k = Some v"
  shows "v = k" "k \<noteq> []" "\<exists>m \<in> set (ts_messages t). m_id m = k"
  using assms by (auto simp: seen_ok_def)

lemma seen_ok_new [simp]: "seen_ok (new_topic_state spec)"
  by (simp add: seen_ok_def new_topic_state_def)

lemma seen_ok_spec [simp]: "seen_ok (t\<lparr>ts_spec := x\<rparr>) = seen_ok t"
  by (simp add: seen_ok_def)

lemma seen_ok_more: "seen_ok t \<Longrightarrow> seen_ok (t\<lparr>ts_messages := ts_messages t @ xs\<rparr>)"
  by (fastforce simp: seen_ok_def)

lemma client_id_enrich [simp]: "client_id_of (enrich_message jp topic m) = client_id_of m"
proof -
  have "hm_get (n_attributes (enrich_message jp topic m)) ''idempotency_key''
      = hm_get (n_attributes m) ''idempotency_key''"
    by (rule enrich_other) (auto simp: ce_keys_def)
  then show ?thesis by (simp add: client_id_of_def)
qed

lemma append_message_sel [simp]:
  "ts_spec (append_message e mid m t) = ts_spec t"
  "ts_messages (append_message e mid m t) = ts_messages t @ [stored_message e mid m]"
  "ts_seen_ids (append_message e mid m t) =
     (if client_id_of m \<noteq> [] then hm_insert (client_id_of m) mid (ts_seen_ids t) else ts_seen_ids t)"
  by (simp_all add: append_message_def)

lemma append_message_seen:
  assumes "seen_ok t" "client_id_of m \<noteq> [] \<Longrightarrow> mid = client_id_of m"
  shows "seen_ok (append_message e mid m t)"
  unfolding seen_ok_def append_message_sel
  using assms seen_okD [OF assms(1)]
  by (auto simp: seen_ok_def stored_message_def split: if_splits)

section \<open>The loop over the batch\<close>

lemma publish_loop_Cons:
  "publish_loop e topic k (m # ms) t =
     (if client_id_of m \<noteq> [] \<and> hm_get (ts_seen_ids t) (client_id_of m) \<noteq> None
      then (the (hm_get (ts_seen_ids t) (client_id_of m)) # fst (publish_loop e topic k ms t),
            snd (publish_loop e topic k ms t))
      else
        let mid = (if client_id_of m = [] then e_uuid e k else client_id_of m);
            r = publish_loop e topic (if client_id_of m = [] then Suc k else k) ms
                  (append_message e mid (enrich_message (e_json e) topic m) t)
        in (mid # fst r, snd r))"
  by (auto simp: Let_def case_prod_beta split: option.splits)

declare publish_loop.simps(2) [simp del]

lemma topic_extends_append: "topic_extends t (append_message e mid m t)"
  by (simp add: topic_extends_def)

text \<open>
  What every message stored by a batch is: its number, its payload and key from one of the
  messages of the batch, its time the call's.
\<close>

definition stored_from :: "env \<Rightarrow> string \<Rightarrow> new_message list \<Rightarrow> relay_message \<Rightarrow> bool" where
  "stored_from e topic ms x =
     (\<exists>m \<in> set ms. m_data x = n_data m \<and> m_ordering_key x = n_ordering_key m
        \<and> m_attributes x = n_attributes (enrich_message (e_json e) topic m)
        \<and> m_published_at x = e_now e \<and> (client_id_of m \<noteq> [] \<longrightarrow> m_id x = client_id_of m))"

lemma stored_from_mono: "stored_from e topic ms x \<Longrightarrow> stored_from e topic (m # ms) x"
  by (auto simp: stored_from_def)

lemma publish_loop_spec:
  assumes "seen_ok t" "publish_loop e topic k ms t = (ids, t')"
  shows "length ids = length ms \<and> seen_ok t' \<and> ts_spec t' = ts_spec t
    \<and> (\<exists>xs. ts_messages t' = ts_messages t @ xs \<and> length xs \<le> length ms
          \<and> (\<forall>x \<in> set xs. stored_from e topic ms x))
    \<and> set ids \<subseteq> m_id ` set (ts_messages t')
    \<and> (\<forall>i < length ms. client_id_of (ms ! i) \<noteq> [] \<longrightarrow>
         ids ! i = client_id_of (ms ! i) \<and> hm_get (ts_seen_ids t') (client_id_of (ms ! i)) \<noteq> None)
    \<and> (\<forall>c. hm_get (ts_seen_ids t) c \<noteq> None \<longrightarrow> hm_get (ts_seen_ids t') c \<noteq> None)"
  using assms
proof (induction ms arbitrary: k t ids t')
  case Nil
  then show ?case by auto
next
  case (Cons m ms)
  show ?case
  proof (cases "client_id_of m \<noteq> [] \<and> hm_get (ts_seen_ids t) (client_id_of m) \<noteq> None")
    case True
    then obtain v where v: "hm_get (ts_seen_ids t) (client_id_of m) = Some v" by auto
    obtain ids1 where r: "publish_loop e topic k ms t = (ids1, t')" and ids: "ids = v # ids1"
      using Cons.prems(2) True v by (cases "publish_loop e topic k ms t") (auto simp: publish_loop_Cons)
    note IH = Cons.IH [OF Cons.prems(1) r]
    obtain x where x: "x \<in> set (ts_messages t)" "m_id x = v" and vc: "v = client_id_of m"
      using seen_okD [OF Cons.prems(1) v] by blast
    have "set (ts_messages t) \<subseteq> set (ts_messages t')" using IH by auto
    with x have "v \<in> m_id ` set (ts_messages t')" by blast
    moreover have "hm_get (ts_seen_ids t') (client_id_of m) \<noteq> None" using IH True by blast
    moreover have "\<exists>xs. ts_messages t' = ts_messages t @ xs \<and> length xs \<le> length (m # ms)
          \<and> (\<forall>x \<in> set xs. stored_from e topic (m # ms) x)"
      using IH stored_from_mono by fastforce
    ultimately show ?thesis using IH ids vc by (auto simp: nth_Cons split: nat.splits)
  next
    case False
    define mid where "mid = (if client_id_of m = [] then e_uuid e k else client_id_of m)"
    define em where "em = enrich_message (e_json e) topic m"
    define t1 where "t1 = append_message e mid em t"
    obtain ids1 where r: "publish_loop e topic (if client_id_of m = [] then Suc k else k) ms t1 = (ids1, t')"
      and ids: "ids = mid # ids1"
      using Cons.prems(2) False
      by (cases "publish_loop e topic (if client_id_of m = [] then Suc k else k) ms t1")
        (auto simp: publish_loop_Cons Let_def mid_def em_def t1_def split: if_splits)
    have ce: "client_id_of em = client_id_of m" by (simp add: em_def)
    have ok1: "seen_ok t1" unfolding t1_def
      by (rule append_message_seen [OF Cons.prems(1)]) (simp add: ce mid_def)
    note IH = Cons.IH [OF ok1 r]
    have m1: "ts_messages t1 = ts_messages t @ [stored_message e mid em]" "ts_spec t1 = ts_spec t"
      by (simp_all add: t1_def)
    have st: "stored_from e topic (m # ms) (stored_message e mid em)"
      unfolding stored_from_def
      by (intro bexI [of _ m]) (simp_all add: stored_message_def em_def mid_def)
    have seen1: "client_id_of m \<noteq> [] \<Longrightarrow> hm_get (ts_seen_ids t1) (client_id_of m) \<noteq> None"
      by (simp add: t1_def ce)
    have seen0: "hm_get (ts_seen_ids t1) c \<noteq> None" if "hm_get (ts_seen_ids t) c \<noteq> None" for c
      using that by (auto simp: t1_def)
    have "mid \<in> m_id ` set (ts_messages t')" using IH m1 by (force simp: stored_message_def)
    moreover have "\<exists>xs. ts_messages t' = ts_messages t @ xs \<and> length xs \<le> length (m # ms)
          \<and> (\<forall>x \<in> set xs. stored_from e topic (m # ms) x)"
    proof -
      obtain xs where xs: "ts_messages t' = ts_messages t1 @ xs" "length xs \<le> length ms"
        "\<forall>x \<in> set xs. stored_from e topic ms x" using IH by blast
      show ?thesis
        using xs m1(1) st stored_from_mono by (intro exI [of _ "stored_message e mid em # xs"]) auto
    qed
    ultimately show ?thesis
      using IH ids m1(2) seen0 seen1 by (auto simp: nth_Cons mid_def split: nat.splits)
  qed
qed

text \<open>A batch whose messages were all seen stores nothing.\<close>

lemma publish_loop_seen:
  assumes "seen_ok t" "\<forall>m \<in> set ms. client_id_of m \<noteq> [] \<and> hm_get (ts_seen_ids t) (client_id_of m) \<noteq> None"
  shows "publish_loop e topic k ms t = (map client_id_of ms, t)"
  using assms(2)
proof (induction ms)
  case Nil
  then show ?case by simp
next
  case (Cons m ms)
  then obtain v where "hm_get (ts_seen_ids t) (client_id_of m) = Some v" by auto
  then show ?case using Cons seen_okD(1) [OF assms(1)] by (auto simp: publish_loop_Cons)
qed

section \<open>Schema enforcement\<close>

lemma validate_all_Ok:
  "validate_all jp spec enc ms = Ok () \<longleftrightarrow> (\<forall>m \<in> set ms. validate_payload jp spec enc (n_data m) = Ok ())"
proof (induction ms)
  case Nil
  then show ?case by simp
next
  case (Cons m ms)
  then show ?case by (cases "validate_payload jp spec enc (n_data m)") auto
qed

lemma validate_all_no_panic [simp]: "validate_all jp spec enc ms \<noteq> Panic"
proof (induction ms)
  case Nil
  then show ?case by simp
next
  case (Cons m ms)
  then show ?case
    by (cases "validate_payload jp spec enc (n_data m)") (auto simp: validate_payload_no_panic)
qed

lemma publish_gate_no_panic [simp]:
  "res_bind (bound_schema s t) (\<lambda>schema. case schema of
       None \<Rightarrow> Ok () | Some (encoding, spec) \<Rightarrow> validate_all jp spec encoding ms) \<noteq> Panic"
  by (auto simp: bound_schema_def res_bind_def split: res.splits option.splits)

text \<open>
  The two outcomes of publish that reach the store, or leave it alone.
\<close>

definition publish_gate :: "json_parser \<Rightarrow> state \<Rightarrow> topic_state \<Rightarrow> new_message list \<Rightarrow> unit res" where
  "publish_gate jp s t ms = res_bind (bound_schema s t) (\<lambda>schema. case schema of
       None \<Rightarrow> Ok () | Some (encoding, spec) \<Rightarrow> validate_all jp spec encoding ms)"

lemma publish_gate_never_panics [simp]: "publish_gate jp s t ms \<noteq> Panic"
  by (simp add: publish_gate_def)

lemma publish_gate_Ok:
  "publish_gate jp s t ms = Ok () \<longleftrightarrow>
     t_schema_name (ts_spec t) = [] \<or>
     (\<exists>spec. hm_get (st_schemas s) (t_schema_name (ts_spec t)) = Some spec \<and>
        (\<forall>m \<in> set ms. validate_payload jp spec (t_schema_encoding (ts_spec t)) (n_data m) = Ok ()))"
  by (auto simp: publish_gate_def bound_schema_def validate_all_Ok split: option.splits)

lemma publish_cases:
  "publish e topic ms s =
     (case hm_get (st_topics s) topic of
        None \<Rightarrow> (Err (NotFound topic), s)
      | Some t \<Rightarrow>
          (case publish_gate (e_json e) s t ms of
             Ok _ \<Rightarrow> (persist_locked e (fst (publish_loop e topic 0 ms t)),
                      s\<lparr>st_topics := hm_insert topic (snd (publish_loop e topic 0 ms t)) (st_topics s)\<rparr>)
           | Err err \<Rightarrow> (Err err, s)
           | Panic \<Rightarrow> (Panic, s)))"
  by (simp add: publish_def publish_gate_def case_prod_beta Let_def split: option.split res.split)

lemma publish_OkD:
  assumes "publish e topic ms s = (Ok ids, s')"
  obtains t t' where "hm_get (st_topics s) topic = Some t" "publish_gate (e_json e) s t ms = Ok ()"
    "publish_loop e topic 0 ms t = (ids, t')" "e_persist e = None"
    "s' = s\<lparr>st_topics := hm_insert topic t' (st_topics s)\<rparr>"
  using assms by (cases "publish_loop e topic 0 ms (the (hm_get (st_topics s) topic))")
    (auto simp: publish_cases split: option.splits res.splits)

lemma publish_ErrD:
  assumes "fst (publish e topic ms s) = Err err" "e_persist e = None"
  shows "snd (publish e topic ms s) = s"
  using assms by (auto simp: publish_cases persist_locked_def split: option.splits res.splits)

lemma publish_no_panic: "fst (publish e topic ms s) \<noteq> Panic"
  by (auto simp: publish_cases split: option.splits res.splits)

end
