(* ===== verification/Store_Steps.thy ===== *)
theory Store_Steps
  imports Pull_Rounds Publish_Correct
begin

text \<open>
  The store as a state machine: its writing operations as requests, the invariant of the
  reachable states, and that every request keeps it and none panics.
\<close>

section \<open>The invariant\<close>

definition sub_fits :: "(string, topic_state) hmap \<Rightarrow> string \<Rightarrow> subscription_state \<Rightarrow> bool" where
  "sub_fits topics n sub =
     (s_name (ss_spec sub) = n \<and>
      (case hm_get topics (s_topic (ss_spec sub)) of
         None \<Rightarrow> sub_ok n (ss_next_index sub) sub
       | Some t \<Rightarrow> sub_ok n (length (ts_messages t)) sub))"

definition snap_fits :: "(string, topic_state) hmap \<Rightarrow> string \<Rightarrow> snapshot_spec \<Rightarrow> bool" where
  "snap_fits topics n snap =
     (sn_name snap = n \<and>
      (case hm_get topics (sn_topic snap) of
         None \<Rightarrow> True
       | Some t \<Rightarrow> sn_topic_index snap \<le> length (ts_messages t)))"

definition topic_fits :: "string \<Rightarrow> topic_state \<Rightarrow> bool" where
  "topic_fits n t = (t_name (ts_spec t) = n \<and> seen_ok t)"

definition store_ok :: "state \<Rightarrow> bool" where
  "store_ok s =
     (hm_ok (st_topics s) \<and> hm_ok (st_subscriptions s) \<and> hm_ok (st_snapshots s) \<and>
      hm_ok (st_schemas s) \<and> hm_ok (st_iam s) \<and>
      (\<forall>n t. hm_get (st_topics s) n = Some t \<longrightarrow> topic_fits n t) \<and>
      (\<forall>n sub. hm_get (st_subscriptions s) n = Some sub \<longrightarrow> sub_fits (st_topics s) n sub) \<and>
      (\<forall>n snap. hm_get (st_snapshots s) n = Some snap \<longrightarrow> snap_fits (st_topics s) n snap) \<and>
      (\<forall>n sc. hm_get (st_schemas s) n = Some sc \<longrightarrow> sc_name sc = n))"

lemma store_ok_empty: "store_ok empty_state"
  by (simp add: store_ok_def empty_state_def)

lemma store_okD:
  assumes "store_ok s"
  shows "hm_ok (st_topics s)" "hm_ok (st_subscriptions s)" "hm_ok (st_snapshots s)"
    "hm_get (st_topics s) n = Some t \<Longrightarrow> topic_fits n t"
    "hm_get (st_subscriptions s) n = Some sub \<Longrightarrow> sub_fits (st_topics s) n sub"
    "hm_get (st_snapshots s) n = Some snap \<Longrightarrow> snap_fits (st_topics s) n snap"
  using assms by (auto simp: store_ok_def)

lemma sub_ok_shrink: "sub_ok n len sub \<Longrightarrow> sub_ok n (ss_next_index sub) sub"
  by (simp add: sub_ok_def)

lemma sub_fitsD:
  assumes "sub_fits topics n sub"
  shows "s_name (ss_spec sub) = n" "sub_ok n (ss_next_index sub) sub"
    "hm_get topics (s_topic (ss_spec sub)) = Some t \<Longrightarrow> sub_ok n (length (ts_messages t)) sub"
  using assms sub_ok_shrink by (auto simp: sub_fits_def split: option.splits)

lemma topic_extends_len: "topic_extends t t' \<Longrightarrow> length (ts_messages t) \<le> length (ts_messages t')"
  by (auto simp: topic_extends_def)

lemma sub_fits_extend:
  assumes "topics_extend m m'" "sub_fits m n sub"
  shows "sub_fits m' n sub"
proof (cases "hm_get m (s_topic (ss_spec sub))")
  case None
  then show ?thesis using topics_extendD(2) [OF assms(1) None] assms(2) by (simp add: sub_fits_def)
next
  case (Some t)
  then obtain t' where "hm_get m' (s_topic (ss_spec sub)) = Some t'" "topic_extends t t'"
    using topics_extendD(1) [OF assms(1) Some] by blast
  then show ?thesis
    using Some assms(2) sub_ok_mono topic_extends_len by (auto simp: sub_fits_def)
qed

lemma snap_fits_extend:
  assumes "topics_extend m m'" "snap_fits m n snap"
  shows "snap_fits m' n snap"
proof (cases "hm_get m (sn_topic snap)")
  case None
  then show ?thesis using topics_extendD(2) [OF assms(1) None] assms(2) by (simp add: snap_fits_def)
next
  case (Some t)
  then obtain t' where "hm_get m' (sn_topic snap) = Some t'" "topic_extends t t'"
    using topics_extendD(1) [OF assms(1) Some] by blast
  then show ?thesis using Some assms(2) topic_extends_len by (fastforce simp: snap_fits_def)
qed

text \<open>The ways a request changes the state.\<close>

lemma store_ok_topics:
  assumes "store_ok s" "topics_extend (st_topics s) m" "hm_ok m"
    and "\<And>n t. hm_get m n = Some t \<Longrightarrow> topic_fits n t"
  shows "store_ok (s\<lparr>st_topics := m\<rparr>)"
  using assms sub_fits_extend snap_fits_extend by (auto simp: store_ok_def)

lemma store_ok_sub:
  assumes "store_ok s" "sub_fits (st_topics s) n sub"
  shows "store_ok (s\<lparr>st_subscriptions := hm_insert n sub (st_subscriptions s)\<rparr>)"
  using assms by (simp add: store_ok_def)

section \<open>Requests\<close>

datatype request =
    CreateTopic topic_spec
  | UpdateTopic topic_spec "string list"
  | DeleteTopic string
  | CreateSubscription subscription_spec
  | UpdateSubscription subscription_spec "string list"
  | DeleteSubscription string
  | ModifyPushConfig string "string option" attrs
  | Publish string "new_message list"
  | Pull string u32
  | Acknowledge string "string list"
  | ModifyAckDeadline string "string list" u32
  | SeekToTime string time
  | SeekToSnapshot string string
  | CreateSnapshot string string attrs
  | UpdateSnapshot snapshot_spec "string list"
  | DeleteSnapshot string
  | SetIamPolicy string iam_policy
  | CreateSchema schema_spec
  | DeleteSchema string

definition forget :: "'a res \<times> 's \<Rightarrow> unit res \<times> 's" where
  "forget r = (res_bind (fst r) (\<lambda>_. Ok ()), snd r)"

primrec perform :: "env \<Rightarrow> request \<Rightarrow> state \<Rightarrow> unit res \<times> state" where
  "perform e (CreateTopic t) s = forget (create_topic e t s)"
| "perform e (UpdateTopic t upd) s = forget (update_topic e t upd s)"
| "perform e (DeleteTopic n) s = delete_topic e n s"
| "perform e (CreateSubscription x) s = forget (create_subscription e x s)"
| "perform e (UpdateSubscription x upd) s = forget (update_subscription e x upd s)"
| "perform e (DeleteSubscription n) s = delete_subscription e n s"
| "perform e (ModifyPushConfig n ep a) s = modify_push_config e n ep a s"
| "perform e (Publish topic ms) s = forget (publish e topic ms s)"
| "perform e (Pull n k) s = forget (pull e n k s)"
| "perform e (Acknowledge n ks) s = acknowledge e n ks s"
| "perform e (ModifyAckDeadline n ks secs) s = modify_ack_deadline e n ks secs s"
| "perform e (SeekToTime n t) s = seek_to_time e n t s"
| "perform e (SeekToSnapshot n x) s = seek_to_snapshot e n x s"
| "perform e (CreateSnapshot n x labels) s = forget (create_snapshot e n x labels s)"
| "perform e (UpdateSnapshot x upd) s = forget (update_snapshot e x upd s)"
| "perform e (DeleteSnapshot n) s = delete_snapshot e n s"
| "perform e (SetIamPolicy n p) s = forget (set_iam_policy e n p s)"
| "perform e (CreateSchema x) s = forget (create_schema e x s)"
| "perform e (DeleteSchema n) s = delete_schema e n s"

text \<open>
  What is asked of the outside: the order of iteration is one of the map's entries, and
  the fresh identifiers are not the ones of present leases.
\<close>

definition lease_keys :: "state \<Rightarrow> string set" where
  "lease_keys s = {k. \<exists>n sub. hm_get (st_subscriptions s) n = Some sub \<and> k \<in> fst ` set (ss_inflight sub)}"

definition env_ok :: "env \<Rightarrow> state \<Rightarrow> bool" where
  "env_ok e s = (env_order_ok e \<and> env_fresh e (lease_keys s))"

text \<open>
  The one request the invariant needs care with: creating a topic whose name a
  subscription or a snapshot of a deleted topic still refers to.
\<close>

definition dangling :: "state \<Rightarrow> string \<Rightarrow> bool" where
  "dangling s n =
     (hm_get (st_topics s) n = None \<and>
      ((\<exists>k sub. hm_get (st_subscriptions s) k = Some sub \<and> s_topic (ss_spec sub) = n) \<or>
       (\<exists>k snap. hm_get (st_snapshots s) k = Some snap \<and> sn_topic snap = n)))"

definition admissible :: "request \<Rightarrow> state \<Rightarrow> bool" where
  "admissible r s = (case r of CreateTopic t \<Rightarrow> \<not> dangling s (t_name t) | _ \<Rightarrow> True)"

section \<open>The pull call\<close>

definition call_of :: "env \<Rightarrow> string \<Rightarrow> subscription_state \<Rightarrow> topic_state \<Rightarrow> state \<Rightarrow> call" where
  "call_of e n sub t s =
     \<lparr>c_env = e, c_name = n, c_topic = s_topic (ss_spec sub), c_msgs = ts_messages t,
      c_sub = expire_leases e sub, c_topics = st_topics s\<rparr>"

lemma pull_inv_start:
  assumes sub: "sub_ok n (length (ts_messages t)) sub" and e: "env_order_ok e"
    and fresh: "env_fresh e U" "fst ` set (ss_inflight sub) \<subseteq> U"
    and t: "hm_get (st_topics s) (s_topic (ss_spec sub)) = Some t" and ok: "hm_ok (st_topics s)"
  shows "pull_inv (call_of e n sub t s) (pull_start e sub s)"
    and "pull_origin (call_of e n sub t s) (pull_start e sub s)"
proof -
  note x = expire_leases_ok [OF sub e]
  have "fst ` set (ss_inflight (expire_leases e sub)) \<subseteq> fst ` set (ss_inflight sub)"
  proof
    fix k
    assume "k \<in> fst ` set (ss_inflight (expire_leases e sub))"
    then have "hm_get (ss_inflight (expire_leases e sub)) k \<noteq> None" by (simp add: hm_get_None_iff)
    then have "hm_get (ss_inflight sub) k \<noteq> None" using x(7) by (auto split: option.splits)
    then show "k \<in> fst ` set (ss_inflight sub)" by (simp add: hm_get_None_iff)
  qed
  then have "fst ` set (ss_inflight (expire_leases e sub)) \<inter> e_uuid e ` {0..} = {}"
    using fresh by (auto simp: env_fresh_def)
  then show "pull_inv (call_of e n sub t s) (pull_start e sub s)"
    using x(1,3) t ok by (simp add: pull_inv_def call_of_def pull_start_def call_spec_def)
  show "pull_origin (call_of e n sub t s) (pull_start e sub s)"
    by (simp add: pull_origin_def call_of_def pull_start_def)
qed

text \<open>Everything about a pull that reaches the loop.\<close>

lemma pull_runs:
  assumes s: "store_ok s" and e: "env_ok e s"
    and sub: "hm_get (st_subscriptions s) n = Some sub"
    and t: "hm_get (st_topics s) (s_topic (ss_spec sub)) = Some t"
  obtains st where
    "pull e n k s = (persist_locked e (pl_deliveries st),
       s\<lparr>st_topics := pl_topics st,
         st_subscriptions := hm_insert n (pl_sub st) (hm_remove n (st_subscriptions s))\<rparr>)"
    "pull_inv (call_of e n sub t s) st" "pull_origin (call_of e n sub t s) st"
    "length (pl_deliveries st) \<le> unat (clamp k 1 1000)"
    "length (pl_deliveries st) < unat (clamp k 1 1000) \<Longrightarrow>
       pick_index (e_now e) (length (ts_messages t)) (pl_skipped st) (pl_sub st) = None"
    "sub_ok n (length (ts_messages t)) sub"
    "\<And>m u. hm_get (pl_topics st) m = Some u \<Longrightarrow> topic_fits m u"
proof -
  have ok: "sub_ok n (length (ts_messages t)) sub"
    using sub_fitsD(3) [OF store_okD(5) [OF s sub] t] .
  have keys: "fst ` set (ss_inflight sub) \<subseteq> lease_keys s" using sub by (auto simp: lease_keys_def)
  have fresh: "env_fresh e (lease_keys s)" and ord: "env_order_ok e" using e by (auto simp: env_ok_def)
  let ?c = "call_of e n sub t s"
  let ?P = "\<lambda>st. pull_origin ?c st \<and> (\<forall>m u. hm_get (pl_topics st) m = Some u \<longrightarrow> topic_fits m u)"
  have inv: "pull_inv ?c (pull_start e sub s)"
    by (rule pull_inv_start(1) [OF ok ord fresh keys t store_okD(1) [OF s]])
  have org: "pull_origin ?c (pull_start e sub s)"
    by (rule pull_inv_start(2) [OF ok ord fresh keys t store_okD(1) [OF s]])
  have P0: "?P (pull_start e sub s)" using org store_okD(4) [OF s] by (simp add: pull_start_def)
  have keep: "?P st'" if inv: "pull_inv ?c st" and P: "?P st" and r: "round ?c st st'" for st st'
  proof
    show "pull_origin ?c st'" using pull_origin_round [OF inv _ r] P by blast
    show "\<forall>m u. hm_get (pl_topics st') m = Some u \<longrightarrow> topic_fits m u"
      using r
    proof cases
      case (dead i sub dlq dead_topic)
      then show ?thesis using P seen_ok_more by (auto simp: dead_lettered_def topic_fits_def)
    qed (use P in \<open>auto simp: blocked_state_def delivered_state_def\<close>)
  qed
  have ce: "c_env ?c = e" "c_name ?c = n" "c_topic ?c = s_topic (ss_spec sub)" "c_msgs ?c = ts_messages t"
    by (simp_all add: call_of_def)
  obtain st where st: "pull_loop e n (s_topic (ss_spec sub)) (length (ts_messages t))
        (unat (clamp k 1 1000)) (pull_start e sub s) = Some st"
    "pull_inv ?c st" "?P st" "length (pl_deliveries st) \<le> unat (clamp k 1 1000)"
    "length (pl_deliveries st) < unat (clamp k 1 1000) \<longrightarrow>
       pick_index (e_now e) (length (ts_messages t)) (pl_skipped st) (pl_sub st) = None"
  proof -
    have fr: "env_fresh (c_env ?c) (lease_keys s)" using fresh by (simp add: ce)
    have len: "length (pl_deliveries (pull_start e sub s)) \<le> unat (clamp k 1 1000)"
      by (simp add: pull_start_def)
    have "\<exists>st'. pull_loop (c_env ?c) (c_name ?c) (c_topic ?c) (length (c_msgs ?c))
        (unat (clamp k 1 1000)) (pull_start e sub s) = Some st'
      \<and> pull_inv ?c st' \<and> ?P st' \<and> length (pl_deliveries st') \<le> unat (clamp k 1 1000)
      \<and> (length (pl_deliveries st') < unat (clamp k 1 1000) \<longrightarrow>
         pick_index (e_now (c_env ?c)) (length (c_msgs ?c)) (pl_skipped st') (pl_sub st') = None)"
      by (rule pull_loop_rule [where P = ?P, OF inv fr len P0]) (rule keep)
    then show ?thesis using that by (auto simp: ce)
  qed
  have "pull e n k s = (persist_locked e (pl_deliveries st),
       s\<lparr>st_topics := pl_topics st,
         st_subscriptions := hm_insert n (pl_sub st) (hm_remove n (st_subscriptions s))\<rparr>)"
    using sub t st(1) by (simp add: pull_def Let_def)
  then show ?thesis using that st(2-5) ok by blast
qed

end
