(* ===== verification/Store_Reach.thy ===== *)
theory Store_Reach
  imports Store_Steps
begin

text \<open>
  Every request keeps the invariant of the store and returns, so both hold on every
  reachable state.
\<close>

section \<open>Administrative requests\<close>

lemma forget_sel [simp]:
  "snd (forget r) = snd r" "fst (forget r) = Panic \<longleftrightarrow> fst r = Panic"
  "is_ok (fst (forget r)) = is_ok (fst r)"
  by (auto simp: forget_def res_bind_def is_ok_def split: res.splits)

lemma store_ok_create_topic:
  assumes s: "store_ok s" and new: "\<not> dangling s (t_name t)"
  shows "store_ok (snd (create_topic e t s))"
proof (cases "snd (create_topic e t s) = s")
  case True
  then show ?thesis using s by simp
next
  case False
  then have none: "hm_get (st_topics s) (t_name t) = None"
    and eq: "snd (create_topic e t s) =
      s\<lparr>st_topics := hm_insert (t_name t) (new_topic_state t) (st_topics s)\<rparr>"
    by (auto simp: create_topic_def hm_contains_def Let_def split: if_splits)
  have "sub_fits (hm_insert (t_name t) (new_topic_state t) (st_topics s)) n sub"
    if sub: "hm_get (st_subscriptions s) n = Some sub" for n sub
  proof -
    have "s_topic (ss_spec sub) \<noteq> t_name t" using new none sub by (auto simp: dangling_def)
    then show ?thesis using store_okD(5) [OF s sub] by (simp add: sub_fits_def)
  qed
  moreover have "snap_fits (hm_insert (t_name t) (new_topic_state t) (st_topics s)) n snap"
    if snap: "hm_get (st_snapshots s) n = Some snap" for n snap
  proof -
    have "sn_topic snap \<noteq> t_name t" using new none snap by (auto simp: dangling_def)
    then show ?thesis using store_okD(6) [OF s snap] by (simp add: snap_fits_def)
  qed
  moreover have "topic_fits (t_name t) (new_topic_state t)"
    unfolding topic_fits_def using seen_ok_new by (simp add: new_topic_state_def)
  ultimately show ?thesis using s by (simp add: eq store_ok_def)
qed

lemma store_ok_update_topic:
  assumes s: "store_ok s"
  shows "store_ok (snd (update_topic e t upd s))"
proof (cases "hm_get (st_topics s) (t_name t)")
  case None
  then show ?thesis using s by (simp add: update_topic_def)
next
  case (Some x)
  let ?x = "x\<lparr>ts_spec := apply_topic_mask (ts_spec x) t upd\<rparr>"
  let ?m = "hm_insert (t_name t) ?x (st_topics s)"
  have fit: "sub_fits ?m n sub = sub_fits (st_topics s) n sub" for n sub
    using Some by (simp add: sub_fits_def)
  have fit': "snap_fits ?m n snap = snap_fits (st_topics s) n snap" for n snap
    using Some by (simp add: snap_fits_def)
  have "topic_fits (t_name t) ?x" using store_okD(4) [OF s Some] by (simp add: topic_fits_def)
  then have "store_ok (s\<lparr>st_topics := ?m\<rparr>)" using s by (simp add: store_ok_def fit fit')
  then show ?thesis using Some by (simp add: update_topic_def Let_def)
qed

lemma store_ok_delete_topic:
  assumes s: "store_ok s"
  shows "store_ok (snd (delete_topic e n s))"
proof (cases "hm_get (st_topics s) n")
  case None
  then show ?thesis using s by (simp add: delete_topic_def)
next
  case (Some x)
  have "sub_fits (hm_remove n (st_topics s)) k sub" if "sub_fits (st_topics s) k sub" for k sub
    using that sub_fitsD(2) [OF that] by (auto simp: sub_fits_def)
  moreover have "snap_fits (hm_remove n (st_topics s)) k snap" if "snap_fits (st_topics s) k snap" for k snap
    using that by (auto simp: snap_fits_def)
  ultimately show ?thesis using s Some by (auto simp: delete_topic_def store_ok_def)
qed

lemma create_subscription_snd:
  "snd (create_subscription e x s) = s \<or>
   (\<exists>t. hm_get (st_topics s) (s_topic x) = Some t \<and> snd (create_subscription e x s) =
      s\<lparr>st_subscriptions := hm_insert (s_name x)
          (new_subscription_state (normalized x) (length (ts_messages t))) (st_subscriptions s)\<rparr>)"
  by (auto simp: create_subscription_def Let_def split: option.splits res.splits)

lemma store_ok_create_subscription:
  assumes s: "store_ok s"
  shows "store_ok (snd (create_subscription e x s))"
  using create_subscription_snd [of e x s]
proof (elim disjE exE conjE)
  show ?thesis if "snd (create_subscription e x s) = s" using that s by simp
  fix t
  assume t: "hm_get (st_topics s) (s_topic x) = Some t" and eq: "snd (create_subscription e x s) =
      s\<lparr>st_subscriptions := hm_insert (s_name x)
          (new_subscription_state (normalized x) (length (ts_messages t))) (st_subscriptions s)\<rparr>"
  have spec: "ss_spec (new_subscription_state (normalized x) len) = normalized x" for len
    by (simp add: new_subscription_state_def)
  have "sub_fits (st_topics s) (s_name x) (new_subscription_state (normalized x) (length (ts_messages t)))"
    using t sub_ok_new by (simp add: sub_fits_def spec)
  then show ?thesis unfolding eq by (rule store_ok_sub [OF s])
qed

lemma store_ok_update_subscription:
  assumes s: "store_ok s"
  shows "store_ok (snd (update_subscription e x upd s))"
proof (cases "hm_get (st_subscriptions s) (s_name x)")
  case None
  then show ?thesis using s by (simp add: update_subscription_def Let_def)
next
  case (Some sub)
  let ?spec = "normalized (apply_subscription_mask (ss_spec sub) x upd)"
  have "sub_fits (st_topics s) (s_name x) (sub\<lparr>ss_spec := ?spec\<rparr>)"
    using store_okD(5) [OF s Some] by (simp add: sub_fits_def split: option.splits)
  then show ?thesis using s Some store_ok_sub [OF s] by (simp add: update_subscription_def Let_def)
qed

lemma store_ok_subscription_spec:
  assumes s: "store_ok s"
  shows "store_ok (snd (modify_push_config e n ep a s))" "store_ok (snd (delete_subscription e n s))"
proof -
  show "store_ok (snd (modify_push_config e n ep a s))"
  proof (cases "hm_get (st_subscriptions s) n")
    case None
    then show ?thesis using s by (simp add: modify_push_config_def)
  next
    case (Some sub)
    have "sub_fits (st_topics s) n (sub\<lparr>ss_spec := (ss_spec sub)\<lparr>s_push_endpoint := y, s_push_attributes := a\<rparr>\<rparr>)" for y
      using store_okD(5) [OF s Some] by (simp add: sub_fits_def split: option.splits)
    then show ?thesis using Some store_ok_sub [OF s] by (simp add: modify_push_config_def Let_def)
  qed
  show "store_ok (snd (delete_subscription e n s))"
    using s by (auto simp: delete_subscription_def store_ok_def split: option.splits)
qed

lemma store_ok_snapshots:
  assumes s: "store_ok s"
  shows "store_ok (snd (create_snapshot e n x labels s))" "store_ok (snd (update_snapshot e y upd s))"
    "store_ok (snd (delete_snapshot e n s))"
proof -
  show "store_ok (snd (create_snapshot e n x labels s))"
  proof (cases "hm_get (st_subscriptions s) x")
    case None
    then show ?thesis using s by (simp add: create_snapshot_def)
  next
    case (Some sub)
    have "snap_fits (st_topics s) n
        \<lparr>sn_name = n, sn_topic = s_topic (ss_spec sub), sn_expire_time = te, sn_labels = l,
         sn_topic_index = ss_next_index sub\<rparr>" for te l
      using store_okD(5) [OF s Some]
      by (auto simp: snap_fits_def sub_fits_def sub_ok_def split: option.splits)
    then show ?thesis using s Some by (simp add: create_snapshot_def Let_def store_ok_def)
  qed
  show "store_ok (snd (update_snapshot e y upd s))"
  proof (cases "hm_get (st_snapshots s) (sn_name y)")
    case None
    then show ?thesis using s by (simp add: update_snapshot_def)
  next
    case (Some snap)
    have "snap_fits (st_topics s) (sn_name y) (snap\<lparr>sn_labels := l\<rparr>)" "snap_fits (st_topics s) (sn_name y) snap" for l
      using store_okD(6) [OF s Some] by (auto simp: snap_fits_def split: option.splits)
    then show ?thesis using s Some by (simp add: update_snapshot_def Let_def store_ok_def)
  qed
  show "store_ok (snd (delete_snapshot e n s))"
    using s by (auto simp: delete_snapshot_def store_ok_def split: option.splits)
qed

lemma store_ok_schemas_iam:
  assumes s: "store_ok s"
  shows "store_ok (snd (set_iam_policy e n p s))" "store_ok (snd (create_schema e x s))"
    "store_ok (snd (delete_schema e n s))"
  using s
  by (auto simp: set_iam_policy_def create_schema_def delete_schema_def store_ok_def Let_def
      split: option.splits res.splits)

section \<open>The data plane\<close>

lemma store_ok_publish:
  assumes s: "store_ok s"
  shows "store_ok (snd (publish e topic ms s))"
proof (cases "hm_get (st_topics s) topic")
  case None
  then show ?thesis using s by (simp add: publish_cases)
next
  case (Some t)
  obtain ids t' where r: "publish_loop e topic 0 ms t = (ids, t')"
    by (cases "publish_loop e topic 0 ms t")
  have fit: "topic_fits topic t" by (rule store_okD(4) [OF s Some])
  then have ok: "seen_ok t" by (simp add: topic_fits_def)
  note p = publish_loop_spec [OF ok r]
  have ext: "topics_extend (st_topics s) (hm_insert topic t' (st_topics s))"
    by (rule topics_extend_insert [OF topics_extend_refl Some]) (use p in \<open>auto simp: topic_extends_def\<close>)
  have "topic_fits topic t'" using p fit by (simp add: topic_fits_def)
  then have "store_ok (s\<lparr>st_topics := hm_insert topic t' (st_topics s)\<rparr>)"
    by (intro store_ok_topics [OF s ext]) (use s in \<open>auto simp: store_ok_def split: if_splits\<close>)
  then show ?thesis using Some r s by (simp add: publish_cases split: res.split)
qed

lemma store_ok_pull:
  assumes s: "store_ok s" and e: "env_ok e s"
  shows "store_ok (snd (pull e n k s))" "fst (pull e n k s) \<noteq> Panic"
proof -
  have "store_ok (snd (pull e n k s)) \<and> fst (pull e n k s) \<noteq> Panic"
  proof (cases "hm_get (st_subscriptions s) n")
    case None
    then show ?thesis using s by (simp add: pull_def)
  next
    case (Some sub)
    show ?thesis
    proof (cases "hm_get (st_topics s) (s_topic (ss_spec sub))")
      case None
      have "store_ok (s\<lparr>st_subscriptions := hm_insert n sub (hm_remove n (st_subscriptions s))\<rparr>)"
        using s Some store_okD(5) [OF s Some] by (simp add: store_ok_def)
      then show ?thesis using Some None by (simp add: pull_def Let_def)
    next
      case t: (Some t)
      obtain st where st: "pull e n k s = (persist_locked e (pl_deliveries st),
           s\<lparr>st_topics := pl_topics st,
             st_subscriptions := hm_insert n (pl_sub st) (hm_remove n (st_subscriptions s))\<rparr>)"
        "pull_inv (call_of e n sub t s) st"
        "\<And>m u. hm_get (pl_topics st) m = Some u \<Longrightarrow> topic_fits m u"
        using pull_runs [OF s e Some t] by metis
      note I = pull_invD [OF st(2)]
      have ext: "topics_extend (st_topics s) (pl_topics st)" using I(10) by (simp add: call_of_def)
      have s1: "store_ok (s\<lparr>st_topics := pl_topics st\<rparr>)"
        by (rule store_ok_topics [OF s ext I(11) st(3)])
      obtain t' where t': "hm_get (pl_topics st) (s_topic (ss_spec sub)) = Some t'" "topic_extends t t'"
        using topics_extendD(1) [OF ext t] by blast
      have ord: "env_order_ok e" using e by (simp add: env_ok_def)
      have subok: "sub_ok n (length (ts_messages t)) sub"
        using sub_fitsD(3) [OF store_okD(5) [OF s Some] t] .
      have spec: "ss_spec (pl_sub st) = ss_spec sub"
        using I(2) expire_leases_ok(3) [OF subok ord] by (simp add: call_spec_def call_of_def)
      have "sub_ok n (length (ts_messages t')) (pl_sub st)"
        using I(1) sub_ok_mono topic_extends_len [OF t'(2)] by (auto simp: call_of_def)
      then have "sub_fits (pl_topics st) n (pl_sub st)"
        using t'(1) spec sub_fitsD(1) [OF store_okD(5) [OF s Some]] by (simp add: sub_fits_def)
      then have "store_ok (s\<lparr>st_topics := pl_topics st,
             st_subscriptions := hm_insert n (pl_sub st) (hm_remove n (st_subscriptions s))\<rparr>)"
        using s1 by (simp add: store_ok_def)
      then show ?thesis by (simp add: st(1))
    qed
  qed
  then show "store_ok (snd (pull e n k s))" "fst (pull e n k s) \<noteq> Panic" by auto
qed

text \<open>
  An operation on one subscription that keeps its well-formedness and its specification;
  it does so whether or not the topic still exists.
\<close>

lemma store_ok_acknowledge:
  assumes s: "store_ok s"
  shows "store_ok (snd (acknowledge e n ks s))" "fst (acknowledge e n ks s) \<noteq> Panic"
proof -
  have "store_ok (snd (acknowledge e n ks s)) \<and> fst (acknowledge e n ks s) \<noteq> Panic"
  proof (cases "hm_get (st_subscriptions s) n")
    case None
    then show ?thesis using s by (simp add: acknowledge_def)
  next
    case (Some sub)
    let ?t = "hm_get (st_topics s) (s_topic (ss_spec sub))"
    obtain r sub' where r: "ack_loop e ?t ks sub = (r, sub')" by (cases "ack_loop e ?t ks sub")
    note fit = store_okD(5) [OF s Some]
    have spec: "ss_spec sub' = ss_spec sub" using ack_loop_frame [OF r] by simp
    have "sub_fits (st_topics s) n sub'"
    proof (cases ?t)
      case None
      have "sub_ok n (ss_next_index sub) sub'"
        using ack_loop_sub_ok [OF sub_fitsD(2) [OF fit], of e ?t ks] r by simp
      then show ?thesis
        using None spec fit ack_loop_frame [OF r] by (simp add: sub_fits_def)
    next
      case (Some t)
      then show ?thesis
        using spec fit ack_loop_sub_ok [OF sub_fitsD(3) [OF fit Some], of e ?t ks] r
        by (simp add: sub_fits_def)
    qed
    then show ?thesis
      using Some r store_ok_sub [OF s] ack_loop_no_panic [of e ?t ks sub]
      by (auto simp: acknowledge_def split: res.split)
  qed
  then show "store_ok (snd (acknowledge e n ks s))" "fst (acknowledge e n ks s) \<noteq> Panic" by auto
qed

lemma store_ok_modify:
  assumes s: "store_ok s"
  shows "store_ok (snd (modify_ack_deadline e n ks secs s))"
proof (cases "hm_get (st_subscriptions s) n")
  case None
  then show ?thesis using s by (simp add: modify_ack_deadline_def)
next
  case (Some sub)
  let ?sub = "fold (modify_deadline_one e secs) ks sub"
  note fit = store_okD(5) [OF s Some]
  have "sub_fits (st_topics s) n ?sub"
  proof (cases "hm_get (st_topics s) (s_topic (ss_spec sub))")
    case None
    then show ?thesis
      using fit modify_fold_ok [OF sub_fitsD(2) [OF fit], of e secs ks] by (simp add: sub_fits_def)
  next
    case (Some t)
    then show ?thesis
      using fit modify_fold_ok [OF sub_fitsD(3) [OF fit Some]] by (simp add: sub_fits_def)
  qed
  then show ?thesis using s Some store_ok_sub [OF s] by (simp add: modify_ack_deadline_def)
qed

lemma store_ok_seek:
  assumes s: "store_ok s"
  shows "store_ok (snd (seek_to_time e n t s))" "store_ok (snd (seek_to_snapshot e n x s))"
proof -
  have reset: "sub_fits (st_topics s) n (reset_cursor i sub)"
    if sub: "hm_get (st_subscriptions s) n = Some sub"
      and i: "\<And>tp. hm_get (st_topics s) (s_topic (ss_spec sub)) = Some tp \<Longrightarrow> i \<le> length (ts_messages tp)"
    for sub i
  proof -
    have spec: "ss_spec (reset_cursor i sub) = ss_spec sub" "ss_next_index (reset_cursor i sub) = i"
      by (simp_all add: reset_cursor_def)
    show ?thesis
      using store_okD(5) [OF s sub] i sub_ok_reset
      by (auto simp: sub_fits_def spec split: option.splits)
  qed
  show "store_ok (snd (seek_to_time e n t s))"
  proof (cases "hm_get (st_subscriptions s) n")
    case None
    then show ?thesis using s by (simp add: seek_to_time_def)
  next
    case (Some sub)
    show ?thesis
    proof (cases "hm_get (st_topics s) (s_topic (ss_spec sub))")
      case None
      then show ?thesis using s Some by (simp add: seek_to_time_def)
    next
      case topic: (Some tp)
      have "sub_fits (st_topics s) n (reset_cursor (seek_index (ts_messages tp) t) sub)"
        by (rule reset [OF Some]) (use topic seek_index_spec(1) in simp)
      then show ?thesis using Some topic store_ok_sub [OF s] by (simp add: seek_to_time_def)
    qed
  qed
  show "store_ok (snd (seek_to_snapshot e n x s))"
  proof (cases "hm_get (st_snapshots s) x")
    case None
    then show ?thesis using s by (simp add: seek_to_snapshot_def)
  next
    case (Some snap)
    note fit = store_okD(6) [OF s Some]
    show ?thesis
    proof (cases "hm_get (st_subscriptions s) n")
      case None
      then show ?thesis using s Some by (simp add: seek_to_snapshot_def)
    next
      case sub: (Some sub)
      show ?thesis
      proof (cases "s_topic (ss_spec sub) = sn_topic snap")
        case False
        then show ?thesis using s Some sub by (simp add: seek_to_snapshot_def)
      next
        case True
        have "sub_fits (st_topics s) n (reset_cursor (sn_topic_index snap) sub)"
          by (rule reset [OF sub]) (use fit True in \<open>simp add: snap_fits_def\<close>)
        then show ?thesis using Some sub True store_ok_sub [OF s] by (simp add: seek_to_snapshot_def)
      qed
    qed
  qed
qed

section \<open>Every request\<close>

lemma perform_ok:
  assumes s: "store_ok s" and e: "env_ok e s" and a: "admissible r s"
  shows "store_ok (snd (perform e r s))"
  using a
  by (cases r)
    (simp_all add: admissible_def store_ok_create_topic store_ok_update_topic store_ok_delete_topic
      store_ok_create_subscription store_ok_update_subscription store_ok_subscription_spec
      store_ok_snapshots store_ok_schemas_iam store_ok_publish store_ok_pull store_ok_acknowledge
      store_ok_modify store_ok_seek s e)

lemma parse_filter_no_panic [simp]: "parse_filter s \<noteq> Panic"
  using parse_filter_ok_or_invalid [of s] by (auto simp: ok_or_invalid_def split: res.splits)

lemma admin_no_panic:
  "fst (create_topic e t s) \<noteq> Panic" "fst (update_topic e t upd s) \<noteq> Panic"
  "fst (delete_topic e n s) \<noteq> Panic" "fst (create_subscription e x s) \<noteq> Panic"
  "fst (update_subscription e x upd s) \<noteq> Panic" "fst (delete_subscription e n s) \<noteq> Panic"
  "fst (modify_push_config e n ep a s) \<noteq> Panic" "fst (modify_ack_deadline e n ks secs s) \<noteq> Panic"
  "fst (seek_to_time e n tm s) \<noteq> Panic" "fst (seek_to_snapshot e n y s) \<noteq> Panic"
  "fst (create_snapshot e n y labels s) \<noteq> Panic" "fst (update_snapshot e z upd s) \<noteq> Panic"
  "fst (delete_snapshot e n s) \<noteq> Panic" "fst (set_iam_policy e n p s) \<noteq> Panic"
  "fst (create_schema e sc s) \<noteq> Panic" "fst (delete_schema e n s) \<noteq> Panic"
  by (auto simp: create_topic_def update_topic_def delete_topic_def create_subscription_def
      update_subscription_def delete_subscription_def modify_push_config_def modify_ack_deadline_def
      seek_to_time_def seek_to_snapshot_def create_snapshot_def update_snapshot_def delete_snapshot_def
      set_iam_policy_def create_schema_def delete_schema_def Let_def res_bind_def
      parse_filter_no_panic
      split: option.splits res.splits)

lemma perform_no_panic:
  assumes "store_ok s" "env_ok e s"
  shows "fst (perform e r s) \<noteq> Panic"
  using store_ok_pull(2) [OF assms] store_ok_acknowledge(2) [OF assms(1)] publish_no_panic
  by (cases r) (simp_all add: admin_no_panic)

section \<open>Reachable states\<close>

inductive step :: "state \<Rightarrow> state \<Rightarrow> bool" where
  step: "env_ok e s \<Longrightarrow> admissible r s \<Longrightarrow> step s (snd (perform e r s))"

inductive_cases step_cases: "step s s'"

inductive reachable :: "state \<Rightarrow> bool" where
  start: "reachable empty_state"
| next_state: "reachable s \<Longrightarrow> step s s' \<Longrightarrow> reachable s'"

lemma reachable_ok: "reachable s \<Longrightarrow> store_ok s"
proof (induction rule: reachable.induct)
  case start
  then show ?case by (rule store_ok_empty)
next
  case (next_state s s')
  then show ?case by (auto elim!: step_cases intro: perform_ok)
qed

end
