(* ===== verification/Store_Traces.thy ===== *)
theory Store_Traces
  imports Store_Reach
begin

text \<open>
  What happens to one subscription over a run of requests that neither seek nor delete it:
  its cursor and its acknowledged set only grow, nothing behind the cursor reappears, and
  nothing is forgotten unless an exactly-once acknowledgement fails.
\<close>

section \<open>One request\<close>

definition disturbs :: "string \<Rightarrow> request \<Rightarrow> bool" where
  "disturbs n r =
     (case r of SeekToTime m _ \<Rightarrow> m = n | SeekToSnapshot m _ \<Rightarrow> m = n | DeleteSubscription m \<Rightarrow> m = n
      | _ \<Rightarrow> False)"

text \<open>The request is an acknowledgement on the subscription that stops at an expired lease.\<close>

definition expired_ack :: "env \<Rightarrow> string \<Rightarrow> request \<Rightarrow> state \<Rightarrow> bool" where
  "expired_ack e n r s =
     (case r of
        Acknowledge m ks \<Rightarrow> m = n \<and>
          (case hm_get (st_subscriptions s) n of
             None \<Rightarrow> False
           | Some sub \<Rightarrow>
               \<not> is_ok (fst (ack_loop e (hm_get (st_topics s) (s_topic (ss_spec sub))) ks sub)))
      | _ \<Rightarrow> False)"

definition moves :: "subscription_state \<Rightarrow> subscription_state \<Rightarrow> bool" where
  "moves sub sub' =
     (s_topic (ss_spec sub') = s_topic (ss_spec sub) \<and> ss_next_index sub \<le> ss_next_index sub' \<and>
      ss_acked sub \<subseteq> ss_acked sub' \<and>
      tracked sub' \<subseteq> tracked sub \<union> {ss_next_index sub..<ss_next_index sub'})"

definition keeps_all :: "subscription_state \<Rightarrow> subscription_state \<Rightarrow> bool" where
  "keeps_all sub sub' = (tracked sub \<union> {ss_next_index sub..<ss_next_index sub'} \<subseteq> tracked sub')"

lemma moves_refl [simp]: "moves sub sub"
  by (simp add: moves_def)

lemma keeps_all_refl [simp]: "keeps_all sub sub"
  by (simp add: keeps_all_def)

lemma moves_trans:
  assumes "moves a b" "moves b c"
  shows "moves a c"
proof -
  have "{ss_next_index a..<ss_next_index b} \<union> {ss_next_index b..<ss_next_index c}
      = {ss_next_index a..<ss_next_index c}"
    using assms by (intro ivl_disj_un_two) (simp_all add: moves_def)
  then have "tracked c \<subseteq> tracked a \<union> {ss_next_index a..<ss_next_index c}"
    using assms unfolding moves_def by blast
  then show ?thesis using assms unfolding moves_def by auto
qed

lemma keeps_all_trans:
  assumes "moves a b" "moves b c" "keeps_all a b" "keeps_all b c"
  shows "keeps_all a c"
proof -
  have "{ss_next_index a..<ss_next_index b} \<union> {ss_next_index b..<ss_next_index c}
      = {ss_next_index a..<ss_next_index c}"
    using assms(1,2) by (intro ivl_disj_un_two) (simp_all add: moves_def)
  then show ?thesis using assms(3,4) unfolding keeps_all_def by blast
qed

lemma moves_spec:
  "s_topic x = s_topic (ss_spec sub) \<Longrightarrow> moves sub (sub\<lparr>ss_spec := x\<rparr>) \<and> keeps_all sub (sub\<lparr>ss_spec := x\<rparr>)"
  by (simp add: moves_def keeps_all_def tracked_def live_def leased_at_def queued_def)

lemma pull_moves:
  assumes s: "store_ok s" and e: "env_ok e s" and sub: "hm_get (st_subscriptions s) n = Some sub"
  shows "\<exists>sub'. hm_get (st_subscriptions (snd (pull e n k s))) n = Some sub'
    \<and> moves sub sub' \<and> keeps_all sub sub'"
proof (cases "hm_get (st_topics s) (s_topic (ss_spec sub))")
  case None
  then show ?thesis using sub by (simp add: pull_def Let_def)
next
  case (Some t)
  obtain st where st: "pull e n k s = (persist_locked e (pl_deliveries st),
       s\<lparr>st_topics := pl_topics st,
         st_subscriptions := hm_insert n (pl_sub st) (hm_remove n (st_subscriptions s))\<rparr>)"
    "pull_inv (call_of e n sub t s) st" "sub_ok n (length (ts_messages t)) sub"
    using pull_runs [OF s e sub Some] by metis
  note I = pull_invD [OF st(2)]
  have "env_order_ok e" using e by (simp add: env_ok_def)
  note x = expire_leases_ok [OF st(3) this]
  have "moves sub (pl_sub st)" "keeps_all sub (pl_sub st)"
    using I(2,3,4,5) x(2-5) by (simp_all add: moves_def keeps_all_def call_of_def call_spec_def)
  then show ?thesis by (simp add: st(1))
qed

lemma perform_moves:
  assumes s: "store_ok s" and e: "env_ok e s" and sub: "hm_get (st_subscriptions s) n = Some sub"
    and quiet: "\<not> disturbs n r"
  shows "\<exists>sub'. hm_get (st_subscriptions (snd (perform e r s))) n = Some sub' \<and> moves sub sub'
    \<and> (\<not> expired_ack e n r s \<longrightarrow> keeps_all sub sub')"
proof (cases r)
  case (CreateSubscription x)
  have "hm_get (st_subscriptions (snd (create_subscription e x s))) n = Some sub"
  proof (cases "s_name x = n")
    case True
    then show ?thesis using sub by (simp add: create_subscription_def hm_contains_def Let_def)
  next
    case False
    then show ?thesis using create_subscription_snd [of e x s] sub by auto
  qed
  then show ?thesis using CreateSubscription by simp
next
  case (UpdateSubscription x upd)
  then show ?thesis
    using sub moves_spec [of _ sub] by (auto simp: update_subscription_def Let_def split: option.splits)
next
  case (ModifyPushConfig m ep a)
  then show ?thesis
    using sub moves_spec [of _ sub] by (auto simp: modify_push_config_def Let_def split: option.splits)
next
  case (Pull m k)
  show ?thesis
  proof (cases "m = n")
    case True
    then show ?thesis using pull_moves [OF s e sub, of k] Pull by auto
  next
    case False
    then have "hm_get (st_subscriptions (snd (pull e m k s))) n = Some sub"
      using sub by (auto simp: pull_def Let_def split: option.splits)
    then show ?thesis using Pull by simp
  qed
next
  case (Acknowledge m ks)
  show ?thesis
  proof (cases "m = n")
    case False
    then show ?thesis using sub Acknowledge
      by (auto simp: acknowledge_def case_prod_beta Let_def split: option.splits)
  next
    case True
    let ?t = "hm_get (st_topics s) (s_topic (ss_spec sub))"
    obtain q sub' where r: "ack_loop e ?t ks sub = (q, sub')" by (cases "ack_loop e ?t ks sub")
    have ok: "sub_ok n (ss_next_index sub) sub" by (rule sub_fitsD(2) [OF store_okD(5) [OF s sub]])
    note f = ack_loop_frame [OF r]
    have get: "hm_get (st_subscriptions (snd (perform e r s))) n = Some sub'"
      using sub r True Acknowledge by (simp add: acknowledge_def)
    have "tracked sub' \<subseteq> tracked sub \<and> (is_ok q \<longrightarrow> tracked sub' = tracked sub)"
    proof (cases q)
      case (Ok u)
      then show ?thesis using ack_loop_Ok [OF ok, of e ?t ks sub'] r by (cases u) simp
    next
      case (Err err)
      then show ?thesis using ack_loop_Err [OF ok, of e ?t ks err sub'] r by auto
    next
      case Panic
      then show ?thesis using ack_loop_no_panic [of e ?t ks sub] r by simp
    qed
    moreover have "expired_ack e n r s = (\<not> is_ok q)"
      using Acknowledge True sub r by (simp add: expired_ack_def)
    ultimately show ?thesis using get f by (auto simp: moves_def keeps_all_def)
  qed
next
  case (ModifyAckDeadline m ks secs)
  have ok: "sub_ok n (ss_next_index sub) sub" by (rule sub_fitsD(2) [OF store_okD(5) [OF s sub]])
  have "moves sub (fold (modify_deadline_one e secs) ks sub)
      \<and> keeps_all sub (fold (modify_deadline_one e secs) ks sub)"
    using modify_fold_ok [OF ok, of e secs ks] by (simp add: moves_def keeps_all_def)
  then show ?thesis
    using sub ModifyAckDeadline by (auto simp: modify_ack_deadline_def split: option.splits)
next
  case (CreateTopic t)
  then show ?thesis using sub by (auto simp: create_topic_def Let_def)
next
  case (UpdateTopic t upd)
  then show ?thesis using sub by (auto simp: update_topic_def Let_def split: option.splits)
next
  case (DeleteTopic m)
  then show ?thesis using sub by (auto simp: delete_topic_def split: option.splits)
next
  case (Publish topic ms)
  then show ?thesis using sub by (auto simp: publish_cases split: option.splits res.splits)
next
  case (CreateSnapshot m x labels)
  then show ?thesis using sub by (auto simp: create_snapshot_def Let_def split: option.splits)
next
  case (UpdateSnapshot x upd)
  then show ?thesis using sub by (auto simp: update_snapshot_def Let_def split: option.splits)
next
  case (DeleteSnapshot m)
  then show ?thesis using sub by (auto simp: delete_snapshot_def split: option.splits)
next
  case (SetIamPolicy m p)
  then show ?thesis using sub by (auto simp: set_iam_policy_def Let_def)
next
  case (CreateSchema x)
  then show ?thesis using sub by (auto simp: create_schema_def split: res.splits)
next
  case (DeleteSchema m)
  then show ?thesis using sub by (auto simp: delete_schema_def split: option.splits)
next
  case (SeekToTime m t)
  then show ?thesis using sub quiet by (auto simp: disturbs_def seek_to_time_def split: option.splits)
next
  case (SeekToSnapshot m x)
  then show ?thesis using sub quiet by (auto simp: disturbs_def seek_to_snapshot_def split: option.splits)
next
  case (DeleteSubscription m)
  then show ?thesis using sub quiet by (auto simp: disturbs_def delete_subscription_def split: option.splits)
qed

section \<open>Its topic\<close>

text \<open>A topic that a subscription refers to is gone, or holds what it held and more.\<close>

definition topic_keeps :: "string \<Rightarrow> state \<Rightarrow> state \<Rightarrow> bool" where
  "topic_keeps tn s s' =
     (\<forall>t'. hm_get (st_topics s') tn = Some t' \<longrightarrow>
        (\<exists>t xs. hm_get (st_topics s) tn = Some t \<and> ts_messages t' = ts_messages t @ xs))"

lemma topic_keeps_refl: "st_topics s' = st_topics s \<Longrightarrow> topic_keeps tn s s'"
  by (simp add: topic_keeps_def)

lemma topic_keeps_trans: "topic_keeps tn a b \<Longrightarrow> topic_keeps tn b c \<Longrightarrow> topic_keeps tn a c"
  unfolding topic_keeps_def by (metis append.assoc)

lemma topic_keeps_extend:
  assumes "topics_extend (st_topics s) (st_topics s')"
  shows "topic_keeps tn s s'"
  unfolding topic_keeps_def
proof (intro allI impI)
  fix t'
  assume t': "hm_get (st_topics s') tn = Some t'"
  then obtain t where t: "hm_get (st_topics s) tn = Some t"
    using topics_extendD(2) [OF assms, of tn] by fastforce
  then show "\<exists>t xs. hm_get (st_topics s) tn = Some t \<and> ts_messages t' = ts_messages t @ xs"
    using topics_extendD(1) [OF assms t] t' by (auto simp: topic_extends_def)
qed

lemma publish_extends:
  assumes "store_ok s"
  shows "topics_extend (st_topics s) (st_topics (snd (publish e topic ms s)))"
proof (cases "hm_get (st_topics s) topic")
  case None
  then show ?thesis by (simp add: publish_cases)
next
  case (Some t)
  obtain ids t' where r: "publish_loop e topic 0 ms t = (ids, t')"
    by (cases "publish_loop e topic 0 ms t")
  have "seen_ok t" using store_okD(4) [OF assms Some] by (simp add: topic_fits_def)
  note p = publish_loop_spec [OF this r]
  have "topics_extend (st_topics s) (hm_insert topic t' (st_topics s))"
    by (rule topics_extend_insert [OF topics_extend_refl Some]) (use p in \<open>auto simp: topic_extends_def\<close>)
  then show ?thesis using Some r by (simp add: publish_cases split: res.split)
qed

lemma pull_extends:
  assumes s: "store_ok s" and e: "env_ok e s"
  shows "topics_extend (st_topics s) (st_topics (snd (pull e n k s)))"
proof (cases "hm_get (st_subscriptions s) n")
  case None
  then show ?thesis by (simp add: pull_def)
next
  case (Some sub)
  show ?thesis
  proof (cases "hm_get (st_topics s) (s_topic (ss_spec sub))")
    case None
    then show ?thesis using Some by (simp add: pull_def Let_def)
  next
    case t: (Some t)
    obtain st where st: "pull e n k s = (persist_locked e (pl_deliveries st),
         s\<lparr>st_topics := pl_topics st,
           st_subscriptions := hm_insert n (pl_sub st) (hm_remove n (st_subscriptions s))\<rparr>)"
      "pull_inv (call_of e n sub t s) st"
      using pull_runs [OF s e Some t] by metis
    then show ?thesis using pull_invD(10) [OF st(2)] by (simp add: call_of_def)
  qed
qed

lemma perform_topic_keeps:
  assumes s: "store_ok s" and e: "env_ok e s" and a: "admissible r s"
    and sub: "hm_get (st_subscriptions s) n = Some sub"
  shows "topic_keeps (s_topic (ss_spec sub)) s (snd (perform e r s))"
proof (cases r)
  case (CreateTopic t)
  show ?thesis
  proof (cases "hm_get (st_topics s) (t_name t)")
    case None
    then have "s_topic (ss_spec sub) \<noteq> t_name t"
      using a sub CreateTopic by (auto simp: admissible_def dangling_def)
    then show ?thesis using CreateTopic by (auto simp: create_topic_def topic_keeps_def Let_def)
  next
    case (Some u)
    then have "snd (create_topic e t s) = s" by (simp add: create_topic_def hm_contains_def)
    then show ?thesis using CreateTopic by (simp add: topic_keeps_def)
  qed
next
  case (UpdateTopic t upd)
  then show ?thesis by (auto simp: update_topic_def topic_keeps_def Let_def split: option.splits if_splits)
next
  case (DeleteTopic m)
  then show ?thesis by (auto simp: delete_topic_def topic_keeps_def split: option.splits if_splits)
next
  case (Publish topic ms)
  then show ?thesis using topic_keeps_extend publish_extends [OF s] by simp
next
  case (Pull m k)
  then show ?thesis using topic_keeps_extend pull_extends [OF s e] by simp
qed (auto intro!: topic_keeps_refl simp: create_subscription_def update_subscription_def
      delete_subscription_def modify_push_config_def acknowledge_def modify_ack_deadline_def
      seek_to_time_def seek_to_snapshot_def create_snapshot_def update_snapshot_def delete_snapshot_def
      set_iam_policy_def create_schema_def delete_schema_def Let_def case_prod_beta
      split: option.splits res.splits)

section \<open>Runs\<close>

text \<open>
  A run of admissible requests that do not disturb the subscription; \<open>calm\<close> runs have no
  failing exactly-once acknowledgement on it either.
\<close>

inductive quiet :: "bool \<Rightarrow> string \<Rightarrow> state \<Rightarrow> state \<Rightarrow> bool" for calm n s where
  stay: "quiet calm n s s"
| more: "\<lbrakk>quiet calm n s u; env_ok e u; admissible r u; \<not> disturbs n r;
     calm \<longrightarrow> \<not> expired_ack e n r u\<rbrakk> \<Longrightarrow> quiet calm n s (snd (perform e r u))"

lemma quiet_moves:
  assumes "quiet calm n s s'" and s: "store_ok s" and sub: "hm_get (st_subscriptions s) n = Some sub"
  shows "store_ok s' \<and> topic_keeps (s_topic (ss_spec sub)) s s'
    \<and> (\<exists>sub'. hm_get (st_subscriptions s') n = Some sub' \<and> moves sub sub' \<and> (calm \<longrightarrow> keeps_all sub sub'))"
  using assms(1)
proof (induction rule: quiet.induct)
  case stay
  then show ?case using s sub by (auto simp: topic_keeps_def)
next
  case (more u e r)
  then obtain sub1 where u: "store_ok u" "topic_keeps (s_topic (ss_spec sub)) s u"
    and sub1: "hm_get (st_subscriptions u) n = Some sub1" "moves sub sub1" "calm \<longrightarrow> keeps_all sub sub1"
    by blast
  obtain sub2 where sub2: "hm_get (st_subscriptions (snd (perform e r u))) n = Some sub2" "moves sub1 sub2"
    "\<not> expired_ack e n r u \<longrightarrow> keeps_all sub1 sub2"
    using perform_moves [OF u(1) more(2) sub1(1) more(4)] by blast
  have "s_topic (ss_spec sub1) = s_topic (ss_spec sub)" using sub1(2) by (simp add: moves_def)
  then have "topic_keeps (s_topic (ss_spec sub)) u (snd (perform e r u))"
    using perform_topic_keeps [OF u(1) more(2,3) sub1(1)] by simp
  then have "topic_keeps (s_topic (ss_spec sub)) s (snd (perform e r u))"
    by (rule topic_keeps_trans [OF u(2)])
  moreover have "store_ok (snd (perform e r u))" by (rule perform_ok [OF u(1) more(2,3)])
  moreover have "calm \<longrightarrow> keeps_all sub sub2"
    using keeps_all_trans [OF sub1(2) sub2(2)] sub1(3) sub2(3) more(5) by blast
  ultimately show ?case using sub2(1) moves_trans [OF sub1(2) sub2(2)] by blast
qed

end
