(* ===== verification/Store_Properties.thy ===== *)
theory Store_Properties
  imports Store_Traces
begin

text \<open>
  The properties of the message store: what a pull delivers, what is kept and what is lost
  over a run, and what publish stores. The samples at the start are the inputs the
  witnesses are evaluated on.
\<close>

section \<open>Facts about one pull\<close>

text \<open>The topic index a delivery of a pull stands for.\<close>

definition delivered_at :: "state \<Rightarrow> string \<Rightarrow> delivery \<Rightarrow> nat option" where
  "delivered_at s n d =
     (case hm_get (st_subscriptions s) n of
        None \<Rightarrow> None
      | Some sub \<Rightarrow> map_option if_topic_index (hm_get (ss_inflight sub) (dv_ack_id d)))"

lemma pull_OkD:
  assumes s: "store_ok s" and e: "env_ok e s" and p: "pull e n k s = (Ok ds, s')"
    and sub: "hm_get (st_subscriptions s) n = Some sub"
  obtains t st where "hm_get (st_topics s) (s_topic (ss_spec sub)) = Some t"
    "pull_inv (call_of e n sub t s) st" "pull_origin (call_of e n sub t s) st"
    "ds = pl_deliveries st" "length ds \<le> unat (clamp k 1 1000)"
    "length ds < unat (clamp k 1 1000) \<Longrightarrow>
       pick_index (e_now e) (length (ts_messages t)) (pl_skipped st) (pl_sub st) = None"
    "hm_get (st_subscriptions s') n = Some (pl_sub st)" "st_topics s' = pl_topics st"
    "sub_ok n (length (ts_messages t)) sub" "env_order_ok e" "e_persist e = None"
proof -
  from p sub obtain t where t: "hm_get (st_topics s) (s_topic (ss_spec sub)) = Some t"
    by (auto simp: pull_def Let_def split: option.splits)
  obtain st where st: "pull e n k s = (persist_locked e (pl_deliveries st),
       s\<lparr>st_topics := pl_topics st,
         st_subscriptions := hm_insert n (pl_sub st) (hm_remove n (st_subscriptions s))\<rparr>)"
    "pull_inv (call_of e n sub t s) st" "pull_origin (call_of e n sub t s) st"
    "length (pl_deliveries st) \<le> unat (clamp k 1 1000)"
    "length (pl_deliveries st) < unat (clamp k 1 1000) \<Longrightarrow>
       pick_index (e_now e) (length (ts_messages t)) (pl_skipped st) (pl_sub st) = None"
    "sub_ok n (length (ts_messages t)) sub"
    using pull_runs [OF s e sub t] by metis
  have "env_order_ok e" using e by (simp add: env_ok_def)
  moreover have "persist_locked e (pl_deliveries st) = Ok ds" using p st(1) by simp
  ultimately show ?thesis using that [OF t st(2,3)] st p by auto
qed

lemma distinct_lease_index:
  assumes ok: "sub_ok n len sub" and a: "hm_get (ss_inflight sub) k = Some v"
    and b: "hm_get (ss_inflight sub) k' = Some w" and i: "if_topic_index v = if_topic_index w"
  shows "k = k'"
proof (rule ccontr)
  assume "k \<noteq> k'"
  then have b': "hm_get (ss_inflight (release k sub)) k' = Some w" using b by simp
  have "if_topic_index w \<in> set (leased_at (release k sub))"
    using hm_get_SomeD [OF b'] by (force simp: leased_at_def hm_values_def)
  then have "if_topic_index v \<in> set (live (release k sub))" using i by (simp add: live_def)
  then show False using live_release(2) [OF ok a] by simp
qed

lemma pull_delivered:
  assumes inv: "pull_inv c st" and d: "d \<in> set (pl_deliveries st)"
  obtains i where "i < length (c_msgs c)"
    "hm_get (ss_inflight (pl_sub st)) (dv_ack_id d) = Some (lease_of (c_env c) (c_sub c) i)"
    "dv_message d = c_msgs c ! i" "i \<notin> ss_acked (c_sub c)" "\<not> leased (c_sub c) i"
    "\<not> filter_rejects (call_spec c) (m_attributes (c_msgs c ! i))"
    "s_enable_message_ordering (call_spec c) \<longrightarrow> \<not> earlier_unacked (ss_acked (pl_sub st)) (c_msgs c) i"
    "dv_delivery_attempt d = attempt_of (c_sub c) i 0 + 1" "attempts_within c (dv_delivery_attempt d)"
    "i \<notin> ss_acked (pl_sub st)" "i \<in> tracked (pl_sub st)"
proof -
  note I = pull_invD [OF inv]
  from I(15) [OF d] obtain i where i: "i < length (c_msgs c)"
    "hm_get (ss_inflight (pl_sub st)) (dv_ack_id d) = Some (lease_of (c_env c) (c_sub c) i)"
    "dv_message d = c_msgs c ! i" "i \<notin> ss_acked (c_sub c)" "\<not> leased (c_sub c) i"
    "\<not> filter_rejects (call_spec c) (m_attributes (c_msgs c ! i))"
    "s_enable_message_ordering (call_spec c) \<longrightarrow> \<not> earlier_unacked (ss_acked (pl_sub st)) (c_msgs c) i"
    "dv_delivery_attempt d = attempt_of (c_sub c) i 0 + 1" "attempts_within c (dv_delivery_attempt d)"
    unfolding delivered_ok_def by blast
  have "if_topic_index (lease_of (c_env c) (c_sub c) i) = i" by (simp add: lease_of_def)
  then show ?thesis
    using that [OF i] lease_not_acked(1,3) [OF I(1) i(2)] by (simp add: tracked_def live_def)
qed

lemma call_of_sel [simp]:
  "c_env (call_of e n sub t s) = e" "c_name (call_of e n sub t s) = n"
  "c_topic (call_of e n sub t s) = s_topic (ss_spec sub)" "c_msgs (call_of e n sub t s) = ts_messages t"
  "c_sub (call_of e n sub t s) = expire_leases e sub" "c_topics (call_of e n sub t s) = st_topics s"
  by (simp_all add: call_of_def)

lemma pull_call_delivered:
  assumes inv: "pull_inv (call_of e n sub t s) st" and d: "d \<in> set (pl_deliveries st)"
    and ok: "sub_ok n len sub" and ord: "env_order_ok e"
  shows "\<exists>i < length (ts_messages t).
    hm_get (ss_inflight (pl_sub st)) (dv_ack_id d) = Some (lease_of e sub i) \<and>
    dv_message d = ts_messages t ! i \<and> i \<notin> ss_acked sub \<and> \<not> leased (expire_leases e sub) i \<and>
    \<not> filter_rejects (ss_spec sub) (m_attributes (ts_messages t ! i)) \<and>
    (s_enable_message_ordering (ss_spec sub) \<longrightarrow> \<not> earlier_unacked (ss_acked (pl_sub st)) (ts_messages t) i) \<and>
    dv_delivery_attempt d = attempt_of sub i 0 + 1 \<and>
    attempts_within (call_of e n sub t s) (dv_delivery_attempt d) \<and>
    i \<notin> ss_acked (pl_sub st) \<and> i \<in> tracked (pl_sub st)"
proof -
  note x = expire_leases_ok [OF ok ord]
  have spec: "call_spec (call_of e n sub t s) = ss_spec sub" by (simp add: call_spec_def x(3))
  have same: "lease_of e (expire_leases e sub) i = lease_of e sub i"
    "attempt_of (expire_leases e sub) i 0 = attempt_of sub i 0" for i
    by (simp_all add: lease_of_def attempt_of_def x(3,6))
  show ?thesis
    by (rule pull_delivered [OF inv d], unfold call_of_sel spec same x(5)) blast
qed

lemma not_leased_after_expiry:
  assumes ok: "sub_ok n len sub" and e: "env_order_ok e" and nl: "\<not> leased (expire_leases e sub) i"
    and v: "hm_get (ss_inflight sub) k = Some v" "if_topic_index v = i"
  shows "if_deadline v \<le> e_now e"
proof (rule ccontr)
  assume "\<not> ?thesis"
  then have "hm_get (ss_inflight (expire_leases e sub)) k = Some v"
    using expire_leases_ok(7) [OF ok e, of k] v(1) by simp
  then show False using leased_of_inflight nl v(2) by blast
qed

section \<open>Indices behind the cursor that nothing tracks\<close>

definition lost :: "string \<Rightarrow> nat \<Rightarrow> state \<Rightarrow> bool" where
  "lost n i s =
     (\<exists>sub. hm_get (st_subscriptions s) n = Some sub \<and> i < ss_next_index sub \<and> i \<notin> tracked sub)"

lemma lost_quiet:
  assumes "lost n i s" "store_ok s" "quiet calm n s s'"
  shows "lost n i s'"
proof -
  from assms(1) obtain sub where sub: "hm_get (st_subscriptions s) n = Some sub"
    "i < ss_next_index sub" "i \<notin> tracked sub" by (auto simp: lost_def)
  obtain sub' where "hm_get (st_subscriptions s') n = Some sub'" "moves sub sub'"
    using quiet_moves [OF assms(3,2) sub(1)] by blast
  then show ?thesis using sub(2,3) by (auto simp: lost_def moves_def)
qed

lemma lost_after_pull:
  assumes l: "lost n i s" and s: "store_ok s" and e: "env_ok e s"
  shows "lost n i (snd (pull e n k s))"
proof -
  from l obtain sub where sub: "hm_get (st_subscriptions s) n = Some sub"
    "i < ss_next_index sub" "i \<notin> tracked sub" by (auto simp: lost_def)
  obtain sub' where "hm_get (st_subscriptions (snd (pull e n k s))) n = Some sub'" "moves sub sub'"
    using pull_moves [OF s e sub(1)] by blast
  then show ?thesis using sub(2,3) by (auto simp: lost_def moves_def)
qed

lemma lost_not_delivered:
  assumes l: "lost n i s" and s: "store_ok s" and e: "env_ok e s"
    and p: "pull e n k s = (Ok ds, s')" and d: "d \<in> set ds"
  shows "delivered_at s' n d \<noteq> Some i"
proof -
  obtain sub where sub: "hm_get (st_subscriptions s) n = Some sub" using l by (auto simp: lost_def)
  obtain t st where x: "pull_inv (call_of e n sub t s) st" "ds = pl_deliveries st"
    "hm_get (st_subscriptions s') n = Some (pl_sub st)"
    using pull_OkD [OF s e p sub] by metis
  have "lost n i s'" using lost_after_pull [OF l s e, of k] p by simp
  then have "i \<notin> tracked (pl_sub st)" using x(3) by (simp add: lost_def)
  moreover obtain j where "hm_get (ss_inflight (pl_sub st)) (dv_ack_id d) =
      Some (lease_of (c_env (call_of e n sub t s)) (c_sub (call_of e n sub t s)) j)"
    "j \<in> tracked (pl_sub st)"
    using pull_delivered [OF x(1), of d] d x(2) by metis
  ultimately show ?thesis using x(3) by (auto simp: delivered_at_def lease_of_def)
qed

lemma acked_not_delivered:
  assumes s: "store_ok s" and e: "env_ok e s" and sub: "hm_get (st_subscriptions s) n = Some sub"
    and i: "i \<in> ss_acked sub" and p: "pull e n k s = (Ok ds, s')" and d: "d \<in> set ds"
  shows "delivered_at s' n d \<noteq> Some i"
proof -
  obtain t st where x: "pull_inv (call_of e n sub t s) st" "ds = pl_deliveries st"
    "hm_get (st_subscriptions s') n = Some (pl_sub st)"
    "sub_ok n (length (ts_messages t)) sub" "env_order_ok e"
    using pull_OkD [OF s e p sub] by metis
  have "i \<in> ss_acked (pl_sub st)"
    using i pull_invD(5) [OF x(1)] expire_leases_ok(5) [OF x(4,5)] by (auto simp: call_of_def)
  moreover obtain j where "hm_get (ss_inflight (pl_sub st)) (dv_ack_id d) =
      Some (lease_of (c_env (call_of e n sub t s)) (c_sub (call_of e n sub t s)) j)"
    "j \<notin> ss_acked (pl_sub st)"
    using pull_delivered [OF x(1), of d] d x(2) by metis
  ultimately show ?thesis using x(3) by (auto simp: delivered_at_def lease_of_def)
qed

section \<open>What was due\<close>

text \<open>
  After a pull with room left, a message that was due is delivered, or rejected by the
  filter, or moved to the dead-letter topic, or waits for an earlier one of its key.
\<close>

lemma pull_due:
  assumes "store_ok s" "env_ok e s" "hm_get (st_subscriptions s) n = Some sub"
    and "hm_get (st_topics s) (s_topic (ss_spec sub)) = Some t"
    and "pull e n k s = (Ok ds, s')" "length ds < unat (clamp k 1 1000)" "i < length (ts_messages t)"
    and due: "ss_next_index sub \<le> i \<or>
      list_ex (\<lambda>x. re_topic_index x = i \<and> re_available_at x \<le> e_now e) (ss_retry_queue sub)"
  shows "(\<exists>d \<in> set ds. delivered_at s' n d = Some i \<and> dv_message d = ts_messages t ! i)
    \<or> filter_rejects (ss_spec sub) (m_attributes (ts_messages t ! i))
    \<or> exhausted (call_of e n sub t s) i \<and> dead_stored (call_of e n sub t s) (st_topics s') i
    \<or> s_enable_message_ordering (ss_spec sub) \<and> earlier_unacked (ss_acked sub) (ts_messages t) i"
proof -
  obtain st where inv: "pull_inv (call_of e n sub t s) st" and org: "pull_origin (call_of e n sub t s) st"
    and ds: "ds = pl_deliveries st"
    and pick: "pick_index (e_now e) (length (ts_messages t)) (pl_skipped st) (pl_sub st) = None"
    and sub': "hm_get (st_subscriptions s') n = Some (pl_sub st)" and tps: "st_topics s' = pl_topics st"
    and ok: "sub_ok n (length (ts_messages t)) sub" and ord: "env_order_ok e"
    using pull_OkD [OF assms(1,2,5,3)] assms(4,6) by (metis option.inject)
  note x = expire_leases_ok [OF ok ord] and I = pull_invD [OF inv, unfolded call_of_sel]
  have spec: "call_spec (call_of e n sub t s) = ss_spec sub" by (simp add: call_spec_def x(3))
  let ?x0 = "expire_leases e sub"
  have end_next: "length (ts_messages t) \<le> ss_next_index (pl_sub st)"
    and end_queue: "\<And>x. x \<in> set (ss_retry_queue (pl_sub st)) \<Longrightarrow> re_available_at x \<le> e_now e \<Longrightarrow>
        re_topic_index x \<in> pl_skipped st"
    using pick by (auto simp: pick_index_def position_None entry_ready_def split: option.splits if_splits)
  have dist: "distinct (live ?x0)" and disj: "set (live ?x0) \<inter> ss_acked ?x0 = {}"
    by (rule sub_okD(5,6) [OF x(1)])+
  have cursor: "j < ss_next_index sub" if "j \<in> tracked ?x0" for j
    using sub_okD(7) [OF x(1) that] x(4) by simp
  have queue0: "\<exists>x \<in> set (ss_retry_queue ?x0). re_topic_index x = i \<and> re_available_at x \<le> e_now e"
    if "\<not> ss_next_index sub \<le> i"
    using due that x(8) by (auto simp: list_ex_iff)
  have not0: "i \<notin> ss_acked ?x0 \<and> i \<notin> set (leased_at ?x0)"
  proof (cases "ss_next_index sub \<le> i")
    case True
    then show ?thesis using cursor [of i] by (auto simp: tracked_def live_def)
  next
    case False
    then have "i \<in> set (queued ?x0)" using queue0 by (auto simp: queued_def)
    then show ?thesis using dist disj by (auto simp: live_def)
  qed
  have "i \<in> tracked (pl_sub st)" using I(4) end_next assms(7) queue0 x(4)
    by (cases "ss_next_index sub \<le> i") (auto simp: tracked_def live_def queued_def)
  then consider (ack) "i \<in> ss_acked (pl_sub st)" | (lease) "i \<in> set (leased_at (pl_sub st))"
    | (queue) "i \<in> set (queued (pl_sub st))"
    by (auto simp: tracked_def live_def)
  then show ?thesis
  proof cases
    case ack
    then show ?thesis using org not0 spec tps by (auto simp: pull_origin_def)
  next
    case lease
    then obtain k' v where v: "(k', v) \<in> set (ss_inflight (pl_sub st))" "if_topic_index v = i"
      by (auto simp: leased_at_def hm_values_def)
    then have get: "hm_get (ss_inflight (pl_sub st)) k' = Some v"
      using hm_get_iff sub_okD(1) [OF I(1)] by metis
    have "hm_get (ss_inflight ?x0) k' \<noteq> Some v"
      using not0 v(2) leased_of_inflight [of ?x0 k' v] by (auto simp: leased_iff)
    then have "k' \<in> dv_ack_id ` set ds"
      using org get ds unfolding pull_origin_def call_of_sel by blast
    then obtain d where d: "d \<in> set ds" "k' = dv_ack_id d" by blast
    obtain j where "hm_get (ss_inflight (pl_sub st)) (dv_ack_id d) = Some (lease_of e sub j)"
      "dv_message d = ts_messages t ! j"
      using pull_call_delivered [OF inv _ ok ord] d(1) ds by blast
    then have "dv_message d = ts_messages t ! i" "delivered_at s' n d = Some i"
      using get v(2) d(2) sub' by (auto simp: lease_of_def delivered_at_def)
    then show ?thesis using d(1) by blast
  next
    case queue
    then obtain y where y: "y \<in> set (ss_retry_queue (pl_sub st))" "re_topic_index y = i"
      by (auto simp: queued_def)
    have "i \<in> pl_skipped st"
    proof (cases "re_topic_index y \<in> pl_skipped st")
      case False
      then have y0: "y \<in> set (ss_retry_queue ?x0)" using org y(1) by (auto simp: pull_origin_def)
      then have "i \<in> tracked ?x0" using y(2) by (auto simp: tracked_def live_def queued_def)
      then obtain z where z: "z \<in> set (ss_retry_queue ?x0)" "re_topic_index z = i" "re_available_at z \<le> e_now e"
        using queue0 cursor by fastforce
      have "inj_on re_topic_index (set (ss_retry_queue ?x0))"
        using dist by (simp add: live_def queued_def distinct_map)
      then have "y = z" using y0 z y(2) by (auto dest: inj_onD)
      then show ?thesis using end_queue [OF y(1)] z(2,3) by simp
    qed (use y in simp)
    then have "s_enable_message_ordering (ss_spec sub) \<and> earlier_unacked (ss_acked sub) (ts_messages t) i"
      using I(13) [of i] spec x(5) by simp
    then show ?thesis by blast
  qed
qed

lemma pull_call_same:
  assumes "store_ok s" "env_ok e s" "hm_get (st_subscriptions s) n = Some sub"
    and "hm_get (st_topics s) (s_topic (ss_spec sub)) = Some t"
  shows "call_spec (call_of e n sub t s) = ss_spec sub"
    and "ss_attempts (expire_leases e sub) = ss_attempts sub"
proof -
  have "sub_ok n (length (ts_messages t)) sub" using sub_fitsD(3) [OF store_okD(5) [OF assms(1,3)] assms(4)] .
  from expire_leases_ok [OF this] assms(2)
  show "call_spec (call_of e n sub t s) = ss_spec sub" "ss_attempts (expire_leases e sub) = ss_attempts sub"
    by (simp_all add: call_spec_def env_ok_def)
qed

section \<open>How long a pull takes\<close>

text \<open>One round of the loop that goes on.\<close>

definition pull_goes_on :: "env \<Rightarrow> string \<Rightarrow> string \<Rightarrow> nat \<Rightarrow> pull_state \<Rightarrow> pull_state \<Rightarrow> bool" where
  "pull_goes_on e n topic len st st' = (pull_step e n topic len st = Continue st')"

lemma pull_chain_measure:
  "(pull_goes_on e n topic len ^^ k) st st' \<Longrightarrow>
    k + pull_measure (e_now e) len st' \<le> pull_measure (e_now e) len st"
proof (induction k arbitrary: st')
  case (Suc k)
  then obtain st1 where "(pull_goes_on e n topic len ^^ k) st st1" "pull_goes_on e n topic len st1 st'"
    by (elim relpowp_Suc_E)
  then have "(pull_goes_on e n topic len ^^ k) st st1" "pull_step e n topic len st1 = Continue st'"
    by (simp_all add: pull_goes_on_def)
  then show ?case using Suc.IH pull_step_measure by fastforce
qed simp

lemma pull_loop_chain:
  "pull_loop e n topic len limit st = Some st' \<Longrightarrow> \<exists>k. (pull_goes_on e n topic len ^^ k) st st'"
proof (induction e n topic len limit st rule: pull_loop.induct)
  case (1 e n topic len limit st)
  show ?case
  proof (cases "\<exists>st1. length (pl_deliveries st) < limit \<and> pull_step e n topic len st = Continue st1")
    case True
    then obtain st1 where st1: "length (pl_deliveries st) < limit" "pull_step e n topic len st = Continue st1" by blast
    then have "pull_loop e n topic len limit st1 = Some st'" using "1.prems" by (subst (asm) pull_loop.simps) simp
    then obtain k where "(pull_goes_on e n topic len ^^ k) st1 st'" using "1.IH" [OF st1] by blast
    then have "(pull_goes_on e n topic len ^^ Suc k) st st'"
      by (rule relpowp_Suc_I2 [rotated]) (simp add: pull_goes_on_def st1(2))
    then show ?thesis by blast
  next
    case False
    then have "st' = st" using "1.prems" by (subst (asm) pull_loop.simps) (auto split: if_splits loop_step.splits)
    then show ?thesis by (intro exI [of _ 0]) simp
  qed
qed

text \<open>At the start there is a round left for every message that is not acknowledged, at most.\<close>

lemma pull_measure_start:
  assumes ok: "sub_ok n len sub" and ord: "env_order_ok e"
  shows "pull_measure (e_now e) len (pull_start e sub s) \<le> card {i. i < len \<and> i \<notin> ss_acked sub}"
proof -
  let ?x = "expire_leases e sub"
  note x = expire_leases_ok [OF ok ord]
  let ?ready = "filter (entry_ready (e_now e) {}) (ss_retry_queue ?x)"
  have d: "distinct (queued ?x)" using sub_okD(5) [OF x(1)] by (simp add: live_def)
  then have r: "length ?ready \<le> card (set (queued ?x))"
    using length_filter_le [of "entry_ready (e_now e) {}" "ss_retry_queue ?x"] distinct_card [OF d]
    by (simp add: queued_def)
  have q: "set (queued ?x) \<subseteq> {i. i < ss_next_index sub \<and> i < len \<and> i \<notin> ss_acked sub}"
    using sub_okD(4,6,7) [OF x(1)] x(4,5) by (fastforce simp: tracked_def live_def)
  have f: "finite {i. i < len \<and> i \<notin> ss_acked sub}" by simp
  have "card {ss_next_index sub ..< len} + card (set (queued ?x)) =
      card ({ss_next_index sub ..< len} \<union> set (queued ?x))"
    using q by (intro card_Un_disjoint [symmetric]) auto
  also have "\<dots> \<le> card {i. i < len \<and> i \<notin> ss_acked sub}"
    using q sub_okD(7) [OF ok] by (intro card_mono [OF f]) (force simp: tracked_def)
  finally show ?thesis using r x(4) by (simp add: pull_measure_def pull_start_def)
qed

lemma pull_loop_returns:
  fixes k :: u32
  assumes "store_ok s" "env_ok e s" "hm_get (st_subscriptions s) n = Some sub"
    and "hm_get (st_topics s) (s_topic (ss_spec sub)) = Some t"
  shows "\<exists>st. pull_loop e n (s_topic (ss_spec sub)) (length (ts_messages t)) (unat (clamp k 1 1000))
    (pull_start e sub s) = Some st"
proof -
  have "fst (pull e n k s) \<noteq> Panic" using perform_no_panic [OF assms(1,2), of "Pull n k"] by simp
  then show ?thesis using assms(3,4) by (auto simp: pull_def Let_def split: option.splits)
qed

end
