(* ===== verification/Store_Samples.thy ===== *)
theory Store_Samples
  imports Store_Properties
begin

text \<open>
  Concrete inputs: an environment, and a store with one topic and one subscription built
  by the operations themselves. The witnesses of the properties are evaluated on them.
\<close>

definition sample_env :: "string \<Rightarrow> time \<Rightarrow> env" where
  "sample_env prefix now =
     \<lparr>e_now = now, e_clock = (\<lambda>_. now), e_uuid = (\<lambda>k. prefix @ show_nat k), e_order = (\<lambda>m. m),
      e_persist = None, e_json = (\<lambda>_. Inl [])\<rparr>"

definition sample_topic :: string where
  "sample_topic = ''projects/p/topics/t''"

definition sample_sub :: string where
  "sample_sub = ''projects/p/subscriptions/s''"

definition sample_message :: "string \<Rightarrow> string \<Rightarrow> new_message" where
  "sample_message data key = \<lparr>n_data = data, n_attributes = [], n_ordering_key = key, n_message_id = []\<rparr>"

definition sample_spec :: "bool \<Rightarrow> bool \<Rightarrow> subscription_spec" where
  "sample_spec ordered once = subscription_default\<lparr>s_name := sample_sub, s_topic := sample_topic,
     s_ack_deadline_seconds := 10, s_enable_message_ordering := ordered,
     s_enable_exactly_once_delivery := once\<rparr>"

text \<open>The requests that build it: a topic, a subscription, two messages.\<close>

definition sample_requests :: "bool \<Rightarrow> bool \<Rightarrow> request list" where
  "sample_requests ordered once =
     [CreateTopic (topic_default\<lparr>t_name := sample_topic\<rparr>), CreateSubscription (sample_spec ordered once),
      Publish sample_topic [sample_message ''a'' ''k'', sample_message ''b'' ''k'']]"

fun perform_all :: "env \<Rightarrow> request list \<Rightarrow> state \<Rightarrow> state" where
  "perform_all e [] s = s"
| "perform_all e (r # rs) s = perform_all e rs (snd (perform e r s))"

definition sample_stored :: "string \<Rightarrow> string \<Rightarrow> relay_message" where
  "sample_stored mid data = \<lparr>m_id = mid, m_data = data, m_attributes = [(''relay.topic'', ''t'')],
     m_ordering_key = ''k'', m_published_at = 0\<rparr>"

definition sample_topic_state :: topic_state where
  "sample_topic_state = \<lparr>ts_spec = topic_default\<lparr>t_name := sample_topic\<rparr>,
     ts_messages = [sample_stored ''m0'' ''a'', sample_stored ''m1'' ''b''], ts_seen_ids = []\<rparr>"

definition sample_state :: "bool \<Rightarrow> bool \<Rightarrow> state" where
  "sample_state ordered once =
     \<lparr>st_topics = [(sample_topic, sample_topic_state)],
      st_subscriptions = [(sample_sub, new_subscription_state (sample_spec ordered once) 0)],
      st_snapshots = [], st_schemas = [], st_iam = []\<rparr>"

lemma sample_env_fresh:
  assumes "prefix \<noteq> []" "CHR '':'' \<notin> set prefix" "\<And>k. k \<in> U \<Longrightarrow> \<not> starts_with k prefix"
  shows "env_fresh (sample_env prefix now) U"
proof -
  have u: "e_uuid (sample_env prefix now) = (\<lambda>k. prefix @ show_nat k)" by (simp add: sample_env_def)
  have "inj (\<lambda>k. prefix @ show_nat k)" using show_nat_inj by (intro injI) simp
  moreover have "range (\<lambda>k. prefix @ show_nat k) \<inter> U = {}" using assms(3) by fastforce
  ultimately show ?thesis
    using assms(1,2) show_nat_no_colon by (auto simp: env_fresh_def u)
qed

lemma sample_env_order: "env_order_ok (sample_env prefix now)"
  by (simp add: env_order_ok_def sample_env_def)

lemma sample_env_ok:
  assumes "prefix \<noteq> []" "CHR '':'' \<notin> set prefix" "\<And>k. k \<in> lease_keys s \<Longrightarrow> \<not> starts_with k prefix"
  shows "env_ok (sample_env prefix now) s"
  unfolding env_ok_def using sample_env_order sample_env_fresh [OF assms] by blast

lemma sample_keys: "lease_keys (sample_state ordered once) = {}" "lease_keys empty_state = {}"
  by (auto simp: lease_keys_def sample_state_def new_subscription_state_def empty_state_def split: if_splits)

lemma no_lease_keys: "\<forall>x \<in> set (st_subscriptions s). ss_inflight (snd x) = [] \<Longrightarrow> lease_keys s = {}"
  unfolding lease_keys_def using hm_get_SomeD by fastforce

lemma sample_built:
  "perform_all (sample_env ''m'' 0) (sample_requests True False) empty_state = sample_state True False"
  "perform_all (sample_env ''m'' 0) (sample_requests False True) empty_state = sample_state False True"
  by code_simp+

lemma sample_ok: "store_ok (sample_state ordered once)"
proof -
  have "sub_ok sample_sub 2 (new_subscription_state (sample_spec ordered once) 0)"
    by (rule sub_ok_mono [OF sub_ok_new]) simp
  moreover have "topic_fits sample_topic sample_topic_state"
    by (simp add: topic_fits_def seen_ok_def sample_topic_state_def)
  moreover have "s_name (sample_spec ordered once) = sample_sub" "s_topic (sample_spec ordered once) = sample_topic"
    by (simp_all add: sample_spec_def)
  moreover have "length (ts_messages sample_topic_state) = 2" by (simp add: sample_topic_state_def)
  ultimately show ?thesis
    by (simp add: store_ok_def sample_state_def sub_fits_def hm_ok_def new_subscription_state_def)
qed

text \<open>The sample state is reachable; its requests one by one.\<close>

definition sample_step :: "bool \<Rightarrow> bool \<Rightarrow> nat \<Rightarrow> state" where
  "sample_step ordered once k = perform_all (sample_env ''m'' 0) (take k (sample_requests ordered once)) empty_state"

lemma sample_steps:
  "sample_step True False 1 = (sample_state True False)\<lparr>
     st_topics := [(sample_topic, sample_topic_state\<lparr>ts_messages := []\<rparr>)], st_subscriptions := []\<rparr>"
  "sample_step True False 2 = (sample_state True False)\<lparr>
     st_topics := [(sample_topic, sample_topic_state\<lparr>ts_messages := []\<rparr>)]\<rparr>"
  by code_simp+

lemma sample_reachable: "reachable (sample_state True False)"
proof -
  let ?e = "sample_env ''m'' 0" and ?rs = "sample_requests True False"
  have next_state: "reachable (snd (perform ?e r s))"
    if "reachable s" "lease_keys s = {}" "admissible r s" for r s
    using that by (intro reachable.next_state [OF that(1)] step.step sample_env_ok) auto
  have 1: "reachable (sample_step True False 1)"
    using next_state [OF reachable.start sample_keys(2), of "?rs ! 0"]
    by (simp add: sample_step_def sample_requests_def admissible_def dangling_def empty_state_def)
  have "sample_step True False 2 = snd (perform ?e (?rs ! 1) (sample_step True False 1))"
    by (simp add: sample_step_def sample_requests_def numeral_2_eq_2)
  moreover have "lease_keys (sample_step True False 1) = {}"
    unfolding sample_steps by (simp add: lease_keys_def)
  ultimately have 2: "reachable (sample_step True False 2)"
    using next_state [OF 1, of "?rs ! 1"] by (simp add: sample_requests_def admissible_def)
  have "sample_state True False = snd (perform ?e (?rs ! 2) (sample_step True False 2))"
    unfolding sample_built(1) [symmetric] by (simp add: sample_step_def sample_requests_def numeral_2_eq_2)
  moreover have "lease_keys (sample_step True False 2) = {}"
    unfolding sample_steps using sample_keys(1) [of True False] by (simp add: lease_keys_def)
  ultimately show ?thesis
    using next_state [OF 2, of "?rs ! 2"] by (simp add: sample_requests_def admissible_def)
qed

end
