(* ===== verification/Lifecycle.thy ===== *)
theory Lifecycle
  imports Store_Properties
begin

text \<open>
  What a subscription promises, without its data structures: every message of the topic is
  in one of five phases, and there are seven kinds of events that change them. The
  requests of the store are shown to refine this specification: each does to the phases
  what its event allows.
\<close>

section \<open>The specification\<close>

datatype phase = Unread | Leased | Waiting | Acked | Dropped

text \<open>
  \<^item> \<open>Idle\<close>: a request that does not touch the subscription's messages;
  \<^item> \<open>Deliver X D\<close>: the leases of \<open>X\<close> have expired, the messages of \<open>D\<close> are handed out; others
    may be put off (\<open>Waiting\<close>), or leave without delivery (\<open>Acked\<close>: filtered, dead-lettered);
  \<^item> \<open>Acknowledge I\<close> and \<open>Return I\<close>: leased messages are settled, or come back;
  \<^item> \<open>Reject I\<close>: an acknowledgement that fails half-way; the lease it fails on is given up;
  \<^item> \<open>Rewind p\<close>: everything from position \<open>p\<close> on is unread, everything before is left out.
\<close>

datatype life_event =
    Idle
  | Deliver "nat set" "nat set"
  | Settle "nat set"
  | Reject "nat set"
  | Return "nat set"
  | Rewind nat

definition in_phase :: "(nat \<Rightarrow> phase) \<Rightarrow> phase \<Rightarrow> nat set" where
  "in_phase f p = {i. f i = p}"

definition put :: "nat set \<Rightarrow> phase \<Rightarrow> (nat \<Rightarrow> phase) \<Rightarrow> nat \<Rightarrow> phase" where
  "put I p f = (\<lambda>i. if i \<in> I then p else f i)"

text \<open>A message that a delivery round does not hand out stays, is put off or leaves.\<close>

definition passed_over :: "phase \<Rightarrow> phase \<Rightarrow> bool" where
  "passed_over p q = (q = p \<or> p = Unread \<and> q \<in> {Waiting, Acked} \<or> p = Waiting \<and> q = Acked)"

inductive life_step :: "(nat \<Rightarrow> phase) \<Rightarrow> life_event \<Rightarrow> (nat \<Rightarrow> phase) \<Rightarrow> bool" where
  idle: "life_step f Idle f"
| deliver: "\<lbrakk>X \<subseteq> in_phase f Leased;
     \<forall>i \<in> D. put X Waiting f i \<in> {Unread, Waiting} \<and> h i = Leased;
     \<forall>i. i \<notin> D \<longrightarrow> passed_over (put X Waiting f i) (h i)\<rbrakk> \<Longrightarrow> life_step f (Deliver X D) h"
| settle: "I \<subseteq> in_phase f Leased \<Longrightarrow> life_step f (Settle I) (put I Acked f)"
| reject: "\<lbrakk>I \<subseteq> in_phase f Leased; f j = Leased; j \<notin> I\<rbrakk> \<Longrightarrow>
     life_step f (Reject I) (put {j} Dropped (put I Acked f))"
| return: "I \<subseteq> in_phase f Leased \<Longrightarrow> life_step f (Return I) (put I Waiting f)"
| rewind: "life_step f (Rewind p) (\<lambda>i. if i < p then Dropped else Unread)"

inductive_simps life_step_simps [simp]:
  "life_step f Idle h" "life_step f (Settle I) h" "life_step f (Return I) h"
  "life_step f (Rewind p) h"

inductive_cases life_step_deliver: "life_step f (Deliver X D) h"
inductive_cases life_step_reject: "life_step f (Reject I) h"

text \<open>
  What follows from the specification alone: but for a rewind, no settled message comes
  back, nothing is handed out that is settled, left out or under an unexpired lease, and
  only a rejected acknowledgement leaves a message out.
\<close>

definition rewinds :: "life_event \<Rightarrow> bool" where
  "rewinds ev = (case ev of Rewind _ \<Rightarrow> True | _ \<Rightarrow> False)"

inductive edge :: "phase \<Rightarrow> phase \<Rightarrow> bool" where
  "edge p p"
| "edge Unread Leased" | "edge Unread Waiting" | "edge Unread Acked"
| "edge Waiting Leased" | "edge Waiting Acked"
| "edge Leased Waiting" | "edge Leased Acked" | "edge Leased Dropped"

inductive_simps edge_simps [simp]: "edge p Unread" "edge p Dropped" "edge Acked q" "edge Dropped q"

lemma life_step_edge:
  assumes "life_step f ev h" "\<not> rewinds ev"
  shows "edge (f i) (h i)"
  using assms
proof cases
  case (deliver X D)
  have x: "f i = Leased" if "i \<in> X" using deliver(2) that by (auto simp: in_phase_def)
  show ?thesis
  proof (cases "i \<in> D")
    case True
    then show ?thesis using deliver(3) x by (cases "i \<in> X") (force simp: put_def intro: edge.intros)+
  next
    case False
    then have "passed_over (put X Waiting f i) (h i)" using deliver(4) by blast
    then show ?thesis using x by (cases "i \<in> X") (auto simp: put_def passed_over_def intro: edge.intros)
  qed
qed (auto simp: rewinds_def put_def in_phase_def subset_eq intro: edge.intros)

lemma settled_stays: "life_step f ev h \<Longrightarrow> \<not> rewinds ev \<Longrightarrow> f i = Acked \<Longrightarrow> h i = Acked"
  by (drule (1) life_step_edge [of f ev h i]) simp

lemma left_out_stays: "life_step f ev h \<Longrightarrow> \<not> rewinds ev \<Longrightarrow> f i = Dropped \<Longrightarrow> h i = Dropped"
  by (drule (1) life_step_edge [of f ev h i]) simp

lemma read_stays_read: "life_step f ev h \<Longrightarrow> \<not> rewinds ev \<Longrightarrow> h i = Unread \<Longrightarrow> f i = Unread"
  by (drule (1) life_step_edge [of f ev h i]) simp

lemma only_rejection_drops:
  assumes "life_step f ev h" "\<not> rewinds ev" "h i = Dropped" "f i \<noteq> Dropped"
  obtains I where "ev = Reject I" "f i = Leased" "i \<notin> I"
  using assms(1)
proof cases
  case (deliver X D)
  have "h i = Leased \<or> passed_over (put X Waiting f i) (h i)" using deliver(3,4) by blast
  then show ?thesis using assms(3,4) by (auto simp: passed_over_def put_def split: if_splits)
next
  case (reject I j)
  then show ?thesis using assms(3,4) that by (auto simp: put_def split: if_splits)
qed (use assms in \<open>auto simp: rewinds_def put_def split: if_splits\<close>)

section \<open>The abstraction\<close>

definition phase_of :: "subscription_state \<Rightarrow> nat \<Rightarrow> phase" where
  "phase_of sub i =
     (if ss_next_index sub \<le> i then Unread
      else if i \<in> ss_acked sub then Acked
      else if i \<in> set (leased_at sub) then Leased
      else if i \<in> set (queued sub) then Waiting
      else Dropped)"

lemma phase_of_iff:
  assumes "sub_ok n len sub"
  shows "phase_of sub i = Unread \<longleftrightarrow> ss_next_index sub \<le> i"
    "phase_of sub i = Acked \<longleftrightarrow> i \<in> ss_acked sub"
    "phase_of sub i = Leased \<longleftrightarrow> i \<in> set (leased_at sub)"
    "phase_of sub i = Waiting \<longleftrightarrow> i \<in> set (queued sub)"
    "phase_of sub i = Dropped \<longleftrightarrow> i < ss_next_index sub \<and> i \<notin> tracked sub"
  using sub_okD(5,6) [OF assms] sub_okD(7) [OF assms, of i] by (auto simp: phase_of_def tracked_def live_def)

lemma phase_of_eqI:
  assumes "ss_next_index sub' = ss_next_index sub" "ss_acked sub' = ss_acked sub"
    and "set (leased_at sub') = set (leased_at sub)" "set (queued sub') = set (queued sub)"
  shows "phase_of sub' = phase_of sub"
  using assms by (simp add: phase_of_def fun_eq_iff)

lemma phase_of_spec [simp]: "phase_of (sub\<lparr>ss_spec := x\<rparr>) = phase_of sub"
  by (rule phase_of_eqI) (simp_all add: leased_at_def queued_def)

text \<open>What a request is for the subscription \<open>n\<close>, whose state it takes to \<open>sub'\<close>.\<close>

definition expired_at :: "env \<Rightarrow> subscription_state \<Rightarrow> nat set" where
  "expired_at e sub = snd ` set (expired_leases e sub)"

definition handed_out :: "env \<Rightarrow> subscription_state \<Rightarrow> subscription_state \<Rightarrow> nat set" where
  "handed_out e sub sub' = set (leased_at sub') - set (leased_at (expire_leases e sub))"

definition ack_event ::
  "env \<Rightarrow> state \<Rightarrow> string list \<Rightarrow> subscription_state \<Rightarrow> subscription_state \<Rightarrow> life_event" where
  "ack_event e s ks sub sub' =
     (if is_ok (fst (ack_loop e (hm_get (st_topics s) (s_topic (ss_spec sub))) ks sub))
      then Settle (held sub ks) else Reject (ss_acked sub' - ss_acked sub))"

definition event_of ::
  "env \<Rightarrow> string \<Rightarrow> request \<Rightarrow> state \<Rightarrow> subscription_state \<Rightarrow> subscription_state \<Rightarrow> life_event" where
  "event_of e n r s sub sub' =
     (case r of
        Pull m k \<Rightarrow>
          if m = n \<and> hm_contains (st_topics s) (s_topic (ss_spec sub))
          then Deliver (expired_at e sub) (handed_out e sub sub') else Idle
      | Acknowledge m ks \<Rightarrow> if m = n then ack_event e s ks sub sub' else Idle
      | ModifyAckDeadline m ks secs \<Rightarrow> if m = n \<and> secs = 0 then Return (held sub ks) else Idle
      | SeekToTime m t \<Rightarrow>
          (case hm_get (st_topics s) (s_topic (ss_spec sub)) of
             Some topic \<Rightarrow> if m = n then Rewind (seek_index (ts_messages topic) t) else Idle
           | None \<Rightarrow> Idle)
      | SeekToSnapshot m x \<Rightarrow>
          (case hm_get (st_snapshots s) x of
             Some snap \<Rightarrow>
               if m = n \<and> s_topic (ss_spec sub) = sn_topic snap then Rewind (sn_topic_index snap) else Idle
           | None \<Rightarrow> Idle)
      | _ \<Rightarrow> Idle)"

section \<open>Acknowledgements and returns\<close>

lemma held_leased: "held sub ks \<subseteq> set (leased_at sub)"
  by (auto simp: held_def leased_at_def hm_values_def dest!: hm_get_SomeD) force

lemma in_phase_leased: "sub_ok n len sub \<Longrightarrow> in_phase (phase_of sub) Leased = set (leased_at sub)"
  by (simp add: in_phase_def phase_of_iff(3))

text \<open>
  When the queue stays as it is, the acknowledged set grows and the messages of \<open>J\<close> are no
  longer followed, exactly the new messages of the acknowledged set are settled.
\<close>

lemma phase_of_settled:
  assumes ok: "sub_ok n len sub" "sub_ok n len' sub'"
    and "ss_next_index sub' = ss_next_index sub" "ss_retry_queue sub' = ss_retry_queue sub"
    and "ss_acked sub' = ss_acked sub \<union> I" "tracked sub' = tracked sub - J" "J \<subseteq> tracked sub"
  shows "phase_of sub' = put J Dropped (put I Acked (phase_of sub))"
proof
  fix i
  have q: "queued sub' = queued sub" using assms(4) by (simp add: queued_def)
  have t: "i \<in> tracked sub' \<longleftrightarrow> i \<in> tracked sub \<and> i \<notin> J" using assms(6) by simp
  have a: "i \<in> ss_acked sub' \<longleftrightarrow> i \<in> ss_acked sub \<or> i \<in> I" using assms(5) by simp
  note P = phase_of_iff [OF ok(1), of i] and P' = phase_of_iff [OF ok(2), of i]
  consider "i \<in> J" | "i \<in> I" "i \<notin> J" | "i \<notin> I" "i \<notin> J" by blast
  then show "phase_of sub' i = put J Dropped (put I Acked (phase_of sub)) i"
  proof cases
    case 1
    then have "i \<in> tracked sub" using assms(7) by blast
    then show ?thesis using 1 t P'(5) sub_okD(7) [OF ok(1), of i] assms(3) by (simp add: put_def)
  next
    case 2
    then show ?thesis using P'(2) a by (simp add: put_def)
  next
    case 3
    then show ?thesis
      using P P' a t q assms(3) by (cases "phase_of sub i") (auto simp: put_def tracked_def live_def)
  qed
qed

lemma acknowledge_life:
  assumes ok: "sub_ok n (ss_next_index sub) sub"
    and r: "ack_loop e (hm_get (st_topics s) (s_topic (ss_spec sub))) ks sub = (q, sub')"
  shows "life_step (phase_of sub) (ack_event e s ks sub sub') (phase_of sub')"
proof (cases q)
  case (Ok u)
  have a: "sub_ok n (ss_next_index sub) sub'" "tracked sub' = tracked sub"
    "ss_acked sub' = ss_acked sub \<union> held sub ks"
    using ack_loop_Ok [OF ok, of e _ ks sub'] r Ok by auto
  have "phase_of sub' = put {} Dropped (put (held sub ks) Acked (phase_of sub))"
    by (rule phase_of_settled [OF ok a(1)]) (use ack_loop_frame [OF r] a(2,3) in auto)
  then show ?thesis
    using r Ok held_leased in_phase_leased [OF ok] by (simp add: ack_event_def is_ok_def put_def)
next
  case (Err err)
  obtain k v where v: "hm_get (ss_inflight sub) k = Some v"
    and a: "sub_ok n (ss_next_index sub) sub'" "tracked sub' = tracked sub - {if_topic_index v}"
    using ack_loop_Err [OF ok, of e _ ks err sub'] r Err by metis
  note f = ack_loop_frame [OF r]
  let ?I = "ss_acked sub' - ss_acked sub" and ?j = "if_topic_index v"
  have j: "?j \<in> set (leased_at sub)" "?j \<in> tracked sub"
    using lease_not_acked(3) [OF ok v] by (auto simp: tracked_def live_def)
  have "phase_of sub' = put {?j} Dropped (put ?I Acked (phase_of sub))"
    by (rule phase_of_settled [OF ok a(1)]) (use f a(2) j(2) in auto)
  moreover have "?I \<subseteq> set (leased_at sub)"
    using a(2) f sub_okD(6) [OF a(1)] by (auto simp: tracked_def live_def queued_def)
  moreover have "?j \<notin> ?I" using a(2) by (auto simp: tracked_def)
  ultimately show ?thesis
    using r Err j(1) phase_of_iff(3) [OF ok, of ?j] in_phase_leased [OF ok]
    by (auto simp: ack_event_def is_ok_def intro: life_step.reject)
next
  case Panic
  then show ?thesis using ack_loop_no_panic [of e _ ks sub] r by (metis fst_conv)
qed

text \<open>A returned lease leaves the lease map for the front of the queue.\<close>

lemma held_cong: "ss_inflight sub' = ss_inflight sub \<Longrightarrow> held sub' ks = held sub ks"
  by (simp add: held_def)

lemma phase_of_requeue:
  assumes ok: "sub_ok n len sub" and v: "hm_get (ss_inflight sub) k = Some v"
    and x: "re_topic_index x = if_topic_index v"
  shows "phase_of (requeue_front k x sub) = put {if_topic_index v} Waiting (phase_of sub)"
proof
  fix i
  let ?sub = "requeue_front k x sub"
  note r = sub_ok_requeue(3,4) [OF ok v x]
  have same: "ss_next_index ?sub = ss_next_index sub" "ss_acked ?sub = ss_acked sub"
    "queued ?sub = if_topic_index v # queued sub"
    using x by (simp_all add: requeue_front_def queued_def)
  note P = phase_of_iff [OF ok, of i] and P' = phase_of_iff [OF r(1), of i]
  show "phase_of ?sub i = put {if_topic_index v} Waiting (phase_of sub) i"
  proof (cases "i = if_topic_index v")
    case True
    then show ?thesis using P'(4) same by (simp add: put_def)
  next
    case False
    then show ?thesis
      using P P' same r(2) by (cases "phase_of sub i"; cases "phase_of ?sub i") (auto simp: put_def)
  qed
qed

lemma modify_extend_phase:
  assumes ok: "sub_ok n len sub" and "secs \<noteq> 0"
  shows "phase_of (modify_deadline_one e secs k sub) = phase_of sub"
proof (cases "hm_get (ss_inflight sub) k")
  case None
  then show ?thesis by (simp add: modify_deadline_one_def)
next
  case (Some v)
  then have m: "modify_deadline_one e secs k sub =
      sub\<lparr>ss_inflight := hm_insert k (v\<lparr>if_deadline := e_now e + seconds (unat secs)\<rparr>) (ss_inflight sub)\<rparr>"
    using assms(2) by (simp add: modify_deadline_one_def)
  show ?thesis
    unfolding m
    by (rule phase_of_eqI)
      (use mset_eq_setD [OF live_extend [OF sub_okD(1) [OF ok] Some]] in
        \<open>simp_all add: leased_at_def queued_def\<close>)
qed

lemma modify_fold_phase:
  assumes "sub_ok n len sub"
  shows "phase_of (fold (modify_deadline_one e secs) ks sub) =
    (if secs = 0 then put (held sub ks) Waiting (phase_of sub) else phase_of sub)"
  using assms
proof (induction ks arbitrary: sub)
  case Nil
  then show ?case by (simp add: put_def)
next
  case (Cons k ks)
  let ?mid = "modify_deadline_one e secs k sub"
  have "sub_ok n len ?mid" using modify_one_ok [OF Cons.prems] by blast
  note IH = Cons.IH [OF this]
  consider "secs \<noteq> 0" | "secs = 0" "hm_get (ss_inflight sub) k = None"
    | v where "secs = 0" "hm_get (ss_inflight sub) k = Some v" by blast
  then show ?case
  proof cases
    case 1
    then show ?thesis using IH modify_extend_phase [OF Cons.prems 1] by simp
  next
    case 2
    then have "?mid = sub" by (simp add: modify_deadline_one_def)
    then show ?thesis using IH 2 by (simp add: held_Cons_None)
  next
    case 3
    let ?x = "retry_at sub (if_topic_index v) (e_now e)"
    have m: "?mid = requeue_front k ?x sub" using 3 modify_one_nack by blast
    have "held ?mid ks = held (release k sub) ks" unfolding m by (rule held_cong) (simp add: requeue_front_def)
    moreover have "phase_of ?mid = put {if_topic_index v} Waiting (phase_of sub)"
      unfolding m by (rule phase_of_requeue [OF Cons.prems 3(2)]) (simp add: retry_at_def)
    ultimately show ?thesis using IH 3 by (auto simp: held_Cons_Some put_def)
  qed
qed

section \<open>Delivery\<close>

lemma leased_at_iff:
  assumes "sub_ok n len sub"
  shows "i \<in> set (leased_at sub) \<longleftrightarrow> (\<exists>k v. hm_get (ss_inflight sub) k = Some v \<and> if_topic_index v = i)"
  using hm_get_iff [OF sub_okD(1) [OF assms]] by (force simp: leased_at_def hm_values_def)

lemma expired_at_iff:
  assumes "sub_ok n len sub" "env_order_ok e"
  shows "i \<in> expired_at e sub \<longleftrightarrow>
      (\<exists>k v. hm_get (ss_inflight sub) k = Some v \<and> if_topic_index v = i \<and> if_deadline v \<le> e_now e)"
    and "i \<in> set (leased_at (expire_leases e sub)) \<longleftrightarrow> i \<in> set (leased_at sub) \<and> i \<notin> expired_at e sub"
proof -
  note ok = assms(1) and hm = sub_okD(1) [OF assms(1)]
  note x = expire_leases_ok [OF assms]
  show ex: "i \<in> expired_at e sub \<longleftrightarrow>
      (\<exists>k v. hm_get (ss_inflight sub) k = Some v \<and> if_topic_index v = i \<and> if_deadline v \<le> e_now e)"
    unfolding expired_at_def expired_leases_set [OF assms(2)] image_iff
    using hm_get_iff [OF hm] by fastforce
  have "i \<in> set (leased_at (expire_leases e sub)) \<longleftrightarrow>
      (\<exists>k v. hm_get (ss_inflight sub) k = Some v \<and> if_topic_index v = i \<and> \<not> if_deadline v \<le> e_now e)"
    unfolding leased_at_iff [OF x(1)] x(7) by (auto split: option.splits if_splits)
  moreover have "v = w" if "hm_get (ss_inflight sub) k = Some v" "hm_get (ss_inflight sub) k' = Some w"
    "if_topic_index v = if_topic_index w" for k k' v w
    using distinct_lease_index [OF ok that] that(1,2) by simp
  ultimately show "i \<in> set (leased_at (expire_leases e sub)) \<longleftrightarrow>
      i \<in> set (leased_at sub) \<and> i \<notin> expired_at e sub"
    unfolding ex leased_at_iff [OF ok] by metis
qed

lemma queued_expire:
  assumes "sub_ok n len sub" "env_order_ok e"
  shows "i \<in> set (queued (expire_leases e sub)) \<longleftrightarrow> i \<in> set (queued sub) \<or> i \<in> expired_at e sub"
proof -
  have "map re_topic_index (map (\<lambda>(k, i). retry_at sub i (e_now e)) (expired_leases e sub))
      = map snd (expired_leases e sub)"
    by (simp add: comp_def case_prod_beta retry_at_def)
  then show ?thesis
    unfolding queued_def expire_leases_ok(8) [OF assms] map_append expired_at_def by (simp add: image_iff)
qed

lemma expire_phase:
  assumes "sub_ok n len sub" "env_order_ok e"
  shows "phase_of (expire_leases e sub) = put (expired_at e sub) Waiting (phase_of sub)"
proof
  fix i
  note x = expire_leases_ok [OF assms] and l = expired_at_iff [OF assms]
  note P = phase_of_iff [OF assms(1), of i] and P' = phase_of_iff [OF x(1), of i]
  have t: "i \<in> tracked (expire_leases e sub) \<longleftrightarrow> i \<in> tracked sub" using x(2) by simp
  have q: "i \<in> set (queued (expire_leases e sub)) \<longleftrightarrow> i \<in> set (queued sub) \<or> i \<in> expired_at e sub"
    by (rule queued_expire [OF assms])
  show "phase_of (expire_leases e sub) i = put (expired_at e sub) Waiting (phase_of sub) i"
  proof (cases "i \<in> expired_at e sub")
    case True
    then show ?thesis using P'(4) q by (simp add: put_def)
  next
    case False
    then show ?thesis
      using P P' q t l(2) x(4,5) by (cases "phase_of sub i") (auto simp: put_def)
  qed
qed

lemma pull_phase:
  assumes inv: "pull_inv (call_of e n sub t s) st" "pull_origin (call_of e n sub t s) st"
    and ok: "sub_ok n len sub" and e: "env_order_ok e"
  shows "life_step (phase_of sub) (Deliver (expired_at e sub) (handed_out e sub (pl_sub st))) (phase_of (pl_sub st))"
proof (rule life_step.deliver)
  note x = expire_leases_ok [OF ok e] and I = pull_invD [OF inv(1), unfolded call_of_sel]
  let ?D = "handed_out e sub (pl_sub st)" and ?g = "put (expired_at e sub) Waiting (phase_of sub)"
  show "expired_at e sub \<subseteq> in_phase (phase_of sub) Leased"
    unfolding in_phase_leased [OF ok] using expired_at_iff(1) [OF ok e] leased_at_iff [OF ok] by blast
  note P = phase_of_iff [OF x(1)] and P' = phase_of_iff [OF I(1)]
  have g: "?g i = phase_of (expire_leases e sub) i" for i using expire_phase [OF ok e] by simp
  have t: "i \<in> tracked (pl_sub st) \<longleftrightarrow> i \<in> tracked (expire_leases e sub)
      \<or> ss_next_index (expire_leases e sub) \<le> i \<and> i < ss_next_index (pl_sub st)" for i
    using I(4) by auto
  have new: "i \<notin> ss_acked (expire_leases e sub)" if "i \<in> set (leased_at (pl_sub st))" for i
    using sub_okD(6) [OF I(1)] I(5) that by (auto simp: live_def)
  show "\<forall>i \<in> ?D. ?g i \<in> {Unread, Waiting} \<and> phase_of (pl_sub st) i = Leased"
  proof
    fix i
    assume "i \<in> ?D"
    then have i: "i \<in> set (leased_at (pl_sub st))" "i \<notin> set (leased_at (expire_leases e sub))"
      by (auto simp: handed_out_def)
    then have "i \<in> tracked (pl_sub st)" by (simp add: tracked_def live_def)
    then have "?g i \<in> {Unread, Waiting}"
      unfolding g using P [of i] t [of i] new [OF i(1)] i(2)
      by (cases "phase_of (expire_leases e sub) i") auto
    then show "?g i \<in> {Unread, Waiting} \<and> phase_of (pl_sub st) i = Leased" using P'(3) i(1) by simp
  qed
  show "\<forall>i. i \<notin> ?D \<longrightarrow> passed_over (?g i) (phase_of (pl_sub st) i)"
  proof (intro allI impI)
    fix i
    assume D: "i \<notin> ?D"
    have l: "i \<in> set (leased_at (pl_sub st)) \<longleftrightarrow> i \<in> set (leased_at (expire_leases e sub))"
      using D I(6) by (auto simp: handed_out_def)
    have a: "i \<in> ss_acked (expire_leases e sub) \<Longrightarrow> i \<in> ss_acked (pl_sub st)" using I(5) by blast
    have w: "i \<in> tracked (pl_sub st) \<longleftrightarrow>
        phase_of (pl_sub st) i \<in> {Acked, Leased, Waiting}"
      "i \<in> tracked (expire_leases e sub) \<longleftrightarrow> phase_of (expire_leases e sub) i \<in> {Acked, Leased, Waiting}"
      using P [of i] P' [of i] by (auto simp: tracked_def live_def)
    show "passed_over (?g i) (phase_of (pl_sub st) i)"
      unfolding g passed_over_def
      using P [of i] P' [of i] l a t [of i] w I(3)
      by (cases "phase_of (expire_leases e sub) i"; cases "phase_of (pl_sub st) i") auto
  qed
qed

text \<open>The messages of a successful pull are the ones handed out.\<close>

lemma pull_handed_out:
  assumes "store_ok s" "env_ok e s" "hm_get (st_subscriptions s) n = Some sub"
    and p: "pull e n k s = (Ok ds, s')" and sub': "hm_get (st_subscriptions s') n = Some sub'"
  shows "Some ` handed_out e sub sub' = delivered_at s' n ` set ds"
proof -
  obtain t st where inv: "pull_inv (call_of e n sub t s) st" "pull_origin (call_of e n sub t s) st"
    and ds: "ds = pl_deliveries st" and st: "hm_get (st_subscriptions s') n = Some (pl_sub st)"
    and ok: "sub_ok n (length (ts_messages t)) sub" and e: "env_order_ok e"
    using pull_OkD [OF assms(1,2) p assms(3)] by metis
  have eq: "sub' = pl_sub st" using st sub' by simp
  note x = expire_leases_ok [OF ok e] and I = pull_invD [OF inv(1), unfolded call_of_sel]
  have one: "\<exists>i. delivered_at s' n d = Some i \<and> i \<in> handed_out e sub sub'" if "d \<in> set ds" for d
  proof -
    have "d \<in> set (pl_deliveries st)" using that ds by simp
    then obtain i where i: "hm_get (ss_inflight (pl_sub st)) (dv_ack_id d) = Some (lease_of e sub i)"
      "\<not> leased (expire_leases e sub) i"
      using pull_call_delivered [OF inv(1) _ ok e] by blast
    then show ?thesis
      using st eq lease_not_acked(3) [OF I(1) i(1)]
      by (auto simp: delivered_at_def handed_out_def leased_iff lease_of_def)
  qed
  moreover have "\<exists>d \<in> set ds. delivered_at s' n d = Some i" if "i \<in> handed_out e sub sub'" for i
  proof -
    from that obtain k v where v: "hm_get (ss_inflight (pl_sub st)) k = Some v" "if_topic_index v = i"
      and new: "i \<notin> set (leased_at (expire_leases e sub))"
      using leased_at_iff [OF I(1)] eq by (auto simp: handed_out_def)
    have "hm_get (ss_inflight (expire_leases e sub)) k \<noteq> Some v"
      using new v(2) leased_at_iff [OF x(1)] by blast
    then have "k \<in> dv_ack_id ` set ds" using inv(2) v(1) ds by (auto simp: pull_origin_def)
    then show ?thesis using v st by (auto simp: delivered_at_def)
  qed
  ultimately show ?thesis by (auto simp: image_iff) metis+
qed

section \<open>Every request\<close>

text \<open>Seeks leave nothing of what was followed.\<close>

lemma phase_of_reset: "phase_of (reset_cursor p sub) = (\<lambda>i. if i < p then Dropped else Unread)"
  by (rule ext) (simp add: phase_of_def reset_cursor_def leased_at_def queued_def hm_values_def)

text \<open>Requests that leave all subscriptions as they are.\<close>

definition elsewhere :: "request \<Rightarrow> bool" where
  "elsewhere r =
     (case r of
        CreateTopic _ \<Rightarrow> True | UpdateTopic _ _ \<Rightarrow> True | DeleteTopic _ \<Rightarrow> True | Publish _ _ \<Rightarrow> True
      | CreateSnapshot _ _ _ \<Rightarrow> True | UpdateSnapshot _ _ \<Rightarrow> True | DeleteSnapshot _ \<Rightarrow> True
      | SetIamPolicy _ _ \<Rightarrow> True | CreateSchema _ \<Rightarrow> True | DeleteSchema _ \<Rightarrow> True | _ \<Rightarrow> False)"

lemma elsewhere_subscriptions:
  "elsewhere r \<Longrightarrow> st_subscriptions (snd (perform e r s)) = st_subscriptions s"
  by (cases r)
    (auto simp: elsewhere_def create_topic_def update_topic_def delete_topic_def publish_cases
      create_snapshot_def update_snapshot_def delete_snapshot_def set_iam_policy_def create_schema_def
      delete_schema_def Let_def split: option.splits res.splits)

lemma elsewhere_idle: "elsewhere r \<Longrightarrow> event_of e n r s sub sub' = Idle"
  by (auto simp: elsewhere_def event_of_def split: request.splits)

lemma pull_life:
  assumes s: "store_ok s" and e: "env_ok e s" and sub: "hm_get (st_subscriptions s) n = Some sub"
    and sub': "hm_get (st_subscriptions (snd (pull e n k s))) n = Some sub'"
  shows "life_step (phase_of sub) (event_of e n (Pull n k) s sub sub') (phase_of sub')"
proof (cases "hm_get (st_topics s) (s_topic (ss_spec sub))")
  case None
  then show ?thesis using sub sub' by (simp add: pull_def event_of_def hm_contains_def)
next
  case (Some t)
  obtain st where st: "pull e n k s = (persist_locked e (pl_deliveries st),
       s\<lparr>st_topics := pl_topics st,
         st_subscriptions := hm_insert n (pl_sub st) (hm_remove n (st_subscriptions s))\<rparr>)"
    "pull_inv (call_of e n sub t s) st" "pull_origin (call_of e n sub t s) st"
    "sub_ok n (length (ts_messages t)) sub"
    using pull_runs [OF s e sub Some] by metis
  have "env_order_ok e" using e by (simp add: env_ok_def)
  then show ?thesis
    using pull_phase [OF st(2-4)] st(1) sub' Some by (simp add: event_of_def hm_contains_def)
qed

text \<open>The others that concern the subscription, one by one.\<close>

lemma request_life:
  assumes s: "store_ok s" and e: "env_ok e s" and sub: "hm_get (st_subscriptions s) n = Some sub"
    and sub': "hm_get (st_subscriptions (snd (perform e r s))) n = Some sub'"
  shows "life_step (phase_of sub) (event_of e n r s sub sub') (phase_of sub')"
proof -
  have ok: "sub_ok n (ss_next_index sub) sub" by (rule sub_fitsD(2) [OF store_okD(5) [OF s sub]])
  show ?thesis
  proof (cases "elsewhere r")
    case True
    then show ?thesis using sub sub' elsewhere_subscriptions elsewhere_idle by (metis life_step.idle option.inject)
  next
    case False
    then show ?thesis
    proof (cases r)
      case (CreateSubscription x)
      then have "sub' = sub"
        using sub sub' by (auto simp: create_subscription_def hm_contains_def Let_def split: option.splits res.splits if_splits)
      then show ?thesis using CreateSubscription by (simp add: event_of_def)
    next
      case (UpdateSubscription x upd)
      then show ?thesis
        using sub sub' by (auto simp: update_subscription_def Let_def event_of_def split: option.splits if_splits)
    next
      case (ModifyPushConfig m ep a)
      then show ?thesis
        using sub sub' by (auto simp: modify_push_config_def Let_def event_of_def split: option.splits if_splits)
    next
      case (DeleteSubscription m)
      then show ?thesis
        using sub sub' by (auto simp: delete_subscription_def event_of_def split: option.splits if_splits)
    next
      case (Pull m k)
      show ?thesis
      proof (cases "m = n")
        case True
        then show ?thesis using Pull pull_life [OF s e sub] sub' by simp
      next
        case False
        then show ?thesis
          using sub sub' Pull by (auto simp: pull_def Let_def event_of_def split: option.splits)
      qed
    next
      case (Acknowledge m ks)
      show ?thesis
      proof (cases "m = n")
        case True
        obtain q x where "ack_loop e (hm_get (st_topics s) (s_topic (ss_spec sub))) ks sub = (q, x)" by fastforce
        then show ?thesis
          using acknowledge_life [OF ok] Acknowledge sub sub' True by (simp add: acknowledge_def event_of_def)
      next
        case False
        then show ?thesis
          using sub sub' Acknowledge by (auto simp: acknowledge_def case_prod_beta event_of_def Let_def split: option.splits)
      qed
    next
      case (ModifyAckDeadline m ks secs)
      have "held sub ks \<subseteq> in_phase (phase_of sub) Leased"
        using held_leased in_phase_leased [OF ok] by simp
      then show ?thesis
        using sub sub' modify_fold_phase [OF ok, of e secs ks] ModifyAckDeadline
        by (auto simp: modify_ack_deadline_def event_of_def split: option.splits if_splits)
    next
      case (SeekToTime m t)
      then show ?thesis
        using sub sub' by (auto simp: seek_to_time_def event_of_def phase_of_reset split: option.splits if_splits)
    next
      case (SeekToSnapshot m x)
      then show ?thesis
        using sub sub' by (auto simp: seek_to_snapshot_def event_of_def phase_of_reset split: option.splits if_splits)
    qed (auto simp: elsewhere_def)
  qed
qed

lemma request_keeps_subscription:
  assumes "store_ok s" "env_ok e s" "hm_get (st_subscriptions s) n = Some sub"
    and "hm_get (st_subscriptions (snd (perform e r s))) n = None"
  shows "r = DeleteSubscription n"
proof (cases "disturbs n r")
  case True
  then show ?thesis
    using assms(3,4)
    by (auto simp: disturbs_def seek_to_time_def seek_to_snapshot_def split: request.splits option.splits if_splits)
next
  case False
  then show ?thesis using perform_moves [OF assms(1-3) False] assms(4) by auto
qed

text \<open>Runs of requests, with the events they are for a subscription that stays.\<close>

inductive sub_run :: "string \<Rightarrow> state \<Rightarrow> life_event list \<Rightarrow> state \<Rightarrow> bool" for n s where
  stay: "sub_run n s [] s"
| more: "\<lbrakk>sub_run n s evs u; env_ok e u; admissible r u; hm_get (st_subscriptions u) n = Some sub;
     hm_get (st_subscriptions (snd (perform e r u))) n = Some sub'\<rbrakk> \<Longrightarrow>
   sub_run n s (evs @ [event_of e n r u sub sub']) (snd (perform e r u))"

inductive life_run :: "(nat \<Rightarrow> phase) \<Rightarrow> life_event list \<Rightarrow> (nat \<Rightarrow> phase) \<Rightarrow> bool" for f where
  stay: "life_run f [] f"
| more: "life_run f evs g \<Longrightarrow> life_step g ev h \<Longrightarrow> life_run f (evs @ [ev]) h"

lemma sub_run_refines:
  assumes "sub_run n s evs s'" "store_ok s" "hm_get (st_subscriptions s) n = Some sub"
  shows "store_ok s' \<and> (\<exists>sub'. hm_get (st_subscriptions s') n = Some sub' \<and>
    life_run (phase_of sub) evs (phase_of sub'))"
  using assms(1)
proof (induction rule: sub_run.induct)
  case stay
  then show ?case using assms(2,3) life_run.stay by blast
next
  case (more evs u e r sub1 sub2)
  then have "life_run (phase_of sub) evs (phase_of sub1)" "store_ok u" by auto
  then show ?case
    using request_life [OF _ more(2,4,5)] perform_ok [OF _ more(2,3)] more(5) life_run.more by blast
qed

lemma life_run_settled:
  "life_run f evs h \<Longrightarrow> list_all (\<lambda>ev. \<not> rewinds ev) evs \<Longrightarrow> f i = Acked \<Longrightarrow> h i = Acked"
  by (induction rule: life_run.induct) (auto dest: settled_stays)

end
