(* ===== verification/Store_Claims.thy ===== *)
theory Store_Claims
  imports Store_Samples Lifecycle
begin

text \<open>
  The properties of the message store as a state machine, each over whole requests, with
  the concrete runs that show their hypotheses can hold.
\<close>

section \<open>Runs never panic\<close>

text \<open>
  C1: In every state that requests can reach from the empty store without reusing the name
  of a deleted topic that is still referred to, no request panics, and the store is well
  formed again after it: maps with distinct keys, resources stored under their names, and
  for each subscription distinct indices behind the cursor, each leased, queued or
  acknowledged at most once.
\<close>

theorem reachable_requests_return:
  assumes "reachable s" "env_ok e s"
  shows "fst (perform e r s) \<noteq> Panic \<and> store_ok s \<and> (admissible r s \<longrightarrow> store_ok (snd (perform e r s)))"
  using perform_no_panic perform_ok reachable_ok [OF assms(1)] assms(2) by blast

theorem reachable_requests_return_witness:
  "store_ok (snd (perform (sample_env ''a'' 5) (Pull sample_sub 10) (sample_state True False)))"
proof -
  have "env_ok (sample_env ''a'' 5) (sample_state True False)"
    by (rule sample_env_ok) (simp_all add: sample_keys)
  from reachable_requests_return [OF sample_reachable this, of "Pull sample_sub 10"]
  show ?thesis by (simp add: admissible_def)
qed

section \<open>What a pull delivers\<close>

lemma pull_sample:
  assumes "prefix = ''a''" "ordered = True \<and> once = False \<or> ordered = False \<and> once = True"
  shows "env_ok (sample_env prefix now) (sample_state ordered once)"
  by (rule sample_env_ok) (simp_all add: sample_keys assms(1))

text \<open>
  C2: A successful pull returns at most the clamped number of messages, with distinct
  acknowledgement identifiers, for distinct messages of the topic. Each was neither
  acknowledged nor under an unexpired lease, passes the subscription's filter, is now
  leased until the acknowledgement deadline, and carries one more than its previous number
  of attempts, within the dead-letter bound when the dead-letter topic exists.
\<close>

theorem pull_delivers:
  assumes "store_ok s" "env_ok e s" "hm_get (st_subscriptions s) n = Some sub"
    and "pull e n k s = (Ok ds, s')"
  shows "\<exists>t sub'. hm_get (st_topics s) (s_topic (ss_spec sub)) = Some t \<and>
    hm_get (st_subscriptions s') n = Some sub' \<and>
    length ds \<le> unat (clamp k 1 1000) \<and> distinct (map dv_ack_id ds) \<and> distinct (map (delivered_at s' n) ds) \<and>
    list_all (\<lambda>d. \<exists>i < length (ts_messages t).
      hm_get (ss_inflight sub') (dv_ack_id d) = Some
        \<lparr>if_topic_index = i, if_deadline = e_now e
           + seconds (unat (normalize_ack_deadline (s_ack_deadline_seconds (ss_spec sub))))\<rparr> \<and>
      dv_message d = ts_messages t ! i \<and> i \<notin> ss_acked sub \<and>
      list_all (\<lambda>v. if_topic_index v \<noteq> i \<or> if_deadline v \<le> e_now e) (hm_values (ss_inflight sub)) \<and>
      \<not> filter_rejects (ss_spec sub) (m_attributes (ts_messages t ! i)) \<and>
      dv_delivery_attempt d = attempt_of sub i 0 + 1 \<and>
      (case s_dead_letter (ss_spec sub) of
         None \<Rightarrow> True
       | Some dlq \<Rightarrow> hm_get (st_topics s) (d_topic dlq) = None
           \<or> dv_delivery_attempt d \<le> clamp (d_max_delivery_attempts dlq) 5 100)) ds"
proof -
  obtain t st where t: "hm_get (st_topics s) (s_topic (ss_spec sub)) = Some t"
    and inv: "pull_inv (call_of e n sub t s) st" and ds: "ds = pl_deliveries st"
    and len: "length ds \<le> unat (clamp k 1 1000)"
    and sub': "hm_get (st_subscriptions s') n = Some (pl_sub st)"
    and ok: "sub_ok n (length (ts_messages t)) sub" and ord: "env_order_ok e"
    using pull_OkD [OF assms(1,2,4,3)] by metis
  note x = expire_leases_ok [OF ok ord]
  note I = pull_invD [OF inv]
  have one: "\<exists>i < length (ts_messages t).
      hm_get (ss_inflight (pl_sub st)) (dv_ack_id d) = Some
        \<lparr>if_topic_index = i, if_deadline = e_now e
           + seconds (unat (normalize_ack_deadline (s_ack_deadline_seconds (ss_spec sub))))\<rparr> \<and>
      dv_message d = ts_messages t ! i \<and> i \<notin> ss_acked sub \<and>
      list_all (\<lambda>v. if_topic_index v \<noteq> i \<or> if_deadline v \<le> e_now e) (hm_values (ss_inflight sub)) \<and>
      \<not> filter_rejects (ss_spec sub) (m_attributes (ts_messages t ! i)) \<and>
      dv_delivery_attempt d = attempt_of sub i 0 + 1 \<and>
      (case s_dead_letter (ss_spec sub) of
         None \<Rightarrow> True
       | Some dlq \<Rightarrow> hm_get (st_topics s) (d_topic dlq) = None
           \<or> dv_delivery_attempt d \<le> clamp (d_max_delivery_attempts dlq) 5 100)" if "d \<in> set ds" for d
  proof -
    have dd: "d \<in> set (pl_deliveries st)" using that ds by simp
    obtain i where i: "i < length (ts_messages t)"
      "hm_get (ss_inflight (pl_sub st)) (dv_ack_id d) = Some (lease_of e sub i)"
      "dv_message d = ts_messages t ! i" "i \<notin> ss_acked sub"
      "\<not> leased (expire_leases e sub) i" "\<not> filter_rejects (ss_spec sub) (m_attributes (ts_messages t ! i))"
      "dv_delivery_attempt d = attempt_of sub i 0 + 1"
      "attempts_within (call_of e n sub t s) (dv_delivery_attempt d)"
      using pull_call_delivered [OF inv dd ok ord] by blast
    have "if_deadline v \<le> e_now e" if "v \<in> set (hm_values (ss_inflight sub))" "if_topic_index v = i" for v
    proof -
      from that(1) obtain k' where "(k', v) \<in> set (ss_inflight sub)" by (auto simp: hm_values_def)
      then have "hm_get (ss_inflight sub) k' = Some v" using hm_get_iff sub_okD(1) [OF ok] by metis
      then show ?thesis by (rule not_leased_after_expiry [OF ok ord i(5) _ that(2)])
    qed
    then show ?thesis
      using i x(3)
      by (intro exI [of _ i])
        (auto simp: list_all_iff lease_of_def attempts_within_def call_spec_def split: option.splits)
  qed
  have "inj_on (delivered_at s' n) (set ds)"
  proof (rule inj_onI)
    fix d d'
    assume d: "d \<in> set ds" "d' \<in> set ds" "delivered_at s' n d = delivered_at s' n d'"
    have "dv_ack_id d = dv_ack_id d'"
      using one [OF d(1)] one [OF d(2)] d(3) sub' distinct_lease_index [OF I(1)]
      by (auto simp: delivered_at_def call_of_def)
    moreover have "distinct (map dv_ack_id ds)" using I(14) ds by simp
    ultimately show "d = d'" using d(1,2) by (auto simp: distinct_map dest: inj_onD)
  qed
  moreover have "distinct ds" using I(14) ds by (auto simp: distinct_map)
  ultimately have "distinct (map (delivered_at s' n) ds)" by (simp add: distinct_map)
  then show ?thesis
    using t sub' len I(14) ds one by (intro exI [of _ t] exI [of _ "pl_sub st"]) (auto simp: list_all_iff)
qed

definition sample_pulled :: "delivery list" where
  "sample_pulled = [\<lparr>dv_ack_id = sample_sub @ '':0:1'', dv_message = sample_stored ''m0'' ''a'', dv_delivery_attempt = 1\<rparr>,
     \<lparr>dv_ack_id = sample_sub @ '':1:1'', dv_message = sample_stored ''m1'' ''b'', dv_delivery_attempt = 1\<rparr>]"

lemma sample_pull:
  "fst (pull (sample_env ''a'' 5) sample_sub 10 (sample_state False True)) = Ok sample_pulled"
  by code_simp

lemma sample_sub_get:
  "hm_get (st_subscriptions (sample_state ordered once)) sample_sub =
     Some (new_subscription_state (sample_spec ordered once) 0)"
  by (simp add: sample_state_def)

theorem pull_delivers_witness:
  "distinct (map dv_ack_id sample_pulled) \<and> sample_pulled \<noteq> []"
proof -
  let ?s = "sample_state False True" and ?e = "sample_env ''a'' 5"
  have "pull ?e sample_sub 10 ?s = (Ok sample_pulled, snd (pull ?e sample_sub 10 ?s))"
    using sample_pull by (simp add: prod_eq_iff)
  from pull_delivers [OF sample_ok pull_sample sample_sub_get this] show ?thesis
    by (auto simp: sample_pulled_def)
qed

text \<open>
  C3: Ordered delivery. With message ordering enabled, when a message is delivered, every
  earlier message of the topic with the same non-empty ordering key is acknowledged, and
  a pull delivers at most one message of a key.
\<close>

theorem pull_ordered:
  assumes "store_ok s" "env_ok e s" "hm_get (st_subscriptions s) n = Some sub"
    and "pull e n k s = (Ok ds, s')" "s_enable_message_ordering (ss_spec sub)"
  shows "\<exists>t sub'. hm_get (st_topics s) (s_topic (ss_spec sub)) = Some t \<and>
    hm_get (st_subscriptions s') n = Some sub' \<and>
    list_all (\<lambda>d. \<exists>i < length (ts_messages t). delivered_at s' n d = Some i \<and>
        dv_message d = ts_messages t ! i \<and>
        (m_ordering_key (dv_message d) \<noteq> [] \<longrightarrow>
          list_all (\<lambda>j. m_ordering_key (ts_messages t ! j) = m_ordering_key (dv_message d) \<longrightarrow> j \<in> ss_acked sub')
            [0..<i])) ds \<and>
    list_all (\<lambda>d. list_all (\<lambda>d'. m_ordering_key (dv_message d) \<noteq> [] \<and>
        m_ordering_key (dv_message d) = m_ordering_key (dv_message d') \<longrightarrow> d = d') ds) ds"
proof -
  obtain t st where t: "hm_get (st_topics s) (s_topic (ss_spec sub)) = Some t"
    and inv: "pull_inv (call_of e n sub t s) st" and ds: "ds = pl_deliveries st"
    and sub': "hm_get (st_subscriptions s') n = Some (pl_sub st)"
    and ok: "sub_ok n (length (ts_messages t)) sub" and ord: "env_order_ok e"
    using pull_OkD [OF assms(1,2,4,3)] by metis
  note x = expire_leases_ok [OF ok ord] and I = pull_invD [OF inv]
  have one: "\<exists>i < length (ts_messages t).
      hm_get (ss_inflight (pl_sub st)) (dv_ack_id d) = Some (lease_of e sub i) \<and>
      dv_message d = ts_messages t ! i \<and> i \<notin> ss_acked (pl_sub st) \<and>
      \<not> earlier_unacked (ss_acked (pl_sub st)) (ts_messages t) i" if "d \<in> set ds" for d
    using pull_call_delivered [OF inv _ ok ord] that ds assms(5) by blast
  have idx: "if_topic_index (lease_of e y i) = i" for y i by (simp add: lease_of_def)
  have first: "\<exists>i < length (ts_messages t). delivered_at s' n d = Some i \<and>
        dv_message d = ts_messages t ! i \<and>
        (m_ordering_key (dv_message d) \<noteq> [] \<longrightarrow>
          list_all (\<lambda>j. m_ordering_key (ts_messages t ! j) = m_ordering_key (dv_message d) \<longrightarrow> j \<in> ss_acked (pl_sub st))
            [0..<i])" if "d \<in> set ds" for d
  proof -
    from one [OF that] obtain i where "i < length (ts_messages t)"
      "hm_get (ss_inflight (pl_sub st)) (dv_ack_id d) = Some (lease_of e sub i)"
      "dv_message d = ts_messages t ! i"
      "\<not> earlier_unacked (ss_acked (pl_sub st)) (ts_messages t) i" by blast
    then show ?thesis using sub' idx
      by (intro exI [of _ i]) (auto simp: delivered_at_def earlier_unacked_def list_all_iff)
  qed
  have second: "d = d'" if d: "d \<in> set ds" "d' \<in> set ds" "m_ordering_key (dv_message d) \<noteq> []"
    "m_ordering_key (dv_message d) = m_ordering_key (dv_message d')" for d d'
  proof -
    from one [OF d(1)] obtain i where i: 
      "hm_get (ss_inflight (pl_sub st)) (dv_ack_id d) = Some (lease_of e sub i)"
      "dv_message d = ts_messages t ! i" "i \<notin> ss_acked (pl_sub st)"
      "\<not> earlier_unacked (ss_acked (pl_sub st)) (ts_messages t) i" by blast
    from one [OF d(2)] obtain j where j:
      "hm_get (ss_inflight (pl_sub st)) (dv_ack_id d') = Some (lease_of e sub j)"
      "dv_message d' = ts_messages t ! j" "j \<notin> ss_acked (pl_sub st)"
      "\<not> earlier_unacked (ss_acked (pl_sub st)) (ts_messages t) j" by blast
    have key: "m_ordering_key (ts_messages t ! i) = m_ordering_key (ts_messages t ! j)"
      "m_ordering_key (ts_messages t ! i) \<noteq> []"
      using d(3,4) i(2) j(2) by simp_all
    have "\<not> i < j" using j(4) i(3) key unfolding earlier_unacked_def by metis
    moreover have "\<not> j < i" using i(4) j(3) key unfolding earlier_unacked_def by metis
    ultimately have "i = j" by simp
    then have "dv_ack_id d = dv_ack_id d'"
      using distinct_lease_index [OF I(1) _ _ refl] i(1) j(1) idx by auto
    moreover have "distinct (map dv_ack_id ds)" using I(14) ds by simp
    ultimately show ?thesis using d(1,2) by (auto simp: distinct_map dest: inj_onD)
  qed
  show ?thesis
    using t sub' first second by (intro exI [of _ t] exI [of _ "pl_sub st"]) (auto simp: list_all_iff)
qed

definition sample_ordered :: "delivery list" where
  "sample_ordered = [\<lparr>dv_ack_id = ''a0'', dv_message = sample_stored ''m0'' ''a'', dv_delivery_attempt = 1\<rparr>]"

lemma sample_pull_ordered:
  "fst (pull (sample_env ''a'' 5) sample_sub 10 (sample_state True False)) = Ok sample_ordered"
  by code_simp

theorem pull_ordered_witness: "length sample_ordered = 1 \<and> m_ordering_key (dv_message (sample_ordered ! 0)) = ''k''"
proof -
  let ?s = "sample_state True False" and ?e = "sample_env ''a'' 5"
  have "pull ?e sample_sub 10 ?s = (Ok sample_ordered, snd (pull ?e sample_sub 10 ?s))"
    using sample_pull_ordered by (simp add: prod_eq_iff)
  moreover have "s_enable_message_ordering (ss_spec (new_subscription_state (sample_spec True False) 0))"
    by (simp add: new_subscription_state_def sample_spec_def)
  ultimately show ?thesis
    using pull_ordered [OF sample_ok pull_sample sample_sub_get, of "''a''" True False 5 10 sample_ordered]
    by (auto simp: sample_ordered_def sample_stored_def)
qed

section \<open>A pull with room delivers everything that is due\<close>

text \<open>
  C4: Completeness of pull. When a pull returns fewer messages than its limit, every
  message that was due, either not read yet or waiting in the retry queue with its delay
  over, is delivered now, or rejected by the filter, or moved to the dead-letter topic,
  where its copy names it and the subscription, or waits for an earlier message of its
  ordering key.
\<close>

theorem pull_complete:
  assumes "store_ok s" "env_ok e s" "hm_get (st_subscriptions s) n = Some sub"
    and "hm_get (st_topics s) (s_topic (ss_spec sub)) = Some t"
    and "pull e n k s = (Ok ds, s')" "length ds < unat (clamp k 1 1000)" "i < length (ts_messages t)"
    and due: "ss_next_index sub \<le> i \<or>
      list_ex (\<lambda>x. re_topic_index x = i \<and> re_available_at x \<le> e_now e) (ss_retry_queue sub)"
  shows "(\<exists>d \<in> set ds. delivered_at s' n d = Some i \<and> dv_message d = ts_messages t ! i)
    \<or> filter_rejects (ss_spec sub) (m_attributes (ts_messages t ! i))
    \<or> (\<exists>dlq u m. s_dead_letter (ss_spec sub) = Some dlq \<and>
         clamp (d_max_delivery_attempts dlq) 5 100 < attempt_of sub i 0 + 1 \<and>
         hm_get (st_topics s') (d_topic dlq) = Some u \<and> m \<in> set (ts_messages u) \<and>
         m_data m = m_data (ts_messages t ! i) \<and>
         hm_get (m_attributes m) ''x-zyvor-original-message-id'' = Some (m_id (ts_messages t ! i)) \<and>
         hm_get (m_attributes m) ''x-zyvor-dead-letter-source'' = Some n)
    \<or> s_enable_message_ordering (ss_spec sub) \<and> earlier_unacked (ss_acked sub) (ts_messages t) i"
proof -
  let ?c = "call_of e n sub t s"
  have x: "call_spec ?c = ss_spec sub" "ss_attempts (expire_leases e sub) = ss_attempts sub" "c_name ?c = n"
    "c_msgs ?c = ts_messages t" "c_topics ?c = st_topics s"
    using pull_call_same [OF assms(1-4)] by simp_all
  show ?thesis
    using pull_due [OF assms]
    by (auto simp: exhausted_def dead_stored_def dead_copy_def attempt_of_def x split: option.splits)
qed

theorem pull_complete_witness:
  "\<exists>d \<in> set sample_pulled. dv_message d = sample_stored ''m1'' ''b''"
proof -
  let ?s = "sample_state False True" and ?e = "sample_env ''a'' 5"
  let ?sub = "new_subscription_state (sample_spec False True) 0"
  have t: "hm_get (st_topics ?s) (s_topic (ss_spec ?sub)) = Some sample_topic_state"
    by (simp add: sample_state_def new_subscription_state_def sample_spec_def)
  have p: "pull ?e sample_sub 10 ?s = (Ok sample_pulled, snd (pull ?e sample_sub 10 ?s))"
    using sample_pull by (simp add: prod_eq_iff)
  have "length sample_pulled < unat (clamp (10 :: u32) 1 1000)" by code_simp
  moreover have "1 < length (ts_messages sample_topic_state)" by (simp add: sample_topic_state_def)
  moreover have "ts_messages sample_topic_state ! 1 = sample_stored ''m1'' ''b''"
    by (simp add: sample_topic_state_def)
  ultimately show ?thesis
    using pull_complete [OF sample_ok pull_sample sample_sub_get t p, of 1]
    by (auto simp: new_subscription_state_def sample_spec_def filter_rejects_def subscription_default_def)
qed

text \<open>
  C13: The loop of a pull ends, and soon: it returns after a number of rounds that is at
  most the number of messages of the topic the subscription has not acknowledged, and no
  run of rounds from the state it starts in, whatever the limit, is longer.
\<close>

theorem pull_terminates:
  fixes k :: u32
  assumes "store_ok s" "env_ok e s" "hm_get (st_subscriptions s) n = Some sub"
    and "hm_get (st_topics s) (s_topic (ss_spec sub)) = Some t"
  shows "(\<exists>rounds st.
      pull_loop e n (s_topic (ss_spec sub)) (length (ts_messages t)) (unat (clamp k 1 1000)) (pull_start e sub s) = Some st \<and>
      (pull_goes_on e n (s_topic (ss_spec sub)) (length (ts_messages t)) ^^ rounds) (pull_start e sub s) st) \<and>
    (\<forall>rounds st.
      (pull_goes_on e n (s_topic (ss_spec sub)) (length (ts_messages t)) ^^ rounds) (pull_start e sub s) st \<longrightarrow>
      rounds \<le> card {i. i < length (ts_messages t) \<and> i \<notin> ss_acked sub})"
proof (intro conjI allI impI)
  show "\<exists>rounds st.
      pull_loop e n (s_topic (ss_spec sub)) (length (ts_messages t)) (unat (clamp k 1 1000)) (pull_start e sub s) = Some st \<and>
      (pull_goes_on e n (s_topic (ss_spec sub)) (length (ts_messages t)) ^^ rounds) (pull_start e sub s) st"
    using pull_loop_returns [OF assms] pull_loop_chain by metis
next
  fix rounds st
  assume "(pull_goes_on e n (s_topic (ss_spec sub)) (length (ts_messages t)) ^^ rounds) (pull_start e sub s) st"
  moreover have "sub_ok n (length (ts_messages t)) sub" by (rule sub_fitsD(3) [OF store_okD(5) [OF assms(1,3)] assms(4)])
  moreover have "env_order_ok e" using assms(2) by (simp add: env_ok_def)
  ultimately show "rounds \<le> card {i. i < length (ts_messages t) \<and> i \<notin> ss_acked sub}"
    using pull_chain_measure pull_measure_start by (meson add_leD1 le_trans)
qed

theorem pull_terminates_witness:
  "\<exists>st. pull_loop (sample_env ''a'' 5) sample_sub sample_topic 2 10 (pull_start (sample_env ''a'' 5)
      (new_subscription_state (sample_spec False True) 0) (sample_state False True)) = Some st"
proof -
  let ?s = "sample_state False True" and ?e = "sample_env ''a'' 5"
  let ?sub = "new_subscription_state (sample_spec False True) 0"
  have t: "hm_get (st_topics ?s) (s_topic (ss_spec ?sub)) = Some sample_topic_state"
    by (simp add: sample_state_def new_subscription_state_def sample_spec_def)
  have spec: "s_topic (ss_spec ?sub) = sample_topic" "length (ts_messages sample_topic_state) = 2"
    "unat (clamp (10 :: u32) 1 1000) = 10"
    by (simp_all add: new_subscription_state_def sample_spec_def sample_topic_state_def) code_simp
  show ?thesis
    using pull_terminates [OF sample_ok pull_sample sample_sub_get t, of "''a''" 5 10] unfolding spec by blast
qed

section \<open>Runs\<close>

text \<open>
  C5: At least once. Over any run of admissible requests that neither seek nor delete the
  subscription, and in which no exactly-once acknowledgement on it fails, every message
  index it tracked and every one its cursor passes is still acknowledged, leased or queued
  for redelivery at the end: no message is dropped, whatever else is done to the store.
\<close>

theorem run_loses_nothing:
  assumes "store_ok s" "hm_get (st_subscriptions s) n = Some sub" "quiet True n s s'"
  shows "\<exists>sub'. hm_get (st_subscriptions s') n = Some sub' \<and> ss_next_index sub \<le> ss_next_index sub' \<and>
    ss_acked sub \<subseteq> ss_acked sub' \<and>
    (\<forall>i. i \<in> tracked sub \<or> ss_next_index sub \<le> i \<and> i < ss_next_index sub' \<longrightarrow>
      i \<in> ss_acked sub' \<or> leased sub' i \<or> i \<in> set (queued sub'))"
proof -
  obtain sub' where "hm_get (st_subscriptions s') n = Some sub'" "moves sub sub'" "keeps_all sub sub'"
    using quiet_moves [OF assms(3,1,2)] by blast
  then show ?thesis by (auto simp: moves_def keeps_all_def tracked_def live_def leased_iff)
qed

theorem run_loses_nothing_witness:
  "\<exists>sub'. hm_get (st_subscriptions (snd (perform (sample_env ''a'' 5) (Pull sample_sub 10)
      (sample_state True False)))) sample_sub = Some sub' \<and> 0 \<le> ss_next_index sub'"
proof -
  let ?s = "sample_state True False" and ?e = "sample_env ''a'' 5"
  have "quiet True sample_sub ?s (snd (perform ?e (Pull sample_sub 10) ?s))"
    by (rule quiet.more [OF quiet.stay pull_sample])
      (simp_all add: admissible_def disturbs_def expired_ack_def)
  from run_loses_nothing [OF sample_ok sample_sub_get this] show ?thesis by auto
qed

text \<open>
  C6: Acknowledged messages stay acknowledged. After a successful acknowledgement, no pull
  at the end of any run that neither seeks nor deletes the subscription delivers the
  message again, whatever happens in between to leases, specifications and topics.
\<close>

theorem acknowledged_not_redelivered:
  assumes "store_ok s" "hm_get (st_subscriptions s) n = Some sub"
    and "acknowledge e n ks s = (Ok (), s1)"
    and "a \<in> set ks" "hm_get (ss_inflight sub) a = Some v"
    and "quiet calm n s1 s2" "env_ok e2 s2" "pull e2 n k s2 = (Ok ds, s3)" "d \<in> set ds"
  shows "delivered_at s3 n d \<noteq> Some (if_topic_index v)"
proof -
  let ?t = "hm_get (st_topics s) (s_topic (ss_spec sub))"
  obtain r sub1 where r: "ack_loop e ?t ks sub = (r, sub1)" by (cases "ack_loop e ?t ks sub")
  have ok: "sub_ok n (ss_next_index sub) sub" by (rule sub_fitsD(2) [OF store_okD(5) [OF assms(1,2)]])
  have s1: "s1 = s\<lparr>st_subscriptions := hm_insert n sub1 (st_subscriptions s)\<rparr>" and "r = Ok ()"
    using assms(2,3) r by (auto simp: acknowledge_def split: res.splits)
  then have "ss_acked sub1 = ss_acked sub \<union> held sub ks" using ack_loop_Ok [OF ok] r by blast
  then have i: "if_topic_index v \<in> ss_acked sub1" using assms(4,5) by (auto simp: held_def)
  have "store_ok s1" using store_ok_acknowledge(1) [OF assms(1), of e n ks] assms(3) by simp
  moreover have "hm_get (st_subscriptions s1) n = Some sub1" using s1 by simp
  ultimately obtain sub2 where s2: "store_ok s2" "hm_get (st_subscriptions s2) n = Some sub2" "moves sub1 sub2"
    using quiet_moves [OF assms(6)] by blast
  have "if_topic_index v \<in> ss_acked sub2" using i s2(3) by (auto simp: moves_def)
  then show ?thesis using acked_not_delivered [OF s2(1) assms(7) s2(2) _ assms(8,9)] by blast
qed

text \<open>The sample after its first ordered delivery was acknowledged.\<close>

definition sample_leased :: state where
  "sample_leased = snd (pull (sample_env ''a'' 5) sample_sub 10 (sample_state True False))"

definition sample_next :: "delivery list" where
  "sample_next = [\<lparr>dv_ack_id = ''b0'', dv_message = sample_stored ''m1'' ''b'', dv_delivery_attempt = 1\<rparr>]"

definition sample_lease :: inflight where
  "sample_lease = \<lparr>if_topic_index = 0, if_deadline = 10000000005\<rparr>"

definition sample_leased_sub :: subscription_state where
  "sample_leased_sub = \<lparr>ss_spec = sample_spec True False, ss_next_index = 2, ss_acked = {},
     ss_inflight = [(''a0'', sample_lease)],
     ss_retry_queue = [\<lparr>re_topic_index = 1, re_available_at = 5\<rparr>],
     ss_attempts = [(0, 1)], ss_ordering_acked = []\<rparr>"

lemma sample_leased_get:
  "hm_get (st_subscriptions sample_leased) sample_sub = Some sample_leased_sub"
  "fst (acknowledge (sample_env ''b'' 6) sample_sub [''a0''] sample_leased) = Ok ()"
  "fst (pull (sample_env ''b'' 7) sample_sub 10
      (snd (acknowledge (sample_env ''b'' 6) sample_sub [''a0''] sample_leased))) = Ok sample_next"
  "map (delivered_at (snd (pull (sample_env ''b'' 7) sample_sub 10
      (snd (acknowledge (sample_env ''b'' 6) sample_sub [''a0''] sample_leased)))) sample_sub) sample_next = [Some 1]"
  "map fst (st_subscriptions (snd (acknowledge (sample_env ''b'' 6) sample_sub [''a0''] sample_leased))) = [sample_sub]"
  "ss_inflight (snd (hd (st_subscriptions (snd (acknowledge (sample_env ''b'' 6) sample_sub [''a0''] sample_leased))))) = []"
  by code_simp+

lemma sample_leased_ok: "store_ok sample_leased"
  unfolding sample_leased_def by (rule store_ok_pull(1) [OF sample_ok pull_sample]) simp_all

theorem acknowledged_not_redelivered_witness:
  "delivered_at (snd (pull (sample_env ''b'' 7) sample_sub 10
      (snd (acknowledge (sample_env ''b'' 6) sample_sub [''a0''] sample_leased)))) sample_sub (sample_next ! 0) \<noteq> Some 0"
proof -
  let ?s1 = "snd (acknowledge (sample_env ''b'' 6) sample_sub [''a0''] sample_leased)"
  have a: "acknowledge (sample_env ''b'' 6) sample_sub [''a0''] sample_leased = (Ok (), ?s1)"
    using sample_leased_get(2) by (simp add: prod_eq_iff)
  have p: "pull (sample_env ''b'' 7) sample_sub 10 ?s1 = (Ok sample_next, snd (pull (sample_env ''b'' 7) sample_sub 10 ?s1))"
    using sample_leased_get(3) by (simp add: prod_eq_iff)
  have "lease_keys ?s1 = {}"
    using sample_leased_get(5,6) by (cases "st_subscriptions ?s1") (auto simp: lease_keys_def split: if_splits)
  then have e: "env_ok (sample_env ''b'' 7) ?s1" by (intro sample_env_ok) simp_all
  have l: "hm_get (ss_inflight sample_leased_sub) ''a0'' = Some sample_lease"
    by (simp add: sample_leased_sub_def)
  have "delivered_at (snd (pull (sample_env ''b'' 7) sample_sub 10 ?s1)) sample_sub (sample_next ! 0)
      \<noteq> Some (if_topic_index sample_lease)"
    by (rule acknowledged_not_redelivered [OF sample_leased_ok sample_leased_get(1) a _ l quiet.stay [of True] e p])
      (simp_all add: sample_next_def)
  then show ?thesis by (simp add: sample_lease_def)
qed

section \<open>The lifecycle of a subscription\<close>

text \<open>
  C8: The store refines the lifecycle specification. In a well-formed store every request
  does to the phases of a subscription's messages (unread, leased, waiting, settled, left
  out) exactly what the event it stands for allows, and a subscription is gone only after
  the request that deletes it. The messages that a successful pull returns are the ones the
  event hands out.
\<close>

theorem lifecycle_refined:
  assumes "store_ok s" "env_ok e s" "hm_get (st_subscriptions s) n = Some sub"
  shows "case hm_get (st_subscriptions (snd (perform e r s))) n of
      None \<Rightarrow> r = DeleteSubscription n
    | Some sub' \<Rightarrow>
        life_step (phase_of sub) (event_of e n r s sub sub') (phase_of sub') \<and>
        (\<forall>k ds s'. r = Pull n k \<longrightarrow> pull e n k s = (Ok ds, s') \<longrightarrow>
           Some ` handed_out e sub sub' = delivered_at s' n ` set ds)"
proof (cases "hm_get (st_subscriptions (snd (perform e r s))) n")
  case None
  then show ?thesis using request_keeps_subscription [OF assms] by simp
next
  case (Some sub')
  have "Some ` handed_out e sub sub' = delivered_at s' n ` set ds" if "r = Pull n k" "pull e n k s = (Ok ds, s')"
    for k ds s'
    using Some that by (intro pull_handed_out [OF assms that(2)]) simp
  then show ?thesis using Some request_life [OF assms Some] by simp
qed

text \<open>
  Two messages with one key, on an ordered subscription: the first is handed out, the
  second put off.
\<close>

definition sample_after :: subscription_state where
  "sample_after =
     (case hm_get (st_subscriptions (snd (perform (sample_env ''a'' 5) (Pull sample_sub 10)
        (sample_state True False)))) sample_sub of Some sub \<Rightarrow> sub | None \<Rightarrow> new_subscription_state (sample_spec True False) 0)"

lemma sample_after_get:
  "hm_get (st_subscriptions (snd (perform (sample_env ''a'' 5) (Pull sample_sub 10)
     (sample_state True False)))) sample_sub = Some sample_after"
  "map (phase_of sample_after) [0, 1, 2] = [Leased, Waiting, Unread]"
  "leased_at sample_after = [0]"
  by code_simp+

theorem lifecycle_refined_witness:
  "life_step (phase_of (new_subscription_state (sample_spec True False) 0)) (Deliver {} {0}) (phase_of sample_after)
   \<and> phase_of sample_after 0 = Leased \<and> phase_of sample_after 1 = Waiting"
proof -
  let ?s = "sample_state True False" and ?e = "sample_env ''a'' 5"
  let ?sub = "new_subscription_state (sample_spec True False) 0"
  have e: "expire_leases ?e ?sub = ?sub" "expired_at ?e ?sub = {}"
    by (simp_all add: expire_leases_def expired_at_def expired_leases_def new_subscription_state_def sample_env_def)
  have "handed_out ?e ?sub sample_after = {0}"
    unfolding handed_out_def e sample_after_get(3)
    by (simp add: new_subscription_state_def leased_at_def hm_values_def)
  moreover have "hm_contains (st_topics ?s) (s_topic (ss_spec ?sub))" by code_simp
  ultimately have "event_of ?e sample_sub (Pull sample_sub 10) ?s ?sub sample_after = Deliver {} {0}"
    using e(2) by (simp add: event_of_def)
  moreover have "env_ok ?e ?s" by (rule pull_sample) simp_all
  ultimately show ?thesis
    using lifecycle_refined [OF sample_ok _ sample_sub_get, of ?e True False "Pull sample_sub 10"]
      sample_after_get by simp
qed

end
