(* ===== verification/Store_Findings.thy ===== *)
theory Store_Findings
  imports Store_Claims
begin

text \<open>
  Three behaviours of the store that lose messages or a subscription: an acknowledgement
  that fails, ordered delivery behind the cursor, and a topic that is deleted and created
  again under its subscription.
\<close>

section \<open>A failed acknowledgement drops its message\<close>

text \<open>
  C7: When an acknowledgement on an exactly-once subscription is refused because a lease
  has expired, the lease is already gone and its message is put nowhere: it is neither
  acknowledged nor leased nor queued, behind the cursor, and no pull after any later run
  without a seek delivers it.
\<close>

theorem failed_ack_loses_message:
  assumes "store_ok s" "hm_get (st_subscriptions s) n = Some sub"
    and "acknowledge e n ks s = (Err (FailedPrecondition msg), s1)"
  shows "\<exists>k v sub1. k \<in> set ks \<and> hm_get (ss_inflight sub) k = Some v \<and> if_deadline v < e_now e \<and>
    hm_get (st_subscriptions s1) n = Some sub1 \<and>
    if_topic_index v \<notin> ss_acked sub1 \<and> \<not> leased sub1 (if_topic_index v) \<and>
    if_topic_index v \<notin> set (queued sub1) \<and>
    (\<forall>calm s2 e2 m ds s3 d. quiet calm n s1 s2 \<longrightarrow> env_ok e2 s2 \<longrightarrow> pull e2 n m s2 = (Ok ds, s3) \<longrightarrow>
       d \<in> set ds \<longrightarrow> delivered_at s3 n d \<noteq> Some (if_topic_index v))"
proof -
  let ?t = "hm_get (st_topics s) (s_topic (ss_spec sub))"
  obtain r sub1 where r: "ack_loop e ?t ks sub = (r, sub1)" by (cases "ack_loop e ?t ks sub")
  have ok: "sub_ok n (ss_next_index sub) sub" by (rule sub_fitsD(2) [OF store_okD(5) [OF assms(1,2)]])
  have s1: "s1 = s\<lparr>st_subscriptions := hm_insert n sub1 (st_subscriptions s)\<rparr>"
    using assms(2,3) r by (auto simp: acknowledge_def split: res.splits)
  have err: "r = Err (FailedPrecondition msg)"
    using assms(2,3) r by (auto simp: acknowledge_def persist_locked_def split: res.splits option.splits)
  obtain k v where kv: "k \<in> set ks" "hm_get (ss_inflight sub) k = Some v" "if_deadline v < e_now e"
    "sub_ok n (ss_next_index sub) sub1" "tracked sub1 = tracked sub - {if_topic_index v}"
    using ack_loop_Err [OF ok r [unfolded err]] by blast
  have get: "hm_get (st_subscriptions s1) n = Some sub1" using s1 by simp
  have "if_topic_index v < ss_next_index sub1"
    using lease_not_acked(2) [OF ok kv(2)] ack_loop_frame [OF r] by simp
  then have lost: "lost n (if_topic_index v) s1" using get kv(5) by (auto simp: lost_def)
  have "store_ok s1" using store_ok_acknowledge(1) [OF assms(1), of e n ks] assms(3) by simp
  then have "\<forall>calm s2 e2 m ds s3 d. quiet calm n s1 s2 \<longrightarrow> env_ok e2 s2 \<longrightarrow> pull e2 n m s2 = (Ok ds, s3) \<longrightarrow>
       d \<in> set ds \<longrightarrow> delivered_at s3 n d \<noteq> Some (if_topic_index v)"
    using lost_quiet [OF lost] lost_not_delivered quiet_moves [OF _ _ get] by blast
  moreover have "if_topic_index v \<notin> tracked sub1" using kv(5) by simp
  ultimately show ?thesis using kv(1-3) get by (auto simp: tracked_def live_def leased_iff)
qed

text \<open>The sample: two messages leased exactly once, the first acknowledged too late.\<close>

definition sample_once :: state where
  "sample_once = snd (pull (sample_env ''a'' 5) sample_sub 10 (sample_state False True))"

definition sample_late :: "unit res \<times> state" where
  "sample_late = acknowledge (sample_env ''b'' 20000000000) sample_sub [sample_sub @ '':0:1''] sample_once"

lemma sample_once_ok: "store_ok sample_once"
  unfolding sample_once_def by (rule store_ok_pull(1) [OF sample_ok pull_sample]) simp_all

lemma sample_once_eval:
  "fst sample_late = Err (FailedPrecondition (''ack deadline expired for '' @ sample_sub @ '':0:1''))"
  "map_option ss_next_index (hm_get (st_subscriptions sample_once) sample_sub) = Some 2"
  "fst (pull (sample_env ''d'' 60000000000) sample_sub 10
      (snd (pull (sample_env ''c'' 40000000000) sample_sub 10 (snd sample_late))))
     = Ok [\<lparr>dv_ack_id = sample_sub @ '':1:2'', dv_message = sample_stored ''m1'' ''b'', dv_delivery_attempt = 2\<rparr>]"
  by code_simp+

theorem failed_ack_loses_message_witness:
  "\<exists>i sub1. hm_get (st_subscriptions (snd sample_late)) sample_sub = Some sub1 \<and>
     i \<notin> ss_acked sub1 \<and> \<not> leased sub1 i \<and> i \<notin> set (queued sub1) \<and>
     fst (pull (sample_env ''d'' 60000000000) sample_sub 10
       (snd (pull (sample_env ''c'' 40000000000) sample_sub 10 (snd sample_late))))
       = Ok [\<lparr>dv_ack_id = sample_sub @ '':1:2'', dv_message = sample_stored ''m1'' ''b'', dv_delivery_attempt = 2\<rparr>]"
proof -
  obtain sub where sub: "hm_get (st_subscriptions sample_once) sample_sub = Some sub"
    using sample_once_eval(2) by auto
  have a: "acknowledge (sample_env ''b'' 20000000000) sample_sub [sample_sub @ '':0:1''] sample_once
      = (Err (FailedPrecondition (''ack deadline expired for '' @ sample_sub @ '':0:1'')), snd sample_late)"
    using sample_once_eval(1) unfolding sample_late_def by (simp add: prod_eq_iff)
  show ?thesis using failed_ack_loses_message [OF sample_once_ok sub a] sample_once_eval(3) by blast
qed

section \<open>Ordered delivery behind the cursor\<close>










section \<open>A topic created again\<close>




end
