(* ===== verification/Operation_Claims.thy ===== *)
theory Operation_Claims
  imports Store_Samples
begin

text \<open>
  The functional behaviour of the single operations: publish, the lease operations, the
  seeks, and the resource tables.
\<close>

section \<open>Publish\<close>


definition sample_batch :: "new_message list" where
  "sample_batch = [(sample_message ''x'' [])\<lparr>n_message_id := ''c1''\<rparr>,
     (sample_message ''y'' [])\<lparr>n_message_id := ''c2''\<rparr>, (sample_message ''z'' [])\<lparr>n_message_id := ''c1''\<rparr>]"

definition sample_published :: state where
  "sample_published = snd (publish (sample_env ''p'' 9) sample_topic sample_batch (sample_state True False))"

lemma sample_publish:
  "fst (publish (sample_env ''p'' 9) sample_topic sample_batch (sample_state True False)) = Ok [''c1'', ''c2'', ''c1'']"
  "map (\<lambda>(n, t). map m_data (ts_messages t)) (st_topics sample_published) = [[''a'', ''b'', ''x'', ''y'']]"
  by code_simp+

lemma sample_publish_pair:
  "publish (sample_env ''p'' 9) sample_topic sample_batch (sample_state True False) = (Ok [''c1'', ''c2'', ''c1''], sample_published)"
  using sample_publish(1) by (simp add: prod_eq_iff sample_published_def)


text \<open>
  C11: Publishing is idempotent in the client's identifiers: repeating a successful batch
  whose messages all carry one (a message id or an \<open>idempotency_key\<close> attribute) returns
  the same identifiers and stores nothing more.
\<close>

theorem publish_retry:
  assumes "store_ok s" "publish e topic ms s = (Ok ids, s')"
    and "list_all (\<lambda>m. client_id_of m \<noteq> []) ms" "e_json e' = e_json e" "e_persist e' = None"
  shows "publish e' topic ms s' = (Ok ids, s') \<and> ids = map client_id_of ms"
proof -
  obtain t t' where t: "hm_get (st_topics s) topic = Some t" "publish_gate (e_json e) s t ms = Ok ()"
    and r: "publish_loop e topic 0 ms t = (ids, t')"
    and s': "s' = s\<lparr>st_topics := hm_insert topic t' (st_topics s)\<rparr>"
    using publish_OkD [OF assms(2)] by metis
  have "seen_ok t" using store_okD(4) [OF assms(1) t(1)] by (simp add: topic_fits_def)
  note p = publish_loop_spec [OF this r]
  have seen: "client_id_of m \<noteq> [] \<and> hm_get (ts_seen_ids t') (client_id_of m) \<noteq> None" if "m \<in> set ms" for m
  proof -
    from that obtain i where "i < length ms" "ms ! i = m" by (auto simp: in_set_conv_nth)
    then show ?thesis using p assms(3) that by (auto simp: list_all_iff)
  qed
  have ids: "ids = map client_id_of ms"
  proof (rule nth_equalityI)
    show "length ids = length (map client_id_of ms)" using p by simp
    fix i
    assume "i < length ids"
    then have "i < length ms" using p by simp
    moreover have "client_id_of (ms ! i) \<noteq> []" using seen calculation by simp
    ultimately show "ids ! i = map client_id_of ms ! i" using p by simp
  qed
  have again: "publish_loop e' topic 0 ms t' = (map client_id_of ms, t')"
    by (rule publish_loop_seen) (use p seen in auto)
  have t': "hm_get (st_topics s') topic = Some t'" by (simp add: s')
  have "publish_gate (e_json e') s' t' ms = Ok ()"
    using t(2) p by (simp add: publish_gate_Ok assms(4) s')
  moreover have "s'\<lparr>st_topics := hm_insert topic t' (st_topics s')\<rparr> = s'"
    using hm_insert_same [OF t'] by simp
  ultimately show ?thesis using t' again ids assms(5) by (simp add: publish_cases persist_locked_def)
qed

theorem publish_retry_witness:
  "publish (sample_env ''r'' 20) sample_topic sample_batch sample_published = (Ok [''c1'', ''c2'', ''c1''], sample_published)"
  using publish_retry [OF sample_ok sample_publish_pair, of "sample_env ''r'' 20"]
  by (simp add: sample_batch_def sample_message_def client_id_of_def sample_env_def)

text \<open>
  C12: The gate of publish. While persisting works, publish succeeds exactly when the topic
  exists and, if the topic is bound to a schema, the schema exists and accepts the payload
  of every message of the batch; otherwise the store is left as it was.
\<close>

theorem publish_gate_exact:
  assumes "e_persist e = None"
  shows "(is_ok (fst (publish e topic ms s)) \<longleftrightarrow>
      (\<exists>t. hm_get (st_topics s) topic = Some t \<and>
        (t_schema_name (ts_spec t) = [] \<or>
         (\<exists>spec. hm_get (st_schemas s) (t_schema_name (ts_spec t)) = Some spec \<and>
            list_all (\<lambda>m. validate_payload (e_json e) spec (t_schema_encoding (ts_spec t)) (n_data m) = Ok ()) ms))))
    \<and> (is_ok (fst (publish e topic ms s)) \<or> snd (publish e topic ms s) = s)"
proof (cases "hm_get (st_topics s) topic")
  case None
  then show ?thesis by (simp add: publish_cases)
next
  case (Some t)
  show ?thesis
  proof (cases "publish_gate (e_json e) s t ms")
    case (Ok u)
    then have "publish_gate (e_json e) s t ms = Ok ()" by simp
    then show ?thesis using Some assms
      unfolding publish_gate_Ok by (auto simp: publish_cases persist_locked_def Ok list_all_iff)
  next
    case (Err err)
    then have "publish_gate (e_json e) s t ms \<noteq> Ok ()" by simp
    then show ?thesis using Some unfolding publish_gate_Ok by (auto simp: publish_cases Err list_all_iff)
  next
    case Panic
    then show ?thesis by simp
  qed
qed

theorem publish_gate_exact_witness:
  "\<not> is_ok (fst (publish (sample_env ''p'' 9) ''projects/p/topics/none'' sample_batch (sample_state True False)))"
  using publish_gate_exact [of "sample_env ''p'' 9" "''projects/p/topics/none''" sample_batch "sample_state True False"]
  by (simp add: sample_env_def sample_state_def sample_topic_def)

section \<open>Leases\<close>

text \<open>
  Acknowledging on a subscription without exactly-once delivery succeeds, whatever the
  identifiers and deadlines: exactly the held leases are released and their indices
  acknowledged, an unknown identifier is ignored, and nothing else moves.
\<close>

theorem acknowledge_plain:
  assumes "store_ok s" "hm_get (st_subscriptions s) n = Some sub"
    and "\<not> s_enable_exactly_once_delivery (ss_spec sub)" "e_persist e = None"
  shows "\<exists>sub'. acknowledge e n ks s = (Ok (), s\<lparr>st_subscriptions := hm_insert n sub' (st_subscriptions s)\<rparr>) \<and>
    ss_acked sub' = ss_acked sub \<union> held sub ks \<and> tracked sub' = tracked sub \<and>
    ss_retry_queue sub' = ss_retry_queue sub \<and> ss_next_index sub' = ss_next_index sub \<and>
    (\<forall>k. hm_get (ss_inflight sub') k = (if k \<in> set ks then None else hm_get (ss_inflight sub) k))"
proof -
  let ?t = "hm_get (st_topics s) (s_topic (ss_spec sub))"
  obtain r sub' where r: "ack_loop e ?t ks sub = (r, sub')" by (cases "ack_loop e ?t ks sub")
  have ok: "sub_ok n (ss_next_index sub) sub" by (rule sub_fitsD(2) [OF store_okD(5) [OF assms(1,2)]])
  have r': "r = Ok ()" using ack_loop_plain [OF assms(3), of e ?t ks] r by simp
  have a: "acknowledge e n ks s = (Ok (), s\<lparr>st_subscriptions := hm_insert n sub' (st_subscriptions s)\<rparr>)"
    using assms(2,4) r r' by (simp add: acknowledge_def persist_locked_def)
  note f = ack_loop_frame [OF r] and o = ack_loop_Ok [OF ok r [unfolded r']]
  show ?thesis using a f o by (intro exI [of _ sub']) blast
qed

theorem acknowledge_plain_witness:
  "fst (acknowledge (sample_env ''b'' 6) sample_sub [''a0'', ''unknown''] (sample_state True False)) = Ok ()"
proof -
  have "\<not> s_enable_exactly_once_delivery (ss_spec (new_subscription_state (sample_spec True False) 0))"
    by (simp add: new_subscription_state_def sample_spec_def)
  moreover have "hm_get (st_subscriptions (sample_state True False)) sample_sub
      = Some (new_subscription_state (sample_spec True False) 0)" by (simp add: sample_state_def)
  ultimately show ?thesis
    using acknowledge_plain [OF sample_ok, of True False sample_sub _ "sample_env ''b'' 6" "[''a0'', ''unknown'']"]
    by (auto simp: sample_env_def)
qed


definition sample_held_sub :: subscription_state where
  "sample_held_sub = (new_subscription_state (sample_spec True False) 0)\<lparr>ss_next_index := 1,
     ss_inflight := [(''a0'', \<lparr>if_topic_index = 0, if_deadline = 100\<rparr>)]\<rparr>"

definition sample_held :: state where
  "sample_held = (sample_state True False)\<lparr>st_subscriptions := [(sample_sub, sample_held_sub)]\<rparr>"


lemma sample_held_get: "hm_get (st_subscriptions sample_held) sample_sub = Some sample_held_sub"
  by (simp add: sample_held_def)


section \<open>Seek and snapshots\<close>

text \<open>
  C15: A seek to a time puts the cursor on the first message published at or after it:
  every earlier message is older, that one is not; all leases, retries, attempts and
  acknowledgements are cleared, so every message from there on is due again.
\<close>

theorem seek_to_time_exact:
  assumes "hm_get (st_subscriptions s) n = Some sub"
    and "hm_get (st_topics s) (s_topic (ss_spec sub)) = Some t" "e_persist e = None"
  shows "\<exists>i. seek_to_time e n when s
      = (Ok (), s\<lparr>st_subscriptions := hm_insert n
          (new_subscription_state (ss_spec sub) i) (st_subscriptions s)\<rparr>) \<and>
    i \<le> length (ts_messages t) \<and>
    list_all (\<lambda>m. m_published_at m < when) (take i (ts_messages t)) \<and>
    (i = length (ts_messages t) \<or> when \<le> m_published_at (ts_messages t ! i))"
proof -
  let ?i = "seek_index (ts_messages t) when"
  have r: "reset_cursor ?i sub = new_subscription_state (ss_spec sub) ?i"
    by (cases sub) (simp add: reset_cursor_def new_subscription_state_def)
  note q = seek_index_spec(1) [of "ts_messages t" "when"] seek_index_spec(2) [of _ "ts_messages t" "when"]
    seek_index_spec(3) [of "ts_messages t" "when"]
  have "list_all (\<lambda>m. m_published_at m < when) (take ?i (ts_messages t))"
    using q(1,2) by (auto simp: list_all_length)
  moreover have "?i = length (ts_messages t) \<or> when \<le> m_published_at (ts_messages t ! ?i)"
    using q(1,3) by linarith
  ultimately show ?thesis using assms q(1) r
    by (intro exI [of _ ?i]) (simp add: seek_to_time_def persist_locked_def)
qed

theorem seek_to_time_exact_witness:
  "fst (seek_to_time (sample_env ''b'' 6) sample_sub 0 (sample_state True False)) = Ok ()"
proof -
  have "hm_get (st_subscriptions (sample_state True False)) sample_sub
      = Some (new_subscription_state (sample_spec True False) 0)" by (simp add: sample_state_def)
  moreover have "hm_get (st_topics (sample_state True False))
      (s_topic (ss_spec (new_subscription_state (sample_spec True False) 0))) = Some sample_topic_state"
    by (simp add: sample_state_def new_subscription_state_def sample_spec_def)
  ultimately show ?thesis
    using seek_to_time_exact [of "sample_state True False" sample_sub _ sample_topic_state "sample_env ''b'' 6" 0]
    by (auto simp: sample_env_def)
qed

text \<open>
  A snapshot records the cursor: seeking back to it, after anything the subscription
  and the topic went through, leaves the subscription with its current specification, the
  recorded cursor and no other delivery state; a snapshot of another topic is refused.
\<close>

theorem snapshot_restores:
  assumes "hm_get (st_subscriptions s) n = Some sub" "create_snapshot e name n labels s = (Ok snap, s1)"
    and "hm_get (st_snapshots s2) name = Some snap" "hm_get (st_subscriptions s2) n' = Some sub2"
    and "e_persist e2 = None"
  shows "seek_to_snapshot e2 n' name s2 =
    (if s_topic (ss_spec sub2) = s_topic (ss_spec sub)
     then (Ok (), s2\<lparr>st_subscriptions := hm_insert n'
             (new_subscription_state (ss_spec sub2) (ss_next_index sub)) (st_subscriptions s2)\<rparr>)
     else (Err (FailedPrecondition ''snapshot topic does not match subscription topic''), s2))"
proof -
  have snap: "sn_topic snap = s_topic (ss_spec sub)" "sn_topic_index snap = ss_next_index sub"
    using assms(1,2) by (auto simp: create_snapshot_def Let_def split: if_splits)
  have r: "reset_cursor i sub2 = new_subscription_state (ss_spec sub2) i" for i
    by (cases sub2) (simp add: reset_cursor_def new_subscription_state_def)
  show ?thesis using assms(3-5) snap r by (simp add: seek_to_snapshot_def persist_locked_def)
qed

definition sample_snapped :: "snapshot_spec res \<times> state" where
  "sample_snapped = create_snapshot (sample_env ''b'' 6) ''projects/p/snapshots/x'' sample_sub [] sample_held"

definition sample_snapshot :: snapshot_spec where
  "sample_snapshot = \<lparr>sn_name = ''projects/p/snapshots/x'', sn_topic = sample_topic,
     sn_expire_time = 604800000000006, sn_labels = [], sn_topic_index = 1\<rparr>"

lemma sample_snapped_eval:
  "fst sample_snapped = Ok sample_snapshot"
  "hm_get (st_snapshots (snd sample_snapped)) ''projects/p/snapshots/x'' = Some sample_snapshot"
  "hm_get (st_subscriptions (snd sample_snapped)) sample_sub = Some sample_held_sub"
  by (simp_all add: sample_snapped_def create_snapshot_def sample_held_def sample_state_def hm_contains_def
      sample_snapshot_def sample_held_sub_def new_subscription_state_def sample_spec_def sample_env_def
      seconds_def persist_locked_def str_defs Let_def)

theorem snapshot_restores_witness:
  "fst (seek_to_snapshot (sample_env ''c'' 9) sample_sub ''projects/p/snapshots/x'' (snd sample_snapped)) = Ok ()"
proof -
  have c: "create_snapshot (sample_env ''b'' 6) ''projects/p/snapshots/x'' sample_sub [] sample_held
      = (Ok sample_snapshot, snd sample_snapped)"
    using sample_snapped_eval(1) by (simp add: prod_eq_iff sample_snapped_def)
  show ?thesis
    using snapshot_restores [OF sample_held_get c sample_snapped_eval(2,3), of "sample_env ''c'' 9"]
    by (simp add: sample_env_def)
qed

end
