(* ===== verification/Rest_Json.thy ===== *)
theory Rest_Json
  imports Schema_Validate
begin

text \<open>
  The conversions of \<open>src/rest.rs\<close> between JSON bodies or query strings and the data model,
  in both directions. Base64 and the RFC 3339 format are parameters; the decimal numbers of
  durations are parsed as \<open>f64::from_str\<close> does, with its rounding, and cut to \<open>u32\<close>.
\<close>

section \<open>Parsing of the standard library\<close>

text \<open>\<open>trim_start_matches\<close>, \<open>trim_end_matches\<close> and \<open>strip_suffix\<close> of a string.\<close>

definition trim_start_matches :: "string \<Rightarrow> string \<Rightarrow> string" where
  "trim_start_matches p s = strip_any [p] s"

definition trim_end_matches :: "string \<Rightarrow> string \<Rightarrow> string" where
  "trim_end_matches p s = rev (strip_any [rev p] (rev s))"

definition strip_suffix :: "string \<Rightarrow> string \<Rightarrow> string option" where
  "strip_suffix p s = (if ends_with s p then Some (take (length s - length p) s) else None)"

definition parse_i32 :: "string \<Rightarrow> int option" where
  "parse_i32 s =
     (let (neg, digits) = (case s of
            [] \<Rightarrow> (False, [])
          | c # r \<Rightarrow> if c = CHR ''-'' then (True, r) else if c = CHR ''+'' then (False, r) else (False, s))
      in if digits = [] then None
         else (case parse_digits 0 digits of
                 None \<Rightarrow> None
               | Some n \<Rightarrow>
                   if neg then (if n \<le> 2 ^ 31 then Some (- int n) else None)
                   else (if n < 2 ^ 31 then Some (int n) else None)))"

text \<open>Decimal digits: their value appended to \<open>acc\<close>, how many they are, and what follows.\<close>

fun scan_digits :: "nat \<Rightarrow> nat \<Rightarrow> string \<Rightarrow> nat \<times> nat \<times> string" where
  "scan_digits acc k [] = (acc, k, [])"
| "scan_digits acc k (c # s) =
     (case digit_value c of
        Some d \<Rightarrow> scan_digits (10 * acc + d) (Suc k) s
      | None \<Rightarrow> (acc, k, c # s))"

definition scan_exponent :: "string \<Rightarrow> int option" where
  "scan_exponent s =
     (case s of
        [] \<Rightarrow> Some 0
      | c # r \<Rightarrow>
          if c \<noteq> CHR ''e'' \<and> c \<noteq> CHR ''E'' then None
          else
            (let (neg, r') = (case r of
                   d # t \<Rightarrow> if d = CHR ''-'' then (True, t) else if d = CHR ''+'' then (False, t) else (False, r)
                 | [] \<Rightarrow> (False, r));
                 (n, k, rest) = scan_digits 0 0 r'
             in if k = 0 \<or> rest \<noteq> [] then None else Some (if neg then - int n else int n)))"

text \<open>The mantissa and the exponent of ten of a decimal number.\<close>

definition scan_number :: "string \<Rightarrow> (nat \<times> int) option" where
  "scan_number s =
     (let (i, ni, r) = scan_digits 0 0 s;
          (m, nf, r') = (case r of
             c # t \<Rightarrow> if c = CHR ''.'' then scan_digits i 0 t else (i, 0, r)
           | [] \<Rightarrow> (i, 0, r))
      in if ni = 0 \<and> nf = 0 then None
         else map_option (\<lambda>e. (m, e - int nf)) (scan_exponent r'))"

text \<open>
  Rounding \<open>n / d\<close> to the 53 bits of a double, ties to even, and cutting the result to
  \<open>u32\<close>, which saturates.
\<close>

fun ilog2 :: "nat \<Rightarrow> nat" where
  "ilog2 n = (if n < 2 then 0 else Suc (ilog2 (n div 2)))"

declare ilog2.simps [simp del]

definition round_even :: "nat \<Rightarrow> nat \<Rightarrow> nat" where
  "round_even n d =
     (let q = n div d; r = n mod d in if 2 * r < d \<or> 2 * r = d \<and> even q then q else Suc q)"

definition f64_to_u32 :: "nat \<Rightarrow> nat \<Rightarrow> u32" where
  "f64_to_u32 n d =
     (if 2 ^ 32 * d \<le> n then 0xFFFFFFFF
      else if 2 * n < d then 0
      else
        (let sh = (if n < d then 53 else 52 - ilog2 (n div d));
             v = round_even (n * 2 ^ sh) d div 2 ^ sh
         in if 2 ^ 32 \<le> v then 0xFFFFFFFF else word_of_nat v))"

text \<open>\<open>s.parse::<f64>().ok().map(|v| v.max(0.0) as u32)\<close>\<close>

definition parse_f64_u32 :: "string \<Rightarrow> u32 option" where
  "parse_f64_u32 s =
     (let (neg, t) = (case s of
            c # r \<Rightarrow> if c = CHR ''-'' then (True, r) else if c = CHR ''+'' then (False, r) else (False, s)
          | [] \<Rightarrow> (False, s));
          low = to_ascii_lowercase t
      in if low = ''inf'' \<or> low = ''infinity'' then Some (if neg then 0 else 0xFFFFFFFF)
         else if low = ''nan'' then Some 0
         else map_option (\<lambda>(m, e).
                if neg \<or> m = 0 then 0
                else if 0 \<le> e then f64_to_u32 (m * 10 ^ nat e) 1
                else f64_to_u32 m (10 ^ nat (- e))) (scan_number t))"

section \<open>The data model as JSON\<close>

text \<open>
  Base64, \<open>to_rfc3339\<close> and \<open>parse_from_rfc3339\<close>, and how the derived serialisation writes and
  reads a point in time.
\<close>

record rest_lib =
  rl_encode :: "bytes \<Rightarrow> string"
  rl_decode :: "string \<Rightarrow> bytes option"
  rl_rfc3339 :: "time \<Rightarrow> string"
  rl_parse_time :: "string \<Rightarrow> time option"
  rl_serde_time :: "time \<Rightarrow> string"
  rl_serde_parse :: "string \<Rightarrow> time option"

definition json_u32 :: "u32 \<Rightarrow> json" where
  "json_u32 w = JNumber (PosInt (ucast w))"

definition json_i32 :: "int \<Rightarrow> json" where
  "json_i32 i = JNumber (if 0 \<le> i then PosInt (word_of_int i) else NegInt i)"

definition json_map :: "attrs \<Rightarrow> json" where
  "json_map m = JObject (map (\<lambda>(k, v). (k, JString v)) m)"

definition json_opt :: "('a \<Rightarrow> json) \<Rightarrow> 'a option \<Rightarrow> json" where
  "json_opt f x = (case x of None \<Rightarrow> JNull | Some v \<Rightarrow> f v)"

definition topic_json :: "topic_spec \<Rightarrow> json" where
  "topic_json t = JObject
     [(''name'', JString (t_name t)), (''labels'', json_map (t_labels t)),
      (''kmsKeyName'', JString (t_kms_key_name t)),
      (''schemaSettings'',
        if t_schema_name t = [] then JNull
        else JObject [(''schema'', JString (t_schema_name t)), (''encoding'', JString (t_schema_encoding t))])]"

definition dead_letter_json :: "dead_letter_spec \<Rightarrow> json" where
  "dead_letter_json d = JObject
     [(''deadLetterTopic'', JString (d_topic d)), (''maxDeliveryAttempts'', json_u32 (d_max_delivery_attempts d))]"

definition seconds_text :: "u32 \<Rightarrow> string" where
  "seconds_text w = show_nat (unat w) @ ''s''"

definition retry_json :: "retry_spec \<Rightarrow> json" where
  "retry_json r = JObject
     [(''minimumBackoff'', JString (seconds_text (r_minimum_backoff_seconds r))),
      (''maximumBackoff'', JString (seconds_text (r_maximum_backoff_seconds r)))]"

definition subscription_json :: "subscription_spec \<Rightarrow> json" where
  "subscription_json s = JObject
     [(''name'', JString (s_name s)), (''topic'', JString (s_topic s)),
      (''ackDeadlineSeconds'', json_u32 (s_ack_deadline_seconds s)), (''labels'', json_map (s_labels s)),
      (''enableMessageOrdering'', JBool (s_enable_message_ordering s)),
      (''enableExactlyOnceDelivery'', JBool (s_enable_exactly_once_delivery s)),
      (''pushConfig'', JObject
        [(''pushEndpoint'', JString (case s_push_endpoint s of Some p \<Rightarrow> p | None \<Rightarrow> [])),
         (''attributes'', json_map (s_push_attributes s))]),
      (''deadLetterPolicy'', json_opt dead_letter_json (s_dead_letter s)),
      (''retryPolicy'', json_opt retry_json (s_retry s)), (''filter'', JString (s_filter s))]"

definition snapshot_json :: "rest_lib \<Rightarrow> snapshot_spec \<Rightarrow> json" where
  "snapshot_json lib s = JObject
     [(''name'', JString (sn_name s)), (''topic'', JString (sn_topic s)),
      (''expireTime'', JString (rl_rfc3339 lib (sn_expire_time s))), (''labels'', json_map (sn_labels s))]"

definition schema_json :: "schema_spec \<Rightarrow> json" where
  "schema_json s = JObject
     [(''name'', JString (sc_name s)), (''type'', JString (sc_schema_type s)),
      (''definition'', JString (sc_definition s))]"

definition policy_json :: "iam_policy \<Rightarrow> json" where
  "policy_json p = JObject
     [(''version'', json_i32 (p_version p)),
      (''bindings'', JArray (map (\<lambda>b. JObject [(''role'', JString (b_role b)),
         (''members'', JArray (map JString (b_members b)))]) (p_bindings p))),
      (''etag'', JString (p_etag p))]"

definition delivery_json :: "rest_lib \<Rightarrow> delivery \<Rightarrow> json" where
  "delivery_json lib d = JObject
     [(''ackId'', JString (dv_ack_id d)), (''deliveryAttempt'', json_u32 (dv_delivery_attempt d)),
      (''message'', JObject
        [(''data'', JString (rl_encode lib (m_data (dv_message d)))),
         (''attributes'', json_map (m_attributes (dv_message d))),
         (''messageId'', JString (m_id (dv_message d))),
         (''publishTime'', JString (rl_rfc3339 lib (m_published_at (dv_message d)))),
         (''orderingKey'', JString (m_ordering_key (dv_message d)))])]"

section \<open>JSON bodies as the data model\<close>

text \<open>\<open>serde_json::from_value\<close> at \<open>HashMap<String, String>\<close> and at \<open>Vec<String>\<close>.\<close>

definition string_map_of :: "json \<Rightarrow> attrs option" where
  "string_map_of v =
     (case v of
        JObject m \<Rightarrow> those (map (\<lambda>(k, w). map_option (Pair k) (as_str w)) m)
      | _ \<Rightarrow> None)"

definition string_list_of :: "json \<Rightarrow> string list option" where
  "string_list_of v = (case v of JArray xs \<Rightarrow> those (map as_str xs) | _ \<Rightarrow> None)"

definition or_default :: "'a \<Rightarrow> 'a option \<Rightarrow> 'a" where
  "or_default d x = (case x of None \<Rightarrow> d | Some v \<Rightarrow> v)"

definition str_or :: "string \<Rightarrow> json option \<Rightarrow> string" where
  "str_or d v = or_default d (Option.bind v as_str)"

definition get_in :: "json option \<Rightarrow> string \<Rightarrow> json option" where
  "get_in v key = Option.bind v (\<lambda>x. json_get x key)"

definition parse_labels :: "json \<Rightarrow> attrs" where
  "parse_labels value = or_default [] (Option.bind (json_get value ''labels'') string_map_of)"

definition parse_duration_seconds :: "json option \<Rightarrow> u32 option" where
  "parse_duration_seconds value =
     Option.bind (Option.bind value as_str) (\<lambda>raw. Option.bind (strip_suffix ''s'' raw) parse_f64_u32)"

definition parse_push_config :: "json \<Rightarrow> string option \<times> attrs" where
  "parse_push_config value =
     (let push = json_get value ''pushConfig'';
          endpoint = (case Option.bind (get_in push ''pushEndpoint'') as_str of
                        Some s \<Rightarrow> if s \<noteq> [] then Some s else None
                      | None \<Rightarrow> None);
          attributes = or_default [] (Option.bind (get_in push ''attributes'') string_map_of)
      in (endpoint, attributes))"

definition parse_dead_letter :: "json \<Rightarrow> dead_letter_spec option" where
  "parse_dead_letter value =
     Option.bind (json_get value ''deadLetterPolicy'') (\<lambda>v.
       Option.bind (Option.bind (json_get v ''deadLetterTopic'') as_str) (\<lambda>topic.
         Some \<lparr>d_topic = topic,
               d_max_delivery_attempts =
                 ucast (or_default 5 (Option.bind (json_get v ''maxDeliveryAttempts'') as_u64))\<rparr>))"

definition parse_retry :: "json \<Rightarrow> retry_spec option" where
  "parse_retry value =
     map_option (\<lambda>v.
       \<lparr>r_minimum_backoff_seconds = or_default 0 (parse_duration_seconds (json_get v ''minimumBackoff'')),
        r_maximum_backoff_seconds = or_default 0 (parse_duration_seconds (json_get v ''maximumBackoff''))\<rparr>)
       (json_get value ''retryPolicy'')"

definition topic_spec_from_value :: "string \<Rightarrow> json \<Rightarrow> topic_spec" where
  "topic_spec_from_value name value =
     \<lparr>t_name = str_or name (json_get value ''name''), t_labels = parse_labels value,
      t_kms_key_name = str_or [] (json_get value ''kmsKeyName''),
      t_schema_name = str_or [] (get_in (json_get value ''schemaSettings'') ''schema''),
      t_schema_encoding = str_or [] (get_in (json_get value ''schemaSettings'') ''encoding'')\<rparr>"

text \<open>The \<open>Inl\<close> of these is the message of a bad request.\<close>

definition subscription_spec_from_value :: "string \<Rightarrow> json \<Rightarrow> string + subscription_spec" where
  "subscription_spec_from_value name value =
     (case Option.bind (json_get value ''topic'') as_str of
        None \<Rightarrow> Inl ''topic is required''
      | Some topic \<Rightarrow>
          (let (push_endpoint, push_attributes) = parse_push_config value in
           Inr \<lparr>s_name = str_or name (json_get value ''name''), s_topic = topic,
                s_ack_deadline_seconds =
                  ucast (or_default 10 (Option.bind (json_get value ''ackDeadlineSeconds'') as_u64)),
                s_labels = parse_labels value,
                s_enable_message_ordering =
                  or_default False (Option.bind (json_get value ''enableMessageOrdering'') as_bool),
                s_enable_exactly_once_delivery =
                  or_default False (Option.bind (json_get value ''enableExactlyOnceDelivery'') as_bool),
                s_dead_letter = parse_dead_letter value, s_retry = parse_retry value,
                s_push_endpoint = push_endpoint, s_push_attributes = push_attributes,
                s_filter = str_or [] (json_get value ''filter'')\<rparr>))"

definition schema_spec_from_value :: "string \<Rightarrow> json \<Rightarrow> string + schema_spec" where
  "schema_spec_from_value name value =
     Inr \<lparr>sc_name = str_or name (json_get value ''name''),
          sc_schema_type = str_or ''UNSPECIFIED'' (json_get value ''type''),
          sc_definition = str_or [] (json_get value ''definition'')\<rparr>"

definition binding_of :: "json \<Rightarrow> iam_binding option" where
  "binding_of b =
     Option.bind (Option.bind (json_get b ''role'') as_str) (\<lambda>role.
       Option.bind (Option.bind (json_get b ''members'') as_array) (\<lambda>members.
         Some \<lparr>b_role = role, b_members = List.map_filter as_str members\<rparr>))"

text \<open>\<open>as_i64\<close>, and the cut to \<open>i32\<close>, which wraps.\<close>

definition as_i64 :: "json \<Rightarrow> int option" where
  "as_i64 v =
     (case v of
        JNumber (PosInt n) \<Rightarrow> if unat n < 2 ^ 63 then Some (int (unat n)) else None
      | JNumber (NegInt i) \<Rightarrow> Some i
      | _ \<Rightarrow> None)"

definition cut_i32 :: "int \<Rightarrow> int" where
  "cut_i32 i = (i + 2 ^ 31) mod 2 ^ 32 - 2 ^ 31"

definition policy_from_value :: "json \<Rightarrow> string + iam_policy" where
  "policy_from_value value =
     Inr \<lparr>p_version = cut_i32 (or_default 1 (Option.bind (json_get value ''version'') as_i64)),
          p_bindings = (case Option.bind (json_get value ''bindings'') as_array of
             None \<Rightarrow> [] | Some items \<Rightarrow> List.map_filter binding_of items),
          p_etag = str_or [] (json_get value ''etag'')\<rparr>"

section \<open>Query strings and update masks\<close>

definition split_mask :: "string \<Rightarrow> string list" where
  "split_mask m = filter (\<lambda>s. s \<noteq> []) (map trim (split_on (CHR '','') m))"

definition parse_update_mask :: "json \<Rightarrow> string option \<Rightarrow> string list" where
  "parse_update_mask value query =
     (case (case query of Some m \<Rightarrow> if m \<noteq> [] then Some m else None | None \<Rightarrow> None) of
        Some paths \<Rightarrow> split_mask paths
      | None \<Rightarrow>
          (case Option.bind (json_get value ''updateMask'') as_str of
             Some paths \<Rightarrow> split_mask paths
           | None \<Rightarrow>
               (case Option.bind (get_in (json_get value ''updateMask'') ''paths'') as_array of
                  Some paths \<Rightarrow> List.map_filter as_str paths
                | None \<Rightarrow> [])))"

definition query_param :: "string \<Rightarrow> string \<Rightarrow> string option" where
  "query_param query key =
     (case List.find (\<lambda>pair. case split_once (CHR ''='') pair of Some (k, v) \<Rightarrow> k = key | None \<Rightarrow> False)
             (split_on (CHR ''&'') query) of
        Some pair \<Rightarrow> map_option snd (split_once (CHR ''='') pair)
      | None \<Rightarrow> None)"

definition param_or :: "string \<Rightarrow> string \<Rightarrow> string \<Rightarrow> string option" where
  "param_or query a b = (case query_param query a of Some v \<Rightarrow> Some v | None \<Rightarrow> query_param query b)"

definition page_size_from_query :: "string option \<Rightarrow> int" where
  "page_size_from_query query =
     or_default 100 (Option.bind (Option.bind query (\<lambda>q. param_or q ''pageSize'' ''page_size'')) parse_i32)"

definition page_token_from_query :: "string option \<Rightarrow> string" where
  "page_token_from_query query =
     or_default [] (Option.bind query (\<lambda>q. param_or q ''pageToken'' ''page_token''))"

section \<open>Messages\<close>

definition message_of :: "rest_lib \<Rightarrow> json \<Rightarrow> string + new_message" where
  "message_of lib m =
     (case rl_decode lib (str_or [] (json_get m ''data'')) of
        None \<Rightarrow> Inl ''message.data must be base64''
      | Some decoded \<Rightarrow>
          (case (case json_get m ''attributes'' of
                   None \<Rightarrow> Some []
                 | Some v \<Rightarrow> string_map_of v) of
             None \<Rightarrow> Inl ''attributes must be string map''
           | Some attributes \<Rightarrow>
               Inr \<lparr>n_data = decoded, n_attributes = attributes,
                    n_ordering_key = str_or [] (json_get m ''orderingKey''),
                    n_message_id = str_or [] (json_get m ''messageId'')\<rparr>))"

text \<open>Collecting into a \<open>Result\<close>: the first error, or all values.\<close>

fun collect_result :: "('a \<Rightarrow> 'e + 'b) \<Rightarrow> 'a list \<Rightarrow> 'e + 'b list" where
  "collect_result f [] = Inr []"
| "collect_result f (x # xs) =
     (case f x of
        Inl e \<Rightarrow> Inl e
      | Inr y \<Rightarrow> (case collect_result f xs of Inl e \<Rightarrow> Inl e | Inr ys \<Rightarrow> Inr (y # ys)))"

definition parse_messages :: "rest_lib \<Rightarrow> json \<Rightarrow> string + new_message list" where
  "parse_messages lib body =
     (case Option.bind (json_get body ''messages'') as_array of
        None \<Rightarrow> Inl ''messages array is required''
      | Some messages \<Rightarrow>
          if messages = [] then Inl ''at least one message is required''
          else collect_result (message_of lib) messages)"

section \<open>Reading back what was written\<close>

lemma those_map_Some: "those (map (\<lambda>x. Some (f x)) xs) = Some (map f xs)"
  by (induction xs) simp_all

lemma string_map_of_json [simp]: "string_map_of (json_map m) = Some m"
proof -
  have "those (map (\<lambda>(k, w). map_option (Pair k) (as_str w)) (map (\<lambda>(k, v). (k, JString v)) m)) = Some m"
    by (induction m) (auto simp: as_str_def)
  then show ?thesis by (simp add: string_map_of_def json_map_def)
qed

lemma string_list_of_strings [simp]: "string_list_of (JArray (map JString xs)) = Some xs"
proof -
  have "those (map as_str (map JString xs)) = Some xs"
    by (induction xs) (auto simp: as_str_def)
  then show ?thesis by (simp add: string_list_of_def)
qed

lemma scan_digits_show:
  "scan_digits 0 k (show_nat n @ t) = scan_digits n (k + length (show_nat n)) t"
proof (induction n arbitrary: t rule: show_nat.induct)
  case (1 n)
  show ?case
  proof (cases "n < 10")
    case True
    then show ?thesis by (simp add: show_nat.simps)
  next
    case False
    have s: "show_nat n = show_nat (n div 10) @ [digit_char (n mod 10)]"
      using False by (subst show_nat.simps) simp
    show ?thesis
      unfolding s using "1.IH" [OF False, of "digit_char (n mod 10) # t"] by (simp del: show_nat.simps)
  qed
qed

lemma round_even_one [simp]: "round_even n 1 = n"
  by (simp add: round_even_def)

lemma f64_to_u32_one: "n < 2 ^ 32 \<Longrightarrow> f64_to_u32 n 1 = word_of_nat n"
  by (simp add: f64_to_u32_def Let_def round_even_one [unfolded One_nat_def])

lemma digit_char_not: "d < 10 \<Longrightarrow> (of_char c :: nat) < 48 \<or> 57 < (of_char c :: nat) \<Longrightarrow> digit_char d \<noteq> c"
  using of_char_digit_char [of d] by auto

lemma digit_char_lower: "d < 10 \<Longrightarrow> ascii_lower (digit_char d) = digit_char d"
  by (simp add: ascii_lower_def of_char_digit_char)

lemma parse_f64_show:
  assumes "n < 2 ^ 32"
  shows "parse_f64_u32 (show_nat n) = Some (word_of_nat n)"
proof -
  obtain c r where s: "show_nat n = c # r" by (cases "show_nat n") auto
  then obtain d where d: "d < 10" "c = digit_char d" using show_nat_digits [of c n] by auto
  have c: "c \<noteq> CHR ''-''" "c \<noteq> CHR ''+''" "ascii_lower c \<noteq> CHR ''i''" "ascii_lower c \<noteq> CHR ''n''"
    unfolding d(2) digit_char_lower [OF d(1)] by (rule digit_char_not [OF d(1)], simp)+
  have "scan_digits 0 0 (show_nat n) = (n, length (show_nat n), [])"
    using scan_digits_show [of 0 n "[]"] by simp
  then have "scan_number (show_nat n) = Some (n, 0)"
    by (simp add: scan_number_def scan_exponent_def)
  then have "scan_number (c # r) = Some (n, 0)" by (simp add: s)
  then show ?thesis
    using c f64_to_u32_one [OF assms] unfolding s
    by (auto simp: parse_f64_u32_def Let_def to_ascii_lowercase_def)
qed

lemma strip_suffix_append [simp]: "strip_suffix p (s @ p) = Some s"
  by (simp add: strip_suffix_def ends_with_def)

lemma parse_duration_text: "parse_duration_seconds (Some (JString (seconds_text w))) = Some w"
proof -
  have "unat w < 2 ^ LENGTH(32)" by (rule unsigned_less)
  then have "unat w < 2 ^ 32" by simp
  then show ?thesis
    by (simp add: parse_duration_seconds_def seconds_text_def as_str_def parse_f64_show)
qed

lemma parse_duration_None: "parse_duration_seconds None = None"
  by (simp add: parse_duration_seconds_def)

lemma json_u32_back: "Option.bind (Some (json_u32 w)) as_u64 = Some (ucast w)"
  by (simp add: json_u32_def as_u64_def)

lemma ucast_back [simp]: "(ucast (ucast (w :: u32) :: u64) :: u32) = w"
  by transfer simp

lemmas from_json = str_or_def or_default_def get_in_def json_get_def as_str_def as_bool_def as_u64_def
  parse_labels_def json_opt_def

lemma topic_json_back:
  "topic_spec_from_value n (topic_json t) =
     (if t_schema_name t = [] then t\<lparr>t_schema_encoding := []\<rparr> else t)"
  by (simp add: topic_spec_from_value_def topic_json_def from_json)

lemma retry_json_back:
  "json_get v ''retryPolicy'' = Some (json_opt retry_json r) \<Longrightarrow>
     parse_retry v = Some (case r of Some x \<Rightarrow> x
       | None \<Rightarrow> \<lparr>r_minimum_backoff_seconds = 0, r_maximum_backoff_seconds = 0\<rparr>)"
  by (cases r) (simp_all add: parse_retry_def json_opt_def retry_json_def json_get_def
      parse_duration_text parse_duration_None or_default_def)

lemma dead_letter_json_back:
  "json_get v ''deadLetterPolicy'' = Some (json_opt dead_letter_json d) \<Longrightarrow> parse_dead_letter v = d"
  by (cases d) (simp_all add: parse_dead_letter_def from_json dead_letter_json_def json_u32_def)

lemma push_config_back:
  "json_get v ''pushConfig'' = Some (JObject
      [(''pushEndpoint'', JString (case p of Some x \<Rightarrow> x | None \<Rightarrow> [])), (''attributes'', json_map a)]) \<Longrightarrow>
     parse_push_config v = (if p = Some [] then None else p, a)"
  by (cases p) (simp_all add: parse_push_config_def from_json Let_def)

lemma subscription_json_back:
  "subscription_spec_from_value n (subscription_json s) =
     Inr (s\<lparr>s_retry := Some (case s_retry s of Some r \<Rightarrow> r
              | None \<Rightarrow> \<lparr>r_minimum_backoff_seconds = 0, r_maximum_backoff_seconds = 0\<rparr>),
            s_push_endpoint := (if s_push_endpoint s = Some [] then None else s_push_endpoint s)\<rparr>)"
proof -
  let ?v = "subscription_json s"
  have get: "json_get ?v ''retryPolicy'' = Some (json_opt retry_json (s_retry s))"
    "json_get ?v ''deadLetterPolicy'' = Some (json_opt dead_letter_json (s_dead_letter s))"
    "json_get ?v ''pushConfig'' = Some (JObject
      [(''pushEndpoint'', JString (case s_push_endpoint s of Some x \<Rightarrow> x | None \<Rightarrow> [])),
       (''attributes'', json_map (s_push_attributes s))])"
    by (simp_all add: json_get_def subscription_json_def)
  note p = retry_json_back [OF get(1)] dead_letter_json_back [OF get(2)] push_config_back [OF get(3)]
  show ?thesis
    unfolding subscription_spec_from_value_def p
    by (simp add: from_json json_u32_def subscription_json_def)
qed

lemma schema_json_back: "schema_spec_from_value n (schema_json s) = Inr s"
  by (simp add: schema_spec_from_value_def schema_json_def from_json)

lemma cut_i32_id: "- (2 ^ 31) \<le> i \<Longrightarrow> i < 2 ^ 31 \<Longrightarrow> cut_i32 i = i"
  by (simp add: cut_i32_def)

lemma json_i32_back: "- (2 ^ 31) \<le> i \<Longrightarrow> i < 2 ^ 31 \<Longrightarrow> as_i64 (json_i32 i) = Some i"
proof (cases "0 \<le> i")
  case True
  assume "i < 2 ^ 31"
  then have "unat (word_of_int i :: u64) = nat i"
    using True by (simp add: unsigned_of_int take_bit_int_eq_self)
  then show ?thesis using True \<open>i < 2 ^ 31\<close> by (simp add: as_i64_def json_i32_def)
qed (simp add: as_i64_def json_i32_def)

lemma map_filter_Some: "(\<And>x. x \<in> set xs \<Longrightarrow> f (g x) = Some x) \<Longrightarrow> List.map_filter f (map g xs) = xs"
  by (induction xs) (simp_all add: List.map_filter_simps)

lemma policy_json_back:
  assumes "- (2 ^ 31) \<le> p_version p" "p_version p < 2 ^ 31"
  shows "policy_from_value (policy_json p) = Inr p"
proof -
  let ?b = "\<lambda>b. JObject [(''role'', JString (b_role b)), (''members'', JArray (map JString (b_members b)))]"
  have "binding_of (?b b) = Some b" for b
    using map_filter_Some [of "b_members b" as_str JString]
    by (simp add: binding_of_def json_get_def as_str_def as_array_def)
  then have "List.map_filter binding_of (map ?b (p_bindings p)) = p_bindings p"
    by (intro map_filter_Some)
  then show ?thesis
    using json_i32_back [OF assms] cut_i32_id [OF assms]
    by (simp add: policy_from_value_def policy_json_def from_json as_array_def)
qed

lemma delivery_json_back:
  assumes "rl_decode lib (rl_encode lib (m_data (dv_message d))) = Some (m_data (dv_message d))"
  shows "Option.bind (json_get (delivery_json lib d) ''message'') (\<lambda>v. Some (message_of lib v)) =
    Some (Inr \<lparr>n_data = m_data (dv_message d), n_attributes = m_attributes (dv_message d),
      n_ordering_key = m_ordering_key (dv_message d), n_message_id = m_id (dv_message d)\<rparr>)"
  using assms by (simp add: message_of_def delivery_json_def from_json)

end
