(* ===== verification/Auth.thy ===== *)
theory Auth
  imports Relay_Model
begin

text \<open>
  \<open>src/auth.rs\<close>: who a caller is and which projects it may touch. The JWT library, the
  HTTP client and the JSON web keys it fetches are parameters, collected in \<open>oidc\<close>; the
  cached key set is the authenticator's state. A textual error is the \<open>Inl\<close> of the code's
  \<open>Result<_, String>\<close>.
\<close>

section \<open>Configuration and context\<close>

record auth_config =
  a_static_token :: "string option"
  a_oidc_jwks_url :: "string option"
  a_oidc_audience :: "string option"
  a_oidc_issuer :: "string option"
  a_allowed_projects :: "string list"
  a_identity_project_map :: "(string, string) hmap"

record auth_context =
  ctx_subject :: string
  ctx_allowed_projects :: "string list"

record jwk =
  k_kid :: "string option"
  k_kty :: string
  k_n :: "string option"
  k_e :: "string option"

record claims =
  c_sub :: "string option"
  c_email :: "string option"

record jwt_header =
  h_alg :: string
  h_kid :: "string option"

text \<open>\<open>Validation\<close>: what the token is checked against.\<close>

record validation =
  v_alg :: string
  v_aud :: "string option"
  v_iss :: "string option"

text \<open>
  \<open>x_header\<close> is \<open>decode_header\<close>, \<open>x_key\<close> is \<open>DecodingKey::from_rsa_components\<close>,
  \<open>x_decode\<close> is \<open>decode\<close>, and \<open>x_fetch\<close> the request for the key set; \<open>x_now\<close> is the
  monotonic clock.
\<close>

record 'key oidc =
  x_header :: "string \<Rightarrow> string + jwt_header"
  x_key :: "string \<Rightarrow> string \<Rightarrow> string + 'key"
  x_decode :: "string \<Rightarrow> 'key \<Rightarrow> validation \<Rightarrow> string + claims"
  x_fetch :: "string \<Rightarrow> string + jwk list"
  x_now :: time

definition auth_required :: "auth_config \<Rightarrow> bool" where
  "auth_required c = (a_static_token c \<noteq> None \<or> a_oidc_jwks_url c \<noteq> None)"

section \<open>Authentication\<close>

type_synonym jwks_cache = "(time \<times> jwk list) option"

definition load_jwks :: "auth_config \<Rightarrow> 'key oidc \<Rightarrow> jwks_cache \<Rightarrow> (string + jwk list) \<times> jwks_cache" where
  "load_jwks c x cache =
     (case (case cache of
              Some (at, keys) \<Rightarrow> if x_now x - at < seconds 300 then Some keys else None
            | None \<Rightarrow> None) of
        Some keys \<Rightarrow> (Inr keys, cache)
      | None \<Rightarrow>
          (case a_oidc_jwks_url c of
             None \<Rightarrow> (Inl ''oidc jwks url unset'', cache)
           | Some url \<Rightarrow>
               (case x_fetch x url of
                  Inl err \<Rightarrow> (Inl err, cache)
                | Inr keys \<Rightarrow> (Inr keys, Some (x_now x, keys)))))"

text \<open>The key of the header's identifier, or the first one.\<close>

definition select_jwk :: "jwt_header \<Rightarrow> jwk list \<Rightarrow> jwk option" where
  "select_jwk header keys =
     (case List.find (\<lambda>k. case h_kid header of None \<Rightarrow> False | Some kid \<Rightarrow> k_kid k = Some kid) keys of
        Some k \<Rightarrow> Some k
      | None \<Rightarrow> (case keys of [] \<Rightarrow> None | k # _ \<Rightarrow> Some k))"

definition projects_for :: "auth_config \<Rightarrow> string \<Rightarrow> string list" where
  "projects_for c subject =
     (case hm_get (a_identity_project_map c) subject of
        None \<Rightarrow> a_allowed_projects c
      | Some mapped \<Rightarrow>
          if mapped \<in> set (a_allowed_projects c) then a_allowed_projects c
          else a_allowed_projects c @ [mapped])"

definition subject_of :: "claims \<Rightarrow> string" where
  "subject_of cl =
     (case c_email cl of
        Some email \<Rightarrow> email
      | None \<Rightarrow> (case c_sub cl of Some sub \<Rightarrow> sub | None \<Rightarrow> ''oidc''))"

definition authenticate_jwt ::
  "auth_config \<Rightarrow> 'key oidc \<Rightarrow> string \<Rightarrow> jwks_cache \<Rightarrow> (string + auth_context) \<times> jwks_cache" where
  "authenticate_jwt c x token cache =
     (case x_header x token of
        Inl err \<Rightarrow> (Inl (''invalid jwt header: '' @ err), cache)
      | Inr header \<Rightarrow>
          (case load_jwks c x cache of
             (Inl err, cache') \<Rightarrow> (Inl err, cache')
           | (Inr keys, cache') \<Rightarrow>
               (case select_jwk header keys of
                  None \<Rightarrow> (Inl ''no jwk available'', cache')
                | Some k \<Rightarrow>
                    if k_kty k \<noteq> ''RSA'' then (Inl ''only RSA JWKs are supported'', cache')
                    else
                      (case k_n k of
                         None \<Rightarrow> (Inl ''jwk missing n'', cache')
                       | Some n \<Rightarrow>
                           (case k_e k of
                              None \<Rightarrow> (Inl ''jwk missing e'', cache')
                            | Some e \<Rightarrow>
                                (case x_key x n e of
                                   Inl err \<Rightarrow> (Inl (''invalid jwk: '' @ err), cache')
                                 | Inr key \<Rightarrow>
                                     (case x_decode x token key
                                             \<lparr>v_alg = h_alg header, v_aud = a_oidc_audience c,
                                              v_iss = a_oidc_issuer c\<rparr> of
                                        Inl err \<Rightarrow> (Inl (''jwt validation failed: '' @ err), cache')
                                      | Inr cl \<Rightarrow>
                                          (Inr \<lparr>ctx_subject = subject_of cl,
                                                ctx_allowed_projects = projects_for c (subject_of cl)\<rparr>,
                                           cache'))))))))"

definition authenticate_bearer ::
  "auth_config \<Rightarrow> 'key oidc \<Rightarrow> string option \<Rightarrow> jwks_cache \<Rightarrow> (string + auth_context) \<times> jwks_cache" where
  "authenticate_bearer c x header cache =
     (if \<not> auth_required c then
        (Inr \<lparr>ctx_subject = ''anonymous'', ctx_allowed_projects = a_allowed_projects c\<rparr>, cache)
      else
        (case Option.bind header (strip_prefix ''Bearer '') of
           None \<Rightarrow> (Inl ''missing or invalid bearer token'', cache)
         | Some raw \<Rightarrow>
             if a_static_token c = Some raw then
               (Inr \<lparr>ctx_subject = ''static-token'', ctx_allowed_projects = a_allowed_projects c\<rparr>, cache)
             else if a_oidc_jwks_url c \<noteq> None then authenticate_jwt c x raw cache
             else (Inl ''missing or invalid bearer token'', cache)))"

section \<open>Authorization\<close>

definition project_of :: "string \<Rightarrow> string option" where
  "project_of resource =
     (case split_on (CHR ''/'') resource of
        p # q # _ \<Rightarrow> if p = ''projects'' then Some (''projects/'' @ q) else None
      | _ \<Rightarrow> None)"

definition authorize_resource :: "auth_context \<Rightarrow> string \<Rightarrow> string + unit" where
  "authorize_resource ctx resource =
     (if ctx_allowed_projects ctx = [] then Inr ()
      else
        (case project_of resource of
           None \<Rightarrow> Inl (''cannot derive project from resource '' @ resource)
         | Some project \<Rightarrow>
             if list_ex (\<lambda>p. p = project \<or> p = ''*'') (ctx_allowed_projects ctx) then Inr ()
             else Inl (''project '' @ project @ '' not allowed for '' @ ctx_subject ctx)))"

section \<open>The identity map\<close>

definition add_identity :: "string \<Rightarrow> (string, string) hmap \<Rightarrow> (string, string) hmap" where
  "add_identity part m =
     (case split_once (CHR ''='') part of
        Some (k, v) \<Rightarrow> hm_insert (trim k) (trim v) m
      | None \<Rightarrow> m)"

definition parse_identity_project_map :: "string \<Rightarrow> (string, string) hmap" where
  "parse_identity_project_map raw =
     fold add_identity (filter (\<lambda>s. s \<noteq> []) (split_on (CHR '','') raw)) []"

section \<open>Facts\<close>

lemma project_of_Some:
  "project_of r = Some p \<longleftrightarrow>
     (\<exists>q. CHR ''/'' \<notin> set q \<and> p = ''projects/'' @ q \<and> (r = p \<or> belongs_to_project r p))"
proof
  assume "project_of r = Some p"
  then obtain q rest where sp: "split_on (CHR ''/'') r = ''projects'' # q # rest" and p: "p = ''projects/'' @ q"
    by (auto simp: project_of_def split: list.splits if_splits)
  from split_on_Cons [OF sp] obtain s' where s': "r = ''projects'' @ CHR ''/'' # s'"
    "split_on (CHR ''/'') s' = q # rest" by auto
  from split_on_Cons [OF s'(2)] have "CHR ''/'' \<notin> set q" "s' = q \<or> (\<exists>t. s' = q @ CHR ''/'' # t)" by auto
  then show "\<exists>q. CHR ''/'' \<notin> set q \<and> p = ''projects/'' @ q \<and> (r = p \<or> belongs_to_project r p)"
    using s'(1) p by (intro exI [of _ q]) (auto simp: belongs_to_project_def starts_with_iff)
next
  assume "\<exists>q. CHR ''/'' \<notin> set q \<and> p = ''projects/'' @ q \<and> (r = p \<or> belongs_to_project r p)"
  then obtain q where q: "CHR ''/'' \<notin> set q" "p = ''projects/'' @ q" "r = p \<or> belongs_to_project r p" by blast
  then have "r = ''projects'' @ CHR ''/'' # q \<or> (\<exists>t. r = ''projects'' @ CHR ''/'' # q @ CHR ''/'' # t)"
    by (auto simp: belongs_to_project_def starts_with_iff)
  moreover have "split_on (CHR ''/'') (''projects'' @ CHR ''/'' # x) = ''projects'' # split_on (CHR ''/'') x" for x
    by (rule split_on_append) simp
  ultimately show "project_of r = Some p"
    using split_on_no_sep [OF q(1)] split_on_append [OF q(1)] q(2) by (auto simp: project_of_def)
qed

lemma load_jwks_keys:
  assumes "load_jwks c x cache = (Inr keys, cache')"
  shows "(\<exists>at. cache = Some (at, keys) \<and> x_now x - at < seconds 300 \<and> cache' = cache)
    \<or> (\<exists>url. a_oidc_jwks_url c = Some url \<and> x_fetch x url = Inr keys \<and> cache' = Some (x_now x, keys))"
  using assms by (auto simp: load_jwks_def split: option.splits if_splits sum.splits)

text \<open>What a verified token is: some key of the set decodes it under the configured checks.\<close>

definition verified :: "auth_config \<Rightarrow> 'key oidc \<Rightarrow> string \<Rightarrow> jwk list \<Rightarrow> claims \<Rightarrow> bool" where
  "verified c x token keys cl =
     (\<exists>header k n e key. x_header x token = Inr header \<and> k \<in> set keys \<and> k_kty k = ''RSA'' \<and>
        k_n k = Some n \<and> k_e k = Some e \<and> x_key x n e = Inr key \<and>
        x_decode x token key \<lparr>v_alg = h_alg header, v_aud = a_oidc_audience c, v_iss = a_oidc_issuer c\<rparr> = Inr cl)"

lemma select_jwk_in: "select_jwk header keys = Some k \<Longrightarrow> k \<in> set keys"
  by (auto simp: select_jwk_def find_Some_iff split: option.splits list.splits)

lemma authenticate_jwt_verified:
  assumes "authenticate_jwt c x token cache = (Inr ctx, cache')"
  shows "\<exists>keys cl. load_jwks c x cache = (Inr keys, cache') \<and> verified c x token keys cl \<and>
    ctx = \<lparr>ctx_subject = subject_of cl, ctx_allowed_projects = projects_for c (subject_of cl)\<rparr>"
proof -
  from assms obtain header keys k n e key cl where
    "x_header x token = Inr header" "load_jwks c x cache = (Inr keys, cache')"
    "select_jwk header keys = Some k" "k_kty k = ''RSA''" "k_n k = Some n" "k_e k = Some e"
    "x_key x n e = Inr key"
    "x_decode x token key \<lparr>v_alg = h_alg header, v_aud = a_oidc_audience c, v_iss = a_oidc_issuer c\<rparr> = Inr cl"
    "ctx = \<lparr>ctx_subject = subject_of cl, ctx_allowed_projects = projects_for c (subject_of cl)\<rparr>"
    by (auto simp: authenticate_jwt_def split: sum.splits prod.splits option.splits if_splits)
  then show ?thesis unfolding verified_def using select_jwk_in by blast
qed

lemma projects_for_set:
  "set (projects_for c subject) =
     set (a_allowed_projects c) \<union> set_option (hm_get (a_identity_project_map c) subject)"
  by (auto simp: projects_for_def split: option.splits)

lemma add_identity_clean:
  "CHR ''='' \<notin> set k \<Longrightarrow> add_identity (k @ CHR ''='' # v) m = hm_insert (trim k) (trim v) m"
  by (simp add: add_identity_def split_once_first)

end
