(* ===== verification/Store_Inventory.thy ===== *)
theory Store_Inventory
  imports Store_Reach
begin

text \<open>
  The console's report on a project: \<open>inventory\<close> of \<open>src/memory.rs\<close> with its records of
  \<open>src/model.rs\<close>, and \<open>String::from_utf8_lossy\<close>, which it renders payloads with.
\<close>

section \<open>Lossy UTF-8\<close>

text \<open>
  The bytes of the input as numbers; an invalid sequence, up to the longest part of it
  that could start a character, becomes U+FFFD.
\<close>

definition byte :: "char \<Rightarrow> nat" where
  "byte c = of_char c"

definition cont_byte :: "char \<Rightarrow> bool" where
  "cont_byte c = (128 \<le> byte c \<and> byte c < 192)"

definition replacement :: string where
  "replacement = [char_of (239 :: nat), char_of (191 :: nat), char_of (189 :: nat)]"

text \<open>The second bytes a lead byte allows, and how many bytes follow the lead.\<close>

definition second_ok :: "nat \<Rightarrow> nat \<Rightarrow> bool" where
  "second_ok b c =
     (if b = 0xE0 then 0xA0 \<le> c \<and> c \<le> 0xBF
      else if b = 0xED then 0x80 \<le> c \<and> c \<le> 0x9F
      else if b = 0xF0 then 0x90 \<le> c \<and> c \<le> 0xBF
      else if b = 0xF4 then 0x80 \<le> c \<and> c \<le> 0x8F
      else 0x80 \<le> c \<and> c \<le> 0xBF)"

definition following :: "nat \<Rightarrow> nat option" where
  "following b =
     (if b < 0x80 then Some 0
      else if 0xC2 \<le> b \<and> b \<le> 0xDF then Some 1
      else if 0xE0 \<le> b \<and> b \<le> 0xEF then Some 2
      else if 0xF0 \<le> b \<and> b \<le> 0xF4 then Some 3
      else None)"

text \<open>The length of the valid part of the sequence that starts with the lead byte \<open>c\<close>.\<close>

fun conts :: "nat \<Rightarrow> string \<Rightarrow> nat" where
  "conts 0 s = 0"
| "conts (Suc n) [] = 0"
| "conts (Suc n) (c # s) = (if cont_byte c then Suc (conts n s) else 0)"

definition tail_length :: "char \<Rightarrow> nat \<Rightarrow> string \<Rightarrow> nat" where
  "tail_length c n s =
     (case s of
        [] \<Rightarrow> 0
      | d # s' \<Rightarrow> if n = 0 then 0 else if second_ok (byte c) (byte d) then Suc (conts (n - 1) s') else 0)"

function utf8_lossy :: "bytes \<Rightarrow> string" where
  "utf8_lossy [] = []"
| "utf8_lossy (c # s) =
     (case following (byte c) of
        None \<Rightarrow> replacement @ utf8_lossy s
      | Some n \<Rightarrow>
          (let k = tail_length c n s in
           if k = n then c # take n s @ utf8_lossy (drop n s)
           else replacement @ utf8_lossy (drop k s)))"
  by pat_completeness auto
termination
  by (relation "measure length") auto

declare utf8_lossy.simps(2) [simp del]

lemma utf8_lossy_ascii: "list_all (\<lambda>c. byte c < 128) s \<Longrightarrow> utf8_lossy s = s"
proof (induction s)
  case Nil
  then show ?case by simp
next
  case (Cons c s)
  have "tail_length c 0 s = 0" by (simp add: tail_length_def split: list.splits)
  then show ?case using Cons by (simp add: utf8_lossy.simps following_def)
qed

section \<open>The report\<close>

record message_preview =
  mp_id :: string
  mp_data :: string
  mp_attributes :: attrs
  mp_ordering_key :: string
  mp_published_at :: time

record topic_inventory =
  ti_name :: string
  ti_labels :: attrs
  ti_message_count :: nat
  ti_recent :: "message_preview list"

record subscription_inventory =
  si_name :: string
  si_topic :: string
  si_ack_deadline_seconds :: u32
  si_enable_message_ordering :: bool
  si_enable_exactly_once_delivery :: bool
  si_push_endpoint :: "string option"
  si_push_attributes :: attrs
  si_dead_letter_topic :: "string option"
  si_filter :: string
  si_topic_message_count :: nat
  si_next_index :: nat
  si_backlog :: nat
  si_inflight :: nat
  si_retry_queued :: nat
  si_acked :: nat

record inventory_report =
  ir_topics :: "topic_inventory list"
  ir_subscriptions :: "subscription_inventory list"

definition preview_of :: "relay_message \<Rightarrow> message_preview" where
  "preview_of m = \<lparr>mp_id = m_id m, mp_data = utf8_lossy (m_data m), mp_attributes = m_attributes m,
     mp_ordering_key = m_ordering_key m, mp_published_at = m_published_at m\<rparr>"

definition topic_report :: "string \<Rightarrow> topic_state \<Rightarrow> topic_inventory" where
  "topic_report name topic =
     \<lparr>ti_name = name, ti_labels = t_labels (ts_spec topic), ti_message_count = length (ts_messages topic),
      ti_recent = map preview_of (take 20 (rev (ts_messages topic)))\<rparr>"

definition backlog_of :: "nat \<Rightarrow> subscription_state \<Rightarrow> nat" where
  "backlog_of topic_len sub =
     (let unacked_behind_cursor =
            length (filter (\<lambda>i. i \<notin> ss_acked sub) [0..<min (ss_next_index sub) topic_len]);
          ahead = topic_len - ss_next_index sub
      in unacked_behind_cursor + ahead + length (ss_retry_queue sub))"

definition subscription_report :: "state \<Rightarrow> string \<Rightarrow> subscription_state \<Rightarrow> subscription_inventory" where
  "subscription_report s name sub =
     (let topic_len = (case hm_get (st_topics s) (s_topic (ss_spec sub)) of
                         Some t \<Rightarrow> length (ts_messages t) | None \<Rightarrow> 0)
      in \<lparr>si_name = name, si_topic = s_topic (ss_spec sub),
          si_ack_deadline_seconds = s_ack_deadline_seconds (ss_spec sub),
          si_enable_message_ordering = s_enable_message_ordering (ss_spec sub),
          si_enable_exactly_once_delivery = s_enable_exactly_once_delivery (ss_spec sub),
          si_push_endpoint = s_push_endpoint (ss_spec sub),
          si_push_attributes = s_push_attributes (ss_spec sub),
          si_dead_letter_topic = map_option d_topic (s_dead_letter (ss_spec sub)),
          si_filter = s_filter (ss_spec sub), si_topic_message_count = topic_len,
          si_next_index = ss_next_index sub, si_backlog = backlog_of topic_len sub,
          si_inflight = length (ss_inflight sub), si_retry_queued = length (ss_retry_queue sub),
          si_acked = card (ss_acked sub)\<rparr>)"

definition inventory :: "state \<Rightarrow> string \<Rightarrow> inventory_report res" where
  "inventory s project =
     Ok \<lparr>ir_topics = sort_key ti_name (map (\<lambda>(name, topic). topic_report name topic)
           (filter (\<lambda>(name, _). belongs_to_project name project) (st_topics s))),
         ir_subscriptions = sort_key si_name (map (\<lambda>(name, sub). subscription_report s name sub)
           (filter (\<lambda>(name, _). belongs_to_project name project) (st_subscriptions s)))\<rparr>"

section \<open>What the backlog counts\<close>

lemma length_filter_notin:
  assumes "A \<subseteq> {..<n}"
  shows "length (filter (\<lambda>i. i \<notin> A) [0..<n]) = n - card A"
proof -
  have "length (filter (\<lambda>i. i \<notin> A) [0..<n]) = card ({..<n} - A)"
    by (subst distinct_card [symmetric]) (auto simp: atLeast0LessThan [symmetric] intro: arg_cong [where f = card])
  also have "\<dots> = card {..<n} - card A"
    using assms by (intro card_Diff_subset finite_subset [OF assms]) auto
  finally show ?thesis by simp
qed

text \<open>
  On a well-formed subscription the estimate is the number of messages of the topic that
  are not acknowledged, wherever the subscription started, plus once more the number of
  those that wait for redelivery.
\<close>

lemma backlog_exact:
  assumes "sub_ok n len sub"
  shows "backlog_of len sub = (len - card (ss_acked sub)) + length (ss_retry_queue sub)"
    and "set (queued sub) \<inter> ss_acked sub = {}"
proof -
  have sub: "ss_acked sub \<subseteq> {..<ss_next_index sub}"
    using sub_okD(7) [OF assms] by (auto simp: tracked_def)
  have "card (ss_acked sub) \<le> ss_next_index sub"
    using card_mono [OF _ sub] by simp
  then show "backlog_of len sub = (len - card (ss_acked sub)) + length (ss_retry_queue sub)"
    using sub_okD(4) [OF assms] length_filter_notin [OF sub] by (simp add: backlog_of_def min_def)
  show "set (queued sub) \<inter> ss_acked sub = {}"
    using sub_okD(6) [OF assms] by (auto simp: live_def)
qed

end
