(* ===== verification/Backend.thy ===== *)
theory Backend
  imports Store_Inventory
begin

text \<open>
  The trait \<open>RelayBackend\<close> of \<open>src/backend.rs\<close>. An object of the trait is a record of its
  methods, over a state of its own; every method gets the environment of its call and may
  change the state. The memory store is one such object. An operation is a call of a method
  with its arguments; what the call returns is left out of its result but for the error.
\<close>

section \<open>The trait\<close>

record 's relay_backend =
  b_create_topic :: "env \<Rightarrow> topic_spec \<Rightarrow> 's \<Rightarrow> topic_spec res \<times> 's"
  b_update_topic :: "env \<Rightarrow> topic_spec \<Rightarrow> string list \<Rightarrow> 's \<Rightarrow> topic_spec res \<times> 's"
  b_get_topic :: "env \<Rightarrow> string \<Rightarrow> 's \<Rightarrow> topic_spec res \<times> 's"
  b_list_topics :: "env \<Rightarrow> string \<Rightarrow> int \<Rightarrow> string \<Rightarrow> 's \<Rightarrow> topic_spec page res \<times> 's"
  b_list_topic_subscriptions :: "env \<Rightarrow> string \<Rightarrow> int \<Rightarrow> string \<Rightarrow> 's \<Rightarrow> string page res \<times> 's"
  b_delete_topic :: "env \<Rightarrow> string \<Rightarrow> 's \<Rightarrow> unit res \<times> 's"
  b_create_subscription :: "env \<Rightarrow> subscription_spec \<Rightarrow> 's \<Rightarrow> subscription_spec res \<times> 's"
  b_update_subscription :: "env \<Rightarrow> subscription_spec \<Rightarrow> string list \<Rightarrow> 's \<Rightarrow> subscription_spec res \<times> 's"
  b_get_subscription :: "env \<Rightarrow> string \<Rightarrow> 's \<Rightarrow> subscription_spec res \<times> 's"
  b_list_subscriptions :: "env \<Rightarrow> string \<Rightarrow> int \<Rightarrow> string \<Rightarrow> 's \<Rightarrow> subscription_spec page res \<times> 's"
  b_delete_subscription :: "env \<Rightarrow> string \<Rightarrow> 's \<Rightarrow> unit res \<times> 's"
  b_modify_push_config :: "env \<Rightarrow> string \<Rightarrow> string option \<Rightarrow> attrs \<Rightarrow> 's \<Rightarrow> unit res \<times> 's"
  b_publish :: "env \<Rightarrow> string \<Rightarrow> new_message list \<Rightarrow> 's \<Rightarrow> string list res \<times> 's"
  b_pull :: "env \<Rightarrow> string \<Rightarrow> u32 \<Rightarrow> 's \<Rightarrow> delivery list res \<times> 's"
  b_acknowledge :: "env \<Rightarrow> string \<Rightarrow> string list \<Rightarrow> 's \<Rightarrow> unit res \<times> 's"
  b_modify_ack_deadline :: "env \<Rightarrow> string \<Rightarrow> string list \<Rightarrow> u32 \<Rightarrow> 's \<Rightarrow> unit res \<times> 's"
  b_seek_to_time :: "env \<Rightarrow> string \<Rightarrow> time \<Rightarrow> 's \<Rightarrow> unit res \<times> 's"
  b_seek_to_snapshot :: "env \<Rightarrow> string \<Rightarrow> string \<Rightarrow> 's \<Rightarrow> unit res \<times> 's"
  b_create_snapshot :: "env \<Rightarrow> string \<Rightarrow> string \<Rightarrow> attrs \<Rightarrow> 's \<Rightarrow> snapshot_spec res \<times> 's"
  b_update_snapshot :: "env \<Rightarrow> snapshot_spec \<Rightarrow> string list \<Rightarrow> 's \<Rightarrow> snapshot_spec res \<times> 's"
  b_get_snapshot :: "env \<Rightarrow> string \<Rightarrow> 's \<Rightarrow> snapshot_spec res \<times> 's"
  b_list_snapshots :: "env \<Rightarrow> string \<Rightarrow> int \<Rightarrow> string \<Rightarrow> 's \<Rightarrow> snapshot_spec page res \<times> 's"
  b_delete_snapshot :: "env \<Rightarrow> string \<Rightarrow> 's \<Rightarrow> unit res \<times> 's"
  b_get_iam_policy :: "env \<Rightarrow> string \<Rightarrow> 's \<Rightarrow> iam_policy res \<times> 's"
  b_set_iam_policy :: "env \<Rightarrow> string \<Rightarrow> iam_policy \<Rightarrow> 's \<Rightarrow> iam_policy res \<times> 's"
  b_test_iam_permissions :: "env \<Rightarrow> string \<Rightarrow> string list \<Rightarrow> 's \<Rightarrow> string list res \<times> 's"
  b_create_schema :: "env \<Rightarrow> schema_spec \<Rightarrow> 's \<Rightarrow> schema_spec res \<times> 's"
  b_get_schema :: "env \<Rightarrow> string \<Rightarrow> 's \<Rightarrow> schema_spec res \<times> 's"
  b_list_schemas :: "env \<Rightarrow> string \<Rightarrow> int \<Rightarrow> string \<Rightarrow> 's \<Rightarrow> schema_spec page res \<times> 's"
  b_delete_schema :: "env \<Rightarrow> string \<Rightarrow> 's \<Rightarrow> unit res \<times> 's"
  b_validate_schema :: "env \<Rightarrow> schema_spec \<Rightarrow> 's \<Rightarrow> unit res \<times> 's"
  b_validate_message :: "env \<Rightarrow> string option \<Rightarrow> schema_spec option \<Rightarrow> bytes \<Rightarrow> 's \<Rightarrow> unit res \<times> 's"
  b_list_push_subscriptions :: "env \<Rightarrow> 's \<Rightarrow> subscription_spec list res \<times> 's"
  b_inventory :: "env \<Rightarrow> string \<Rightarrow> 's \<Rightarrow> inventory_report res \<times> 's"

text \<open>The trait's own \<open>inventory\<close>, given the methods that list topics and subscriptions.\<close>

definition bare_topic_report :: "topic_spec \<Rightarrow> topic_inventory" where
  "bare_topic_report t =
     \<lparr>ti_name = t_name t, ti_labels = t_labels t, ti_message_count = 0, ti_recent = []\<rparr>"

definition bare_subscription_report :: "subscription_spec \<Rightarrow> subscription_inventory" where
  "bare_subscription_report s =
     \<lparr>si_name = s_name s, si_topic = s_topic s, si_ack_deadline_seconds = s_ack_deadline_seconds s,
      si_enable_message_ordering = s_enable_message_ordering s,
      si_enable_exactly_once_delivery = s_enable_exactly_once_delivery s,
      si_push_endpoint = s_push_endpoint s, si_push_attributes = s_push_attributes s,
      si_dead_letter_topic = map_option d_topic (s_dead_letter s), si_filter = s_filter s,
      si_topic_message_count = 0, si_next_index = 0, si_backlog = 0, si_inflight = 0,
      si_retry_queued = 0, si_acked = 0\<rparr>"

definition default_inventory ::
  "(string \<Rightarrow> int \<Rightarrow> string \<Rightarrow> 's \<Rightarrow> topic_spec page res \<times> 's) \<Rightarrow>
   (string \<Rightarrow> int \<Rightarrow> string \<Rightarrow> 's \<Rightarrow> subscription_spec page res \<times> 's) \<Rightarrow>
   string \<Rightarrow> 's \<Rightarrow> inventory_report res \<times> 's" where
  "default_inventory topics_of subscriptions_of project s =
     (case topics_of project 1000 [] s of
        (Ok topics, s1) \<Rightarrow>
          (case subscriptions_of project 1000 [] s1 of
             (Ok subscriptions, s2) \<Rightarrow>
               (Ok \<lparr>ir_topics = map bare_topic_report (pg_items topics),
                   ir_subscriptions = map bare_subscription_report (pg_items subscriptions)\<rparr>, s2)
           | (Err err, s2) \<Rightarrow> (Err err, s2)
           | (Panic, s2) \<Rightarrow> (Panic, s2))
      | (Err err, s1) \<Rightarrow> (Err err, s1)
      | (Panic, s1) \<Rightarrow> (Panic, s1))"

section \<open>The memory store as an object of the trait\<close>

text \<open>Its reading methods leave it as it is; these put the functions of the store in place.\<close>

definition read1 :: "(state \<Rightarrow> 'x \<Rightarrow> 'a res) \<Rightarrow> env \<Rightarrow> 'x \<Rightarrow> state \<Rightarrow> 'a res \<times> state" where
  "read1 f e x s = (f s x, s)"

definition read2 :: "(state \<Rightarrow> 'x \<Rightarrow> 'y \<Rightarrow> 'a res) \<Rightarrow> env \<Rightarrow> 'x \<Rightarrow> 'y \<Rightarrow> state \<Rightarrow> 'a res \<times> state" where
  "read2 f e x y s = (f s x y, s)"

definition read3 ::
  "(state \<Rightarrow> 'x \<Rightarrow> 'y \<Rightarrow> 'z \<Rightarrow> 'a res) \<Rightarrow> env \<Rightarrow> 'x \<Rightarrow> 'y \<Rightarrow> 'z \<Rightarrow> state \<Rightarrow> 'a res \<times> state" where
  "read3 f e x y z s = (f s x y z, s)"

definition push_listing :: "env \<Rightarrow> state \<Rightarrow> subscription_spec list res \<times> state" where
  "push_listing e s = (list_push_subscriptions s, s)"

definition check_schema :: "env \<Rightarrow> schema_spec \<Rightarrow> state \<Rightarrow> unit res \<times> state" where
  "check_schema e schema s = (validate_definition (e_json e) schema, s)"

definition check_message ::
  "env \<Rightarrow> string option \<Rightarrow> schema_spec option \<Rightarrow> bytes \<Rightarrow> state \<Rightarrow> unit res \<times> state" where
  "check_message e schema_name schema message s =
     (validate_message (e_json e) s schema_name schema message, s)"

definition memory_backend :: "state relay_backend" where
  "memory_backend =
     \<lparr>b_create_topic = create_topic,
      b_update_topic = update_topic,
      b_get_topic = read1 get_topic,
      b_list_topics = read3 list_topics,
      b_list_topic_subscriptions = read3 list_topic_subscriptions,
      b_delete_topic = delete_topic,
      b_create_subscription = create_subscription,
      b_update_subscription = update_subscription,
      b_get_subscription = read1 get_subscription,
      b_list_subscriptions = read3 list_subscriptions,
      b_delete_subscription = delete_subscription,
      b_modify_push_config = modify_push_config,
      b_publish = publish,
      b_pull = pull,
      b_acknowledge = acknowledge,
      b_modify_ack_deadline = modify_ack_deadline,
      b_seek_to_time = seek_to_time,
      b_seek_to_snapshot = seek_to_snapshot,
      b_create_snapshot = create_snapshot,
      b_update_snapshot = update_snapshot,
      b_get_snapshot = read1 get_snapshot,
      b_list_snapshots = read3 list_snapshots,
      b_delete_snapshot = delete_snapshot,
      b_get_iam_policy = read1 get_iam_policy,
      b_set_iam_policy = set_iam_policy,
      b_test_iam_permissions = read2 test_iam_permissions,
      b_create_schema = create_schema,
      b_get_schema = read1 get_schema,
      b_list_schemas = read3 list_schemas,
      b_delete_schema = delete_schema,
      b_validate_schema = check_schema,
      b_validate_message = check_message,
      b_list_push_subscriptions = push_listing,
      b_inventory = read1 inventory\<rparr>"

lemma memory_sel [simp]:
  "b_create_topic memory_backend = create_topic"
  "b_update_topic memory_backend = update_topic"
  "b_get_topic memory_backend e n s = (get_topic s n, s)"
  "b_list_topics memory_backend e n k tok s = (list_topics s n k tok, s)"
  "b_list_topic_subscriptions memory_backend e n k tok s = (list_topic_subscriptions s n k tok, s)"
  "b_delete_topic memory_backend = delete_topic"
  "b_create_subscription memory_backend = create_subscription"
  "b_update_subscription memory_backend = update_subscription"
  "b_get_subscription memory_backend e n s = (get_subscription s n, s)"
  "b_list_subscriptions memory_backend e n k tok s = (list_subscriptions s n k tok, s)"
  "b_delete_subscription memory_backend = delete_subscription"
  "b_modify_push_config memory_backend = modify_push_config"
  "b_publish memory_backend = publish"
  "b_pull memory_backend = pull"
  "b_acknowledge memory_backend = acknowledge"
  "b_modify_ack_deadline memory_backend = modify_ack_deadline"
  "b_seek_to_time memory_backend = seek_to_time"
  "b_seek_to_snapshot memory_backend = seek_to_snapshot"
  "b_create_snapshot memory_backend = create_snapshot"
  "b_update_snapshot memory_backend = update_snapshot"
  "b_get_snapshot memory_backend e n s = (get_snapshot s n, s)"
  "b_list_snapshots memory_backend e n k tok s = (list_snapshots s n k tok, s)"
  "b_delete_snapshot memory_backend = delete_snapshot"
  "b_get_iam_policy memory_backend e n s = (get_iam_policy s n, s)"
  "b_set_iam_policy memory_backend = set_iam_policy"
  "b_test_iam_permissions memory_backend e n ps s = (test_iam_permissions s n ps, s)"
  "b_create_schema memory_backend = create_schema"
  "b_get_schema memory_backend e n s = (get_schema s n, s)"
  "b_list_schemas memory_backend e n k tok s = (list_schemas s n k tok, s)"
  "b_delete_schema memory_backend = delete_schema"
  "b_validate_schema memory_backend e x s = (validate_definition (e_json e) x, s)"
  "b_validate_message memory_backend e o1 o2 m s = (validate_message (e_json e) s o1 o2 m, s)"
  "b_list_push_subscriptions memory_backend e s = (list_push_subscriptions s, s)"
  "b_inventory memory_backend e n s = (inventory s n, s)"
  by (simp_all add: memory_backend_def read1_def read2_def read3_def push_listing_def check_schema_def check_message_def)

section \<open>Operations\<close>

text \<open>The writing methods are the requests; these are the reading ones.\<close>

datatype query =
    GetTopic string
  | ListTopics string int string
  | ListTopicSubscriptions string int string
  | GetSubscription string
  | ListSubscriptions string int string
  | GetSnapshot string
  | ListSnapshots string int string
  | GetIamPolicy string
  | TestIamPermissions string "string list"
  | GetSchema string
  | ListSchemas string int string
  | ValidateSchema schema_spec
  | ValidateMessage "string option" "schema_spec option" bytes
  | ListPushSubscriptions
  | Inventory string

datatype operation = Do request | Ask query

primrec bk_perform :: "'s relay_backend \<Rightarrow> env \<Rightarrow> request \<Rightarrow> 's \<Rightarrow> unit res \<times> 's" where
  "bk_perform bk e (CreateTopic t) s = forget (b_create_topic bk e t s)"
| "bk_perform bk e (UpdateTopic t upd) s = forget (b_update_topic bk e t upd s)"
| "bk_perform bk e (DeleteTopic n) s = b_delete_topic bk e n s"
| "bk_perform bk e (CreateSubscription x) s = forget (b_create_subscription bk e x s)"
| "bk_perform bk e (UpdateSubscription x upd) s = forget (b_update_subscription bk e x upd s)"
| "bk_perform bk e (DeleteSubscription n) s = b_delete_subscription bk e n s"
| "bk_perform bk e (ModifyPushConfig n ep a) s = b_modify_push_config bk e n ep a s"
| "bk_perform bk e (Publish topic ms) s = forget (b_publish bk e topic ms s)"
| "bk_perform bk e (Pull n k) s = forget (b_pull bk e n k s)"
| "bk_perform bk e (Acknowledge n ks) s = b_acknowledge bk e n ks s"
| "bk_perform bk e (ModifyAckDeadline n ks secs) s = b_modify_ack_deadline bk e n ks secs s"
| "bk_perform bk e (SeekToTime n t) s = b_seek_to_time bk e n t s"
| "bk_perform bk e (SeekToSnapshot n x) s = b_seek_to_snapshot bk e n x s"
| "bk_perform bk e (CreateSnapshot n x labels) s = forget (b_create_snapshot bk e n x labels s)"
| "bk_perform bk e (UpdateSnapshot x upd) s = forget (b_update_snapshot bk e x upd s)"
| "bk_perform bk e (DeleteSnapshot n) s = b_delete_snapshot bk e n s"
| "bk_perform bk e (SetIamPolicy n p) s = forget (b_set_iam_policy bk e n p s)"
| "bk_perform bk e (CreateSchema x) s = forget (b_create_schema bk e x s)"
| "bk_perform bk e (DeleteSchema n) s = b_delete_schema bk e n s"

primrec bk_query :: "'s relay_backend \<Rightarrow> env \<Rightarrow> query \<Rightarrow> 's \<Rightarrow> unit res \<times> 's" where
  "bk_query bk e (GetTopic n) s = forget (b_get_topic bk e n s)"
| "bk_query bk e (ListTopics p k tok) s = forget (b_list_topics bk e p k tok s)"
| "bk_query bk e (ListTopicSubscriptions n k tok) s = forget (b_list_topic_subscriptions bk e n k tok s)"
| "bk_query bk e (GetSubscription n) s = forget (b_get_subscription bk e n s)"
| "bk_query bk e (ListSubscriptions p k tok) s = forget (b_list_subscriptions bk e p k tok s)"
| "bk_query bk e (GetSnapshot n) s = forget (b_get_snapshot bk e n s)"
| "bk_query bk e (ListSnapshots p k tok) s = forget (b_list_snapshots bk e p k tok s)"
| "bk_query bk e (GetIamPolicy n) s = forget (b_get_iam_policy bk e n s)"
| "bk_query bk e (TestIamPermissions n ps) s = forget (b_test_iam_permissions bk e n ps s)"
| "bk_query bk e (GetSchema n) s = forget (b_get_schema bk e n s)"
| "bk_query bk e (ListSchemas p k tok) s = forget (b_list_schemas bk e p k tok s)"
| "bk_query bk e (ValidateSchema x) s = b_validate_schema bk e x s"
| "bk_query bk e (ValidateMessage n x m) s = b_validate_message bk e n x m s"
| "bk_query bk e ListPushSubscriptions s = forget (b_list_push_subscriptions bk e s)"
| "bk_query bk e (Inventory p) s = forget (b_inventory bk e p s)"

primrec bk_run :: "'s relay_backend \<Rightarrow> env \<Rightarrow> operation \<Rightarrow> 's \<Rightarrow> unit res \<times> 's" where
  "bk_run bk e (Do r) = bk_perform bk e r"
| "bk_run bk e (Ask q) = bk_query bk e q"

lemma forget_unit [simp]: "forget (q :: unit res \<times> 's) = q"
  by (cases "fst q") (simp_all add: forget_def prod_eq_iff)

lemma forget_panic [simp]: "fst (forget q) = Panic \<longleftrightarrow> fst q = Panic"
  by (cases "fst q") (simp_all add: forget_def)

lemma forget_state [simp]: "snd (forget q) = snd q"
  by (simp add: forget_def)

lemma memory_perform [simp]: "bk_perform memory_backend = perform"
proof (intro ext)
  fix e r and s :: state
  show "bk_perform memory_backend e r s = perform e r s" by (cases r) simp_all
qed

lemma reads_return [simp]:
  "get_topic s n \<noteq> Panic" "list_topics s p k tok \<noteq> Panic" "list_topic_subscriptions s n k tok \<noteq> Panic"
  "get_subscription s n \<noteq> Panic" "list_subscriptions s p k tok \<noteq> Panic" "get_snapshot s n \<noteq> Panic"
  "list_snapshots s p k tok \<noteq> Panic" "get_schema s n \<noteq> Panic" "list_schemas s p k tok \<noteq> Panic"
  "get_iam_policy s n \<noteq> Panic" "test_iam_permissions s n ps \<noteq> Panic"
  "list_push_subscriptions s \<noteq> Panic" "inventory s p \<noteq> Panic"
  by (simp_all add: get_topic_def list_topics_def list_topic_subscriptions_def get_subscription_def
      list_subscriptions_def get_snapshot_def list_snapshots_def get_schema_def list_schemas_def
      get_iam_policy_def test_iam_permissions_def list_push_subscriptions_def inventory_def
      split: option.splits)

lemma validate_message_returns [simp]: "validate_message jp s n x m \<noteq> Panic"
  by (auto simp: validate_message_def res_bind_def split: option.splits res.splits)

text \<open>A read of the memory store changes nothing and does not panic.\<close>

lemma memory_query: "snd (bk_query memory_backend e q s) = s" "fst (bk_query memory_backend e q s) \<noteq> Panic"
  by (cases q; simp)+

section \<open>The contract of a backend\<close>

text \<open>
  What the surfaces rely on: in the states it gets into, with an environment that is fine
  there, a backend answers every operation, and the operations that it allows keep it in
  such a state.
\<close>

locale answering_backend =
  fixes bk :: "'s relay_backend" and ok :: "'s \<Rightarrow> bool" and fine :: "env \<Rightarrow> 's \<Rightarrow> bool"
    and allowed :: "operation \<Rightarrow> 's \<Rightarrow> bool"
  assumes answers: "ok s \<Longrightarrow> fine e s \<Longrightarrow> fst (bk_run bk e op s) \<noteq> Panic"
    and keeps: "ok s \<Longrightarrow> fine e s \<Longrightarrow> allowed op s \<Longrightarrow> ok (snd (bk_run bk e op s))"

definition store_allows :: "operation \<Rightarrow> state \<Rightarrow> bool" where
  "store_allows op s = (case op of Do r \<Rightarrow> admissible r s | Ask q \<Rightarrow> True)"

interpretation memory_store: answering_backend memory_backend reachable env_ok store_allows
proof
  fix s e op
  assume s: "reachable s" "env_ok e s"
  show "fst (bk_run memory_backend e op s) \<noteq> Panic"
    using perform_no_panic [OF reachable_ok [OF s(1)] s(2)] memory_query(2) by (cases op) simp_all
  assume "store_allows op s"
  then show "reachable (snd (bk_run memory_backend e op s))"
    using s memory_query(1) [of e _ s] by (cases op) (auto simp: store_allows_def intro: next_state step.intros)
qed

end
