(* ===== verification/Log_Buffer.thy ===== *)
theory Log_Buffer
  imports Relay_Model
begin

text \<open>
  \<open>src/log_buffer.rs\<close>: the bounded buffer of log events behind the console's tail. The
  capacity is a \<open>usize\<close>, a natural number; identifiers are 64-bit words that saturate.
  The tracing layer turns an event into such an entry; rendering a field with \<open>Debug\<close> is the
  caller's, so that its text is part of the event.
\<close>

section \<open>State and operations\<close>

datatype level = ERROR | WARN | INFO | DEBUG | TRACE

primrec level_str :: "level \<Rightarrow> string" where
  "level_str ERROR = ''ERROR''"
| "level_str WARN = ''WARN''"
| "level_str INFO = ''INFO''"
| "level_str DEBUG = ''DEBUG''"
| "level_str TRACE = ''TRACE''"

record log_entry =
  le_id :: u64
  le_ts :: time
  le_level :: string
  le_target :: string
  le_message :: string

record log_buffer =
  lb_next_id :: u64
  lb_entries :: "log_entry list"
  lb_capacity :: nat

definition log_new :: "nat \<Rightarrow> log_buffer" where
  "log_new capacity = \<lparr>lb_next_id = 1, lb_entries = [], lb_capacity = max capacity 100\<rparr>"

definition sat_inc_u64 :: "u64 \<Rightarrow> u64" where
  "sat_inc_u64 x = (if x = 0xFFFFFFFFFFFFFFFF then x else x + 1)"

text \<open>The loop that drops from the front while the buffer is over its capacity.\<close>

fun trim_front :: "nat \<Rightarrow> 'a list \<Rightarrow> 'a list" where
  "trim_front capacity [] = []"
| "trim_front capacity (x # xs) =
     (if capacity < length (x # xs) then trim_front capacity xs else x # xs)"

definition log_push :: "time \<Rightarrow> level \<Rightarrow> string \<Rightarrow> string \<Rightarrow> log_buffer \<Rightarrow> log_buffer" where
  "log_push now level target message b =
     (let entry = \<lparr>le_id = lb_next_id b, le_ts = now, le_level = level_str level,
                   le_target = target, le_message = message\<rparr>
      in b\<lparr>lb_next_id := sat_inc_u64 (lb_next_id b),
           lb_entries := trim_front (lb_capacity b) (lb_entries b @ [entry])\<rparr>)"

definition log_since :: "u64 \<Rightarrow> nat \<Rightarrow> log_buffer \<Rightarrow> log_entry list" where
  "log_since after_id limit b =
     take (clamp limit 1 2000) (filter (\<lambda>e. after_id < le_id e) (lb_entries b))"

definition log_recent :: "nat \<Rightarrow> log_buffer \<Rightarrow> log_entry list" where
  "log_recent limit b = rev (take (clamp limit 1 2000) (rev (lb_entries b)))"

section \<open>The tracing layer\<close>

text \<open>The fields of an event, in their order, by the method of the visitor they are handed to.\<close>

datatype field_value =
    Debug_Field string
  | Str_Field string
  | I64_Field int
  | U64_Field u64
  | Bool_Field bool

record log_event =
  lv_level :: level
  lv_target :: string
  lv_name :: string
  lv_fields :: "(string \<times> field_value) list"

definition show_int :: "int \<Rightarrow> string" where
  "show_int k = (if k < 0 then CHR ''-'' # show_nat (nat (- k)) else show_nat (nat k))"

definition trim_quotes :: "string \<Rightarrow> string" where
  "trim_quotes s = rev (dropWhile (\<lambda>c. c = CHR 0x22) (rev (dropWhile (\<lambda>c. c = CHR 0x22) s)))"

record visitor =
  vi_message :: string
  vi_fields :: "(string \<times> string) list"

definition record_field :: "string \<times> field_value \<Rightarrow> visitor \<Rightarrow> visitor" where
  "record_field f v =
     (let (name, field) = f; other = (\<lambda>text. v\<lparr>vi_fields := vi_fields v @ [(name, text)]\<rparr>) in
      case field of
        Debug_Field text \<Rightarrow>
          if name = ''message'' then v\<lparr>vi_message := trim_quotes text\<rparr> else other text
      | Str_Field text \<Rightarrow> if name = ''message'' then v\<lparr>vi_message := text\<rparr> else other text
      | I64_Field k \<Rightarrow> other (show_int k)
      | U64_Field k \<Rightarrow> other (show_nat (unat k))
      | Bool_Field b \<Rightarrow> other (if b then ''true'' else ''false''))"

fun join_space :: "string list \<Rightarrow> string" where
  "join_space [] = []"
| "join_space [x] = x"
| "join_space (x # xs) = x @ '' '' @ join_space xs"

definition event_message :: "log_event \<Rightarrow> string" where
  "event_message ev =
     (let v = fold record_field (lv_fields ev) \<lparr>vi_message = [], vi_fields = []\<rparr>;
          extras = join_space (map (\<lambda>(k, x). k @ ''='' @ x) (vi_fields v));
          message = (if vi_fields v = [] then vi_message v
                     else if vi_message v = [] then extras
                     else vi_message v @ '' '' @ extras)
      in if message = [] then lv_name ev else message)"

definition on_event :: "time \<Rightarrow> log_event \<Rightarrow> log_buffer \<Rightarrow> log_buffer" where
  "on_event now ev b =
     (if starts_with (lv_target ev) ''tower_http'' \<or> starts_with (lv_target ev) ''hyper'' then b
      else log_push now (lv_level ev) (lv_target ev) (event_message ev) b)"

text \<open>An event with a name never leaves an empty line.\<close>

lemma event_message_nonempty: "lv_name ev \<noteq> [] \<Longrightarrow> event_message ev \<noteq> []"
  by (simp add: event_message_def Let_def)

section \<open>Facts\<close>

lemma trim_front_drop: "trim_front n xs = drop (length xs - n) xs"
proof (induction xs)
  case Nil
  then show ?case by simp
next
  case (Cons x xs)
  then show ?case by (auto simp: Suc_diff_le not_less)
qed

lemma trim_front_length: "length (trim_front n xs) = min (length xs) n"
  by (simp add: trim_front_drop min_def)

text \<open>
  Until the identifier saturates, the entries' identifiers are consecutive and end just
  before the next one.
\<close>

definition log_ok :: "log_buffer \<Rightarrow> bool" where
  "log_ok b =
     (100 \<le> lb_capacity b \<and> length (lb_entries b) \<le> lb_capacity b \<and>
      length (lb_entries b) < unat (lb_next_id b) \<and>
      map (unat \<circ> le_id) (lb_entries b) = [unat (lb_next_id b) - length (lb_entries b)..<unat (lb_next_id b)])"

lemma log_ok_new: "log_ok (log_new capacity)"
  by (simp add: log_ok_def log_new_def)

lemma unat_sat_inc: "x \<noteq> 0xFFFFFFFFFFFFFFFF \<Longrightarrow> unat (sat_inc_u64 x) = Suc (unat x)"
proof -
  assume x: "x \<noteq> 0xFFFFFFFFFFFFFFFF"
  have "x + 1 \<noteq> 0"
  proof
    assume "x + 1 = 0"
    then have "x = - 1" by (simp add: eq_neg_iff_add_eq_0)
    then show False using x by simp
  qed
  then have "1 + x \<noteq> 0" by (simp add: add.commute)
  then have "unat (1 + x) = Suc (unat x)" by (rule unatSuc)
  then show ?thesis using x by (simp add: sat_inc_u64_def add.commute)
qed

lemma log_ok_push:
  assumes ok: "log_ok b" and room: "lb_next_id b \<noteq> 0xFFFFFFFFFFFFFFFF"
  shows "log_ok (log_push now level target message b)"
proof -
  let ?b = "log_push now level target message b"
  let ?xs = "lb_entries b" and ?n = "unat (lb_next_id b)"
  obtain e where e: "lb_entries ?b = trim_front (lb_capacity b) (?xs @ [e])" "le_id e = lb_next_id b"
    by (simp add: log_push_def Let_def)
  have nx: "unat (lb_next_id ?b) = Suc ?n" "lb_capacity ?b = lb_capacity b"
    using unat_sat_inc [OF room] by (simp_all add: log_push_def Let_def)
  have ids: "map (unat \<circ> le_id) (?xs @ [e]) = [?n - length ?xs..<Suc ?n]"
    using ok e(2) by (simp add: log_ok_def)
  have len: "length (lb_entries ?b) = min (Suc (length ?xs)) (lb_capacity b)"
    unfolding e(1) by (simp add: trim_front_length)
  let ?k = "Suc (length ?xs) - lb_capacity b"
  have "map (unat \<circ> le_id) (lb_entries ?b) = drop ?k [?n - length ?xs..<Suc ?n]"
    unfolding e(1) trim_front_drop ids [symmetric] drop_map [symmetric] by simp
  also have "\<dots> = [?n - length ?xs + ?k..<Suc ?n]" by (rule drop_upt)
  also have "?n - length ?xs + ?k = Suc ?n - length (lb_entries ?b)"
    using ok unfolding len by (auto simp: log_ok_def min_def)
  finally have m: "map (unat \<circ> le_id) (lb_entries ?b) = [Suc ?n - length (lb_entries ?b)..<Suc ?n]" .
  show ?thesis
    unfolding log_ok_def nx using m ok len by (simp add: log_ok_def del: upt_Suc) linarith
qed

section \<open>Tailing\<close>

text \<open>A tailer that asks for what follows the last identifier it saw, until it gets nothing.\<close>

fun log_tail :: "nat \<Rightarrow> nat \<Rightarrow> u64 \<Rightarrow> log_buffer \<Rightarrow> log_entry list" where
  "log_tail 0 limit after_id b = []"
| "log_tail (Suc fuel) limit after_id b =
     (case log_since after_id limit b of
        [] \<Rightarrow> []
      | page \<Rightarrow> page @ log_tail fuel limit (le_id (last page)) b)"

lemma filter_after_last:
  assumes "sorted_wrt (<) (map unat (map le_id xs))" "0 < n" "filter (\<lambda>e. a < le_id e) xs = ys" "ys \<noteq> []"
  shows "filter (\<lambda>e. le_id (last (take n ys)) < le_id e) xs = drop n ys"
proof -
  have s: "sorted_wrt (\<lambda>x y. le_id x < le_id y) xs"
    using assms(1) by (simp add: sorted_wrt_map word_less_nat_alt)
  have sy: "sorted_wrt (\<lambda>x y. le_id x < le_id y) ys"
    unfolding assms(3) [symmetric] using s by (rule sorted_wrt_filter)
  let ?l = "last (take n ys)"
  have ne: "take n ys \<noteq> []" using assms(2,4) by simp
  have l: "?l \<in> set ys" using last_in_set [OF ne] by (rule in_set_takeD)
  then have al: "a < le_id ?l" using assms(3) by auto
  have "filter (\<lambda>e. le_id ?l < le_id e) xs = filter (\<lambda>e. le_id ?l < le_id e) ys"
    using al unfolding assms(3) [symmetric] filter_filter
    by (intro filter_cong refl) (use assms(3) in auto)
  also have "\<dots> = filter (\<lambda>e. le_id ?l < le_id e) (take n ys) @ filter (\<lambda>e. le_id ?l < le_id e) (drop n ys)"
    by (metis append_take_drop_id filter_append)
  also have "filter (\<lambda>e. le_id ?l < le_id e) (take n ys) = []"
  proof -
    obtain zs where zs: "take n ys = zs @ [?l]" using ne by (metis append_butlast_last_id)
    have "sorted_wrt (\<lambda>x y. le_id x < le_id y) (take n ys)" using sy by (rule sorted_wrt_take)
    then have "\<forall>z \<in> set zs. le_id z < le_id ?l" by (subst (asm) zs) (simp add: sorted_wrt_append)
    then show ?thesis by (subst zs) (auto simp: filter_empty_conv)
  qed
  also have "filter (\<lambda>e. le_id ?l < le_id e) (drop n ys) = drop n ys"
  proof -
    have "sorted_wrt (\<lambda>x y. le_id x < le_id y) (take n ys @ drop n ys)" using sy by simp
    then have "\<forall>x \<in> set (take n ys). \<forall>y \<in> set (drop n ys). le_id x < le_id y"
      unfolding sorted_wrt_append by blast
    then show ?thesis using last_in_set [OF ne] by (simp add: filter_id_conv)
  qed
  finally show ?thesis by simp
qed

lemma log_ok_sorted: "log_ok b \<Longrightarrow> sorted_wrt (<) (map unat (map le_id (lb_entries b)))"
  using sorted_wrt_upt by (simp add: log_ok_def)

lemma log_tail_all:
  assumes "log_ok b" "length (filter (\<lambda>e. a < le_id e) (lb_entries b)) < fuel"
  shows "log_tail fuel limit a b = filter (\<lambda>e. a < le_id e) (lb_entries b)"
  using assms(2)
proof (induction fuel arbitrary: a)
  case 0
  then show ?case by simp
next
  case (Suc fuel)
  let ?ys = "filter (\<lambda>e. a < le_id e) (lb_entries b)" and ?n = "clamp limit 1 2000"
  have n: "0 < ?n" using clamp_bounds(1) [of 1 "2000::nat" limit] by simp
  show ?case
  proof (cases "?ys = []")
    case True
    then show ?thesis by (simp add: log_since_def)
  next
    case False
    have next_page: "filter (\<lambda>e. le_id (last (take ?n ?ys)) < le_id e) (lb_entries b) = drop ?n ?ys"
      by (rule filter_after_last [OF log_ok_sorted [OF assms(1)] n refl False])
    have "log_tail fuel limit (le_id (last (take ?n ?ys))) b = drop ?n ?ys"
      using Suc.IH [of "le_id (last (take ?n ?ys))"] Suc.prems False n next_page
      by (cases ?ys) auto
    moreover have "take ?n ?ys \<noteq> []" using n False by simp
    moreover have "x # zs @ drop ?n ?ys = ?ys" if "take ?n ?ys = x # zs" for x zs
      using append_take_drop_id [of ?n ?ys] unfolding that by simp
    ultimately show ?thesis
      unfolding log_tail.simps log_since_def by (cases "take ?n ?ys") (simp_all del: append_take_drop_id)
  qed
qed

end
