(* ===== verification/Rest_Api.thy ===== *)
theory Rest_Api
  imports Rest_Json Auth Backend Log_Buffer
begin

text \<open>
  The HTTP surface of \<open>src/rest.rs\<close>: authorization, the dispatch of the Google Pub/Sub
  paths and its handlers, over any backend. A handler is a function of the decoded
  request and the backend's state; its result is a reply, or a panic of the task. What is
  counted is in theory \<open>Metrics\<close>; log lines are left out.
\<close>

section \<open>Replies\<close>

record http_reply =
  hp_status :: nat
  hp_body :: "json option"

definition json_reply :: "nat \<Rightarrow> json \<Rightarrow> http_reply" where
  "json_reply status v = \<lparr>hp_status = status, hp_body = Some v\<rparr>"

definition error_reply :: "nat \<Rightarrow> string \<Rightarrow> string \<Rightarrow> http_reply" where
  "error_reply status message code = json_reply status (JObject [(''error'', JObject
     [(''code'', json_i32 (int status)), (''message'', JString message), (''status'', JString code)])])"

primrec error_status :: "backend_error \<Rightarrow> nat \<times> string" where
  "error_status (NotFound m) = (404, ''NOT_FOUND'')"
| "error_status (AlreadyExists m) = (409, ''ALREADY_EXISTS'')"
| "error_status (InvalidArgument m) = (400, ''INVALID_ARGUMENT'')"
| "error_status (FailedPrecondition m) = (412, ''FAILED_PRECONDITION'')"
| "error_status (PermissionDenied m) = (403, ''PERMISSION_DENIED'')"
| "error_status (Unavailable m) = (503, ''UNAVAILABLE'')"
| "error_status (Internal m) = (500, ''INTERNAL'')"

definition backend_error_reply :: "backend_error \<Rightarrow> http_reply" where
  "backend_error_reply e =
     (let (status, code) = error_status e in error_reply status (error_text e) code)"

definition bad_request :: "string \<Rightarrow> http_reply" where
  "bad_request message = error_reply 400 message ''INVALID_ARGUMENT''"

definition not_found :: "string \<Rightarrow> http_reply" where
  "not_found message = error_reply 404 message ''NOT_FOUND''"

definition method_not_allowed :: http_reply where
  "method_not_allowed = \<lparr>hp_status = 405, hp_body = None\<rparr>"

text \<open>The match on a backend's result that ends the handlers.\<close>

definition answer :: "('a \<Rightarrow> json) \<Rightarrow> 'a res \<times> 's \<Rightarrow> http_reply res \<times> 's" where
  "answer f r =
     ((case fst r of
         Ok x \<Rightarrow> Ok (json_reply 200 (f x))
       | Err e \<Rightarrow> Ok (backend_error_reply e)
       | Panic \<Rightarrow> Panic), snd r)"

definition empty_json :: "unit \<Rightarrow> json" where
  "empty_json u = JObject []"

definition page_json :: "string \<Rightarrow> ('a \<Rightarrow> json) \<Rightarrow> 'a page \<Rightarrow> json" where
  "page_json key f p =
     JObject [(key, JArray (map f (pg_items p))), (''nextPageToken'', JString (pg_next_page_token p))]"

section \<open>Authorization\<close>

definition authorize ::
  "auth_config option \<Rightarrow> 'key oidc \<Rightarrow> string option \<Rightarrow> string \<Rightarrow> jwks_cache \<Rightarrow>
   (http_reply + unit) \<times> jwks_cache" where
  "authorize authenticator x header resource cache =
     (case authenticator of
        None \<Rightarrow> (Inr (), cache)
      | Some auth \<Rightarrow>
          (case authenticate_bearer auth x header cache of
             (Inl message, cache') \<Rightarrow> (Inl (error_reply 401 message ''UNAUTHENTICATED''), cache')
           | (Inr ctx, cache') \<Rightarrow>
               (case authorize_resource ctx resource of
                  Inl message \<Rightarrow> (Inl (error_reply 403 message ''PERMISSION_DENIED''), cache')
                | Inr _ \<Rightarrow> (Inr (), cache'))))"

definition auth_resource_for_path :: "string \<Rightarrow> json \<Rightarrow> string" where
  "auth_resource_for_path path body =
     (case split_once (CHR '':'') path of
        Some (resource, _) \<Rightarrow> resource
      | None \<Rightarrow>
          (case (if ends_with path ''/topics'' \<or> ends_with path ''/subscriptions'' \<or> ends_with path ''/snapshots''
                 then map_option (\<lambda>p. hd (split_on (CHR ''/'') p)) (strip_prefix ''projects/'' path)
                 else None) of
             Some project \<Rightarrow> ''projects/'' @ project
           | None \<Rightarrow>
               if str_contains path ''/topics/'' \<and> ends_with path ''/subscriptions'' then
                 trim_end_matches ''/subscriptions'' path
               else
                 (let parent = hd (split_on (CHR '':'') path) in
                  if str_contains path ''/schemas'' \<and> ends_with parent ''/schemas'' then parent
                  else (case get_str body ''resource'' of Some resource \<Rightarrow> resource | None \<Rightarrow> path))))"

section \<open>Handlers of the custom methods\<close>

definition handle_publish :: "'s relay_backend \<Rightarrow> env \<Rightarrow> rest_lib \<Rightarrow> string \<Rightarrow> json \<Rightarrow> 's \<Rightarrow> http_reply res \<times> 's" where
  "handle_publish bk e lib path value s =
     (let topic = trim_end_matches '':publish'' path in
      case parse_messages lib value of
        Inl message \<Rightarrow> (Ok (bad_request message), s)
      | Inr messages \<Rightarrow>
          answer (\<lambda>ids. JObject [(''messageIds'', JArray (map JString ids))]) (b_publish bk e topic messages s))"

definition max_messages_of :: "json \<Rightarrow> u32" where
  "max_messages_of value =
     ucast (clamp (or_default 1 (Option.bind (json_get value ''maxMessages'') as_u64)) 1 1000)"

definition handle_pull :: "'s relay_backend \<Rightarrow> env \<Rightarrow> rest_lib \<Rightarrow> string \<Rightarrow> json \<Rightarrow> 's \<Rightarrow> http_reply res \<times> 's" where
  "handle_pull bk e lib path value s =
     (let subscription = trim_end_matches '':pull'' path; max = max_messages_of value in
      answer (\<lambda>ds. JObject [(''receivedMessages'', JArray (map (delivery_json lib) ds))])
        (b_pull bk e subscription max s))"

definition ack_ids_of :: "json \<Rightarrow> string list" where
  "ack_ids_of value = or_default [] (Option.bind (json_get value ''ackIds'') string_list_of)"

definition handle_acknowledge :: "'s relay_backend \<Rightarrow> env \<Rightarrow> string \<Rightarrow> json \<Rightarrow> 's \<Rightarrow> http_reply res \<times> 's" where
  "handle_acknowledge bk e path value s =
     answer empty_json (b_acknowledge bk e (trim_end_matches '':acknowledge'' path) (ack_ids_of value) s)"

definition handle_modify_ack_deadline :: "'s relay_backend \<Rightarrow> env \<Rightarrow> string \<Rightarrow> json \<Rightarrow> 's \<Rightarrow> http_reply res \<times> 's" where
  "handle_modify_ack_deadline bk e path value s =
     (let subscription = trim_end_matches '':modifyAckDeadline'' path;
          secs = or_default 0 (Option.bind (json_get value ''ackDeadlineSeconds'') as_u64)
      in if 600 < secs then (Ok (bad_request ''ackDeadlineSeconds must be <= 600''), s)
         else answer empty_json (b_modify_ack_deadline bk e subscription (ack_ids_of value) (ucast secs) s))"

definition handle_seek :: "'s relay_backend \<Rightarrow> env \<Rightarrow> rest_lib \<Rightarrow> string \<Rightarrow> json \<Rightarrow> 's \<Rightarrow> http_reply res \<times> 's" where
  "handle_seek bk e lib path value s =
     (let subscription = trim_end_matches '':seek'' path in
      case get_str value ''snapshot'' of
        Some snapshot \<Rightarrow> answer empty_json (b_seek_to_snapshot bk e subscription snapshot s)
      | None \<Rightarrow>
          (case Option.bind (get_str value ''time'') (rl_parse_time lib) of
             Some time \<Rightarrow> answer empty_json (b_seek_to_time bk e subscription time s)
           | None \<Rightarrow> (Ok (bad_request ''time or snapshot is required''), s)))"

definition handle_modify_push_config :: "'s relay_backend \<Rightarrow> env \<Rightarrow> string \<Rightarrow> json \<Rightarrow> 's \<Rightarrow> http_reply res \<times> 's" where
  "handle_modify_push_config bk e path value s =
     (let (push_endpoint, push_attributes) = parse_push_config value in
      answer empty_json
        (b_modify_push_config bk e (trim_end_matches '':modifyPushConfig'' path) push_endpoint push_attributes s))"

definition handle_get_iam_policy :: "'s relay_backend \<Rightarrow> env \<Rightarrow> string \<Rightarrow> 's \<Rightarrow> http_reply res \<times> 's" where
  "handle_get_iam_policy bk e path s =
     answer policy_json (b_get_iam_policy bk e (trim_end_matches '':getIamPolicy'' path) s)"

definition handle_set_iam_policy :: "'s relay_backend \<Rightarrow> env \<Rightarrow> string \<Rightarrow> json \<Rightarrow> 's \<Rightarrow> http_reply res \<times> 's" where
  "handle_set_iam_policy bk e path value s =
     (case policy_from_value (or_default value (json_get value ''policy'')) of
        Inl message \<Rightarrow> (Ok (bad_request message), s)
      | Inr policy \<Rightarrow> answer policy_json (b_set_iam_policy bk e (trim_end_matches '':setIamPolicy'' path) policy s))"

definition handle_test_iam_permissions :: "'s relay_backend \<Rightarrow> env \<Rightarrow> string \<Rightarrow> json \<Rightarrow> 's \<Rightarrow> http_reply res \<times> 's" where
  "handle_test_iam_permissions bk e path value s =
     (let permissions = or_default [] (Option.bind (json_get value ''permissions'') string_list_of) in
      answer (\<lambda>granted. JObject [(''permissions'', JArray (map JString granted))])
        (b_test_iam_permissions bk e (trim_end_matches '':testIamPermissions'' path) permissions s))"

definition handle_validate_schema :: "'s relay_backend \<Rightarrow> env \<Rightarrow> string \<Rightarrow> json \<Rightarrow> 's \<Rightarrow> http_reply res \<times> 's" where
  "handle_validate_schema bk e path value s =
     (let parent = trim_end_matches '':validate'' path;
          schema_body = or_default value (json_get value ''schema'');
          name = str_or parent (json_get schema_body ''name'')
      in case schema_spec_from_value name schema_body of
           Inl message \<Rightarrow> (Ok (bad_request message), s)
         | Inr spec \<Rightarrow> answer empty_json (b_validate_schema bk e spec s))"

definition handle_validate_message :: "'s relay_backend \<Rightarrow> env \<Rightarrow> rest_lib \<Rightarrow> string \<Rightarrow> json \<Rightarrow> 's \<Rightarrow> http_reply res \<times> 's" where
  "handle_validate_message bk e lib path value s =
     (let parent = trim_end_matches '':validateMessage'' path in
      case rl_decode lib (str_or [] (json_get value ''message'')) of
        None \<Rightarrow> (Ok (bad_request ''message must be base64''), s)
      | Some message \<Rightarrow>
          (case Option.bind (get_in (json_get value ''schema'') ''name'') as_str of
             Some name \<Rightarrow> answer empty_json (b_validate_message bk e (Some name) None message s)
           | None \<Rightarrow>
               (case json_get value ''schema'' of
                  None \<Rightarrow> (Ok (bad_request ''schema or schema.name is required''), s)
                | Some schema_body \<Rightarrow>
                    (case schema_spec_from_value parent schema_body of
                       Inl m \<Rightarrow> (Ok (bad_request m), s)
                     | Inr spec \<Rightarrow>
                         answer empty_json (b_validate_message bk e None (Some spec) message s)))))"

section \<open>Handlers of the resource paths\<close>

datatype http_method = GET | POST | PUT | PATCH | DELETE | OTHER

definition topic_request ::
  "'s relay_backend \<Rightarrow> env \<Rightarrow> http_method \<Rightarrow> string \<Rightarrow> string list \<Rightarrow> json \<Rightarrow> 's \<Rightarrow> http_reply res \<times> 's" where
  "topic_request bk e verb name update_mask value s =
     (case verb of
        PUT \<Rightarrow> answer topic_json (b_create_topic bk e (topic_spec_from_value name value) s)
      | PATCH \<Rightarrow> answer topic_json (b_update_topic bk e (topic_spec_from_value name value) update_mask s)
      | GET \<Rightarrow> answer topic_json (b_get_topic bk e name s)
      | DELETE \<Rightarrow> answer empty_json (b_delete_topic bk e name s)
      | _ \<Rightarrow> (Ok method_not_allowed, s))"

definition subscription_request ::
  "'s relay_backend \<Rightarrow> env \<Rightarrow> http_method \<Rightarrow> string \<Rightarrow> string list \<Rightarrow> json \<Rightarrow> 's \<Rightarrow> http_reply res \<times> 's" where
  "subscription_request bk e verb name update_mask value s =
     (case verb of
        PUT \<Rightarrow>
          (case subscription_spec_from_value name value of
             Inl message \<Rightarrow> (Ok (bad_request message), s)
           | Inr spec \<Rightarrow> answer subscription_json (b_create_subscription bk e spec s))
      | PATCH \<Rightarrow>
          (case subscription_spec_from_value name value of
             Inl message \<Rightarrow> (Ok (bad_request message), s)
           | Inr spec \<Rightarrow> answer subscription_json (b_update_subscription bk e spec update_mask s))
      | GET \<Rightarrow> answer subscription_json (b_get_subscription bk e name s)
      | DELETE \<Rightarrow> answer empty_json (b_delete_subscription bk e name s)
      | _ \<Rightarrow> (Ok method_not_allowed, s))"

definition snapshot_request ::
  "'s relay_backend \<Rightarrow> env \<Rightarrow> rest_lib \<Rightarrow> http_method \<Rightarrow> string \<Rightarrow> string list \<Rightarrow> json \<Rightarrow> 's \<Rightarrow> http_reply res \<times> 's" where
  "snapshot_request bk e lib verb name update_mask value s =
     (case verb of
        PUT \<Rightarrow>
          (case get_str value ''subscription'' of
             None \<Rightarrow> (Ok (bad_request ''subscription is required''), s)
           | Some subscription \<Rightarrow>
               answer (snapshot_json lib) (b_create_snapshot bk e name subscription (parse_labels value) s))
      | PATCH \<Rightarrow>
          (let expire_time = or_default (e_now e) (Option.bind (get_str value ''expireTime'') (rl_parse_time lib));
               spec = \<lparr>sn_name = str_or name (json_get value ''name''),
                       sn_topic = str_or [] (json_get value ''topic''), sn_expire_time = expire_time,
                       sn_labels = parse_labels value, sn_topic_index = 0\<rparr>
           in answer (snapshot_json lib) (b_update_snapshot bk e spec update_mask s))
      | GET \<Rightarrow> answer (snapshot_json lib) (b_get_snapshot bk e name s)
      | DELETE \<Rightarrow> answer empty_json (b_delete_snapshot bk e name s)
      | _ \<Rightarrow> (Ok method_not_allowed, s))"

definition schema_request ::
  "'s relay_backend \<Rightarrow> env \<Rightarrow> http_method \<Rightarrow> string \<Rightarrow> json \<Rightarrow> 's \<Rightarrow> http_reply res \<times> 's" where
  "schema_request bk e verb name value s =
     (case verb of
        PUT \<Rightarrow>
          (case schema_spec_from_value name value of
             Inl message \<Rightarrow> (Ok (bad_request message), s)
           | Inr spec \<Rightarrow> answer schema_json (b_create_schema bk e spec s))
      | GET \<Rightarrow> answer schema_json (b_get_schema bk e name s)
      | DELETE \<Rightarrow> answer empty_json (b_delete_schema bk e name s)
      | _ \<Rightarrow> (Ok method_not_allowed, s))"

definition handle_resource_request ::
  "'s relay_backend \<Rightarrow> env \<Rightarrow> rest_lib \<Rightarrow> http_method \<Rightarrow> string \<Rightarrow> string \<Rightarrow> json \<Rightarrow> 's \<Rightarrow> http_reply res \<times> 's" where
  "handle_resource_request bk e lib verb path query value s =
     (let parts = split_on (CHR ''/'') path in
      if length parts < 3 \<or> parts ! 0 \<noteq> ''projects'' then (Ok (not_found ''unknown Pub/Sub REST path''), s)
      else
        let project = ''projects/'' @ parts ! 1;
            page_size = page_size_from_query (Some query);
            page_token = page_token_from_query (Some query);
            update_mask = parse_update_mask value (query_param query ''updateMask'')
        in
        if length parts = 3 \<and> parts ! 2 = ''topics'' \<and> verb = GET then
          answer (page_json ''topics'' topic_json) (b_list_topics bk e project page_size page_token s)
        else if length parts = 3 \<and> parts ! 2 = ''subscriptions'' \<and> verb = GET then
          answer (page_json ''subscriptions'' subscription_json)
            (b_list_subscriptions bk e project page_size page_token s)
        else if length parts = 3 \<and> parts ! 2 = ''snapshots'' \<and> verb = GET then
          answer (page_json ''snapshots'' (snapshot_json lib)) (b_list_snapshots bk e project page_size page_token s)
        else if length parts = 3 \<and> parts ! 2 = ''schemas'' \<and> verb = GET then
          answer (page_json ''schemas'' schema_json) (b_list_schemas bk e project page_size page_token s)
        else if length parts = 5 \<and> parts ! 2 = ''topics'' \<and> parts ! 4 = ''subscriptions'' \<and> verb = GET then
          answer (page_json ''subscriptions'' JString)
            (b_list_topic_subscriptions bk e (trim_end_matches ''/subscriptions'' path) page_size page_token s)
        else if length parts = 4 \<and> parts ! 2 = ''topics'' then topic_request bk e verb path update_mask value s
        else if length parts = 4 \<and> parts ! 2 = ''subscriptions'' then
          subscription_request bk e verb path update_mask value s
        else if length parts = 4 \<and> parts ! 2 = ''snapshots'' then
          snapshot_request bk e lib verb path update_mask value s
        else if length parts = 4 \<and> parts ! 2 = ''schemas'' then schema_request bk e verb path value s
        else (Ok (not_found ''unknown Pub/Sub REST path''), s))"

section \<open>Dispatch\<close>

definition route ::
  "'s relay_backend \<Rightarrow> env \<Rightarrow> rest_lib \<Rightarrow> http_method \<Rightarrow> string \<Rightarrow> string \<Rightarrow> json \<Rightarrow> 's \<Rightarrow> http_reply res \<times> 's" where
  "route bk e lib verb path query value s =
     (if verb = POST \<and> ends_with path '':publish'' then handle_publish bk e lib path value s
      else if verb = POST \<and> ends_with path '':pull'' then handle_pull bk e lib path value s
      else if verb = POST \<and> ends_with path '':acknowledge'' then handle_acknowledge bk e path value s
      else if verb = POST \<and> ends_with path '':modifyAckDeadline'' then
        handle_modify_ack_deadline bk e path value s
      else if verb = POST \<and> ends_with path '':seek'' then handle_seek bk e lib path value s
      else if verb = POST \<and> ends_with path '':modifyPushConfig'' then
        handle_modify_push_config bk e path value s
      else if verb = POST \<and> ends_with path '':getIamPolicy'' then handle_get_iam_policy bk e path s
      else if verb = POST \<and> ends_with path '':setIamPolicy'' then handle_set_iam_policy bk e path value s
      else if verb = POST \<and> ends_with path '':testIamPermissions'' then
        handle_test_iam_permissions bk e path value s
      else if verb = POST \<and> ends_with path '':validate'' then handle_validate_schema bk e path value s
      else if verb = POST \<and> ends_with path '':validateMessage'' then
        handle_validate_message bk e lib path value s
      else handle_resource_request bk e lib verb path query value s)"

text \<open>
  A request as the handler gets it: the path of the URI, its query, the value of the
  authorization header when it is text, and the body.
\<close>

record http_in =
  hi_method :: http_method
  hi_path :: string
  hi_query :: "string option"
  hi_authorization :: "string option"
  hi_body :: bytes

definition google_dispatch ::
  "'s relay_backend \<Rightarrow> auth_config option \<Rightarrow> 'key oidc \<Rightarrow> env \<Rightarrow> rest_lib \<Rightarrow> http_in \<Rightarrow> jwks_cache \<Rightarrow> 's \<Rightarrow>
   http_reply res \<times> jwks_cache \<times> 's" where
  "google_dispatch bk auth x e lib r cache s =
     (let path = trim_start_matches ''/v1/'' (hi_path r); query = or_default [] (hi_query r) in
      case (if hi_body r = [] then Inr (JObject []) else e_json e (hi_body r)) of
        Inl err \<Rightarrow> (Ok (bad_request (''invalid json: '' @ err)), cache, s)
      | Inr value \<Rightarrow>
          (case authorize auth x (hi_authorization r) (auth_resource_for_path path value) cache of
             (Inl resp, cache') \<Rightarrow> (Ok resp, cache', s)
           | (Inr _, cache') \<Rightarrow>
               (let (resp, s') = route bk e lib (hi_method r) path query value s in (resp, cache', s'))))"

end
