(* ===== verification/Rest_Admin.thy ===== *)
theory Rest_Admin
  imports Rest_Api
begin

text \<open>
  The console's endpoints of \<open>src/rest.rs\<close> (\<open>/admin/v1/...\<close>) and the readiness probe. The
  extractors have already decoded the request. Their replies are the derived serialisation
  of the data model: fields under their own names, an absent option as null, bytes as an
  array of numbers. Every handler authorizes the resource it then uses.
\<close>

section \<open>The derived serialisation\<close>

definition json_nat :: "nat \<Rightarrow> json" where
  "json_nat n = JNumber (PosInt (word_of_nat n))"

definition topic_ser :: "topic_spec \<Rightarrow> json" where
  "topic_ser t = JObject
     [(''name'', JString (t_name t)), (''labels'', json_map (t_labels t)),
      (''kms_key_name'', JString (t_kms_key_name t)), (''schema_name'', JString (t_schema_name t)),
      (''schema_encoding'', JString (t_schema_encoding t))]"

definition subscription_ser :: "subscription_spec \<Rightarrow> json" where
  "subscription_ser s = JObject
     [(''name'', JString (s_name s)), (''topic'', JString (s_topic s)),
      (''ack_deadline_seconds'', json_u32 (s_ack_deadline_seconds s)), (''labels'', json_map (s_labels s)),
      (''enable_message_ordering'', JBool (s_enable_message_ordering s)),
      (''enable_exactly_once_delivery'', JBool (s_enable_exactly_once_delivery s)),
      (''dead_letter'', json_opt (\<lambda>d. JObject [(''topic'', JString (d_topic d)),
         (''max_delivery_attempts'', json_u32 (d_max_delivery_attempts d))]) (s_dead_letter s)),
      (''retry'', json_opt (\<lambda>r. JObject
         [(''minimum_backoff_seconds'', json_u32 (r_minimum_backoff_seconds r)),
          (''maximum_backoff_seconds'', json_u32 (r_maximum_backoff_seconds r))]) (s_retry s)),
      (''push_endpoint'', json_opt JString (s_push_endpoint s)),
      (''push_attributes'', json_map (s_push_attributes s)), (''filter'', JString (s_filter s))]"

definition message_ser :: "rest_lib \<Rightarrow> relay_message \<Rightarrow> json" where
  "message_ser lib m = JObject
     [(''id'', JString (m_id m)), (''data'', JArray (map (\<lambda>c. json_nat (byte c)) (m_data m))),
      (''attributes'', json_map (m_attributes m)), (''ordering_key'', JString (m_ordering_key m)),
      (''published_at'', JString (rl_serde_time lib (m_published_at m)))]"

definition delivery_ser :: "rest_lib \<Rightarrow> delivery \<Rightarrow> json" where
  "delivery_ser lib d = JObject
     [(''ack_id'', JString (dv_ack_id d)), (''message'', message_ser lib (dv_message d)),
      (''delivery_attempt'', json_u32 (dv_delivery_attempt d))]"

definition preview_ser :: "rest_lib \<Rightarrow> message_preview \<Rightarrow> json" where
  "preview_ser lib p = JObject
     [(''id'', JString (mp_id p)), (''data'', JString (mp_data p)), (''attributes'', json_map (mp_attributes p)),
      (''ordering_key'', JString (mp_ordering_key p)),
      (''published_at'', JString (rl_serde_time lib (mp_published_at p)))]"

definition topic_inventory_ser :: "rest_lib \<Rightarrow> topic_inventory \<Rightarrow> json" where
  "topic_inventory_ser lib t = JObject
     [(''name'', JString (ti_name t)), (''labels'', json_map (ti_labels t)),
      (''message_count'', json_nat (ti_message_count t)),
      (''recent'', JArray (map (preview_ser lib) (ti_recent t)))]"

definition subscription_inventory_ser :: "subscription_inventory \<Rightarrow> json" where
  "subscription_inventory_ser s = JObject
     [(''name'', JString (si_name s)), (''topic'', JString (si_topic s)),
      (''ack_deadline_seconds'', json_u32 (si_ack_deadline_seconds s)),
      (''enable_message_ordering'', JBool (si_enable_message_ordering s)),
      (''enable_exactly_once_delivery'', JBool (si_enable_exactly_once_delivery s)),
      (''push_endpoint'', json_opt JString (si_push_endpoint s)),
      (''push_attributes'', json_map (si_push_attributes s)),
      (''dead_letter_topic'', json_opt JString (si_dead_letter_topic s)), (''filter'', JString (si_filter s)),
      (''topic_message_count'', json_nat (si_topic_message_count s)),
      (''next_index'', json_nat (si_next_index s)), (''backlog'', json_nat (si_backlog s)),
      (''inflight'', json_nat (si_inflight s)), (''retry_queued'', json_nat (si_retry_queued s)),
      (''acked'', json_nat (si_acked s))]"

definition inventory_ser :: "rest_lib \<Rightarrow> inventory_report \<Rightarrow> json" where
  "inventory_ser lib r = JObject
     [(''topics'', JArray (map (topic_inventory_ser lib) (ir_topics r))),
      (''subscriptions'', JArray (map subscription_inventory_ser (ir_subscriptions r)))]"

definition log_entry_ser :: "rest_lib \<Rightarrow> log_entry \<Rightarrow> json" where
  "log_entry_ser lib e = JObject
     [(''id'', JNumber (PosInt (le_id e))), (''ts'', JString (rl_serde_time lib (le_ts e))),
      (''level'', JString (le_level e)), (''target'', JString (le_target e)),
      (''message'', JString (le_message e))]"

section \<open>The decoded requests\<close>

record admin_publish_in =
  ap_topic :: string
  ap_data :: string
  ap_attributes :: attrs
  ap_ordering_key :: string
  ap_message_id :: string

record admin_pull_in =
  al_subscription :: string
  al_max_messages :: "u32 option"

record admin_ack_in =
  aa_subscription :: string
  aa_ack_ids :: "string list"

record admin_push_config_in =
  ac_subscription :: string
  ac_push_endpoint :: "string option"
  ac_push_attributes :: attrs

record logs_query =
  lq_after :: "u64 option"
  lq_limit :: "nat option"

section \<open>Handlers\<close>

text \<open>The authorization that opens every handler; \<open>k\<close> is what follows it.\<close>

definition guarded ::
  "auth_config option \<Rightarrow> 'key oidc \<Rightarrow> string option \<Rightarrow> string \<Rightarrow> jwks_cache \<Rightarrow> 's \<Rightarrow>
   (unit \<Rightarrow> http_reply res \<times> 's) \<Rightarrow> http_reply res \<times> jwks_cache \<times> 's" where
  "guarded auth x header resource cache s k =
     (case authorize auth x header resource cache of
        (Inl resp, cache') \<Rightarrow> (Ok resp, cache', s)
      | (Inr _, cache') \<Rightarrow> (let (resp, s') = k () in (resp, cache', s')))"

definition admin_topics ::
  "'s relay_backend \<Rightarrow> auth_config option \<Rightarrow> 'key oidc \<Rightarrow> string option \<Rightarrow> env \<Rightarrow> string option \<Rightarrow> jwks_cache \<Rightarrow> 's \<Rightarrow>
   http_reply res \<times> jwks_cache \<times> 's" where
  "admin_topics bk auth x header e query cache s =
     (let project = or_default ''projects/demo'' query in
      guarded auth x header project cache s (\<lambda>_.
        answer (\<lambda>p. JArray (map topic_ser (pg_items p))) (b_list_topics bk e project 1000 [] s)))"

definition admin_subscriptions ::
  "'s relay_backend \<Rightarrow> auth_config option \<Rightarrow> 'key oidc \<Rightarrow> string option \<Rightarrow> env \<Rightarrow> string option \<Rightarrow> jwks_cache \<Rightarrow> 's \<Rightarrow>
   http_reply res \<times> jwks_cache \<times> 's" where
  "admin_subscriptions bk auth x header e query cache s =
     (let project = or_default ''projects/demo'' query in
      guarded auth x header project cache s (\<lambda>_.
        answer (\<lambda>p. JArray (map subscription_ser (pg_items p))) (b_list_subscriptions bk e project 1000 [] s)))"

definition admin_publish ::
  "'s relay_backend \<Rightarrow> auth_config option \<Rightarrow> 'key oidc \<Rightarrow> string option \<Rightarrow> env \<Rightarrow> admin_publish_in \<Rightarrow> jwks_cache \<Rightarrow> 's \<Rightarrow>
   http_reply res \<times> jwks_cache \<times> 's" where
  "admin_publish bk auth x header e req cache s =
     guarded auth x header (ap_topic req) cache s (\<lambda>_.
       answer (\<lambda>ids. JObject [(''message_ids'', JArray (map JString ids))])
         (b_publish bk e (ap_topic req)
            [\<lparr>n_data = ap_data req, n_attributes = ap_attributes req,
              n_ordering_key = ap_ordering_key req, n_message_id = ap_message_id req\<rparr>] s))"

definition default_pull :: u32 where
  "default_pull = 10"

definition admin_pull ::
  "'s relay_backend \<Rightarrow> auth_config option \<Rightarrow> 'key oidc \<Rightarrow> string option \<Rightarrow> env \<Rightarrow> rest_lib \<Rightarrow> admin_pull_in \<Rightarrow> jwks_cache \<Rightarrow> 's \<Rightarrow>
   http_reply res \<times> jwks_cache \<times> 's" where
  "admin_pull bk auth x header e lib req cache s =
     guarded auth x header (al_subscription req) cache s (\<lambda>_.
       answer (\<lambda>ds. JArray (map (delivery_ser lib) ds))
         (b_pull bk e (al_subscription req) (or_default default_pull (al_max_messages req)) s))"

definition admin_ack ::
  "'s relay_backend \<Rightarrow> auth_config option \<Rightarrow> 'key oidc \<Rightarrow> string option \<Rightarrow> env \<Rightarrow> admin_ack_in \<Rightarrow> jwks_cache \<Rightarrow> 's \<Rightarrow>
   http_reply res \<times> jwks_cache \<times> 's" where
  "admin_ack bk auth x header e req cache s =
     guarded auth x header (aa_subscription req) cache s (\<lambda>_.
       answer (\<lambda>_. JObject [(''ok'', JBool True)])
         (b_acknowledge bk e (aa_subscription req) (aa_ack_ids req) s))"

definition admin_inventory ::
  "'s relay_backend \<Rightarrow> auth_config option \<Rightarrow> 'key oidc \<Rightarrow> string option \<Rightarrow> env \<Rightarrow> rest_lib \<Rightarrow> string option \<Rightarrow> jwks_cache \<Rightarrow> 's \<Rightarrow>
   http_reply res \<times> jwks_cache \<times> 's" where
  "admin_inventory bk auth x header e lib query cache s =
     (let project = or_default ''projects/demo'' query in
      guarded auth x header project cache s (\<lambda>_. answer (inventory_ser lib) (b_inventory bk e project s)))"

definition admin_push_config ::
  "'s relay_backend \<Rightarrow> auth_config option \<Rightarrow> 'key oidc \<Rightarrow> string option \<Rightarrow> env \<Rightarrow> admin_push_config_in \<Rightarrow> jwks_cache \<Rightarrow> 's \<Rightarrow>
   http_reply res \<times> jwks_cache \<times> 's" where
  "admin_push_config bk auth x header e req cache s =
     guarded auth x header (ac_subscription req) cache s (\<lambda>_.
       let endpoint = (case map_option trim (ac_push_endpoint req) of
                         Some p \<Rightarrow> if p \<noteq> [] then Some p else None
                       | None \<Rightarrow> None)
       in answer (\<lambda>_. JObject [(''ok'', JBool True)])
            (b_modify_push_config bk e (ac_subscription req) endpoint (ac_push_attributes req) s))"

definition admin_logs ::
  "auth_config option \<Rightarrow> 'key oidc \<Rightarrow> string option \<Rightarrow> rest_lib \<Rightarrow> logs_query \<Rightarrow> jwks_cache \<Rightarrow> log_buffer \<Rightarrow>
   http_reply res \<times> jwks_cache \<times> log_buffer" where
  "admin_logs auth x header lib query cache logs =
     guarded auth x header ''projects/demo'' cache logs (\<lambda>_.
       let limit = or_default 200 (lq_limit query);
           entries = (case lq_after query of
                        Some after_id \<Rightarrow> log_since after_id limit logs
                      | None \<Rightarrow> log_recent limit logs);
           next_after = (case entries of [] \<Rightarrow> or_default 0 (lq_after query) | _ \<Rightarrow> le_id (last entries))
       in (Ok (json_reply 200 (JObject [(''entries'', JArray (map (log_entry_ser lib) entries)),
             (''next_after'', JNumber (PosInt next_after))])), logs))"

section \<open>Readiness\<close>

definition healthz :: http_reply where
  "healthz = json_reply 200 (JObject [(''status'', JString ''ok''), (''service'', JString ''relay-pubsub'')])"

text \<open>The probe of Relay: its URL and bearer token, and the status or error it returns.\<close>

definition readyz ::
  "bool \<Rightarrow> string \<Rightarrow> string option \<Rightarrow> (string \<Rightarrow> string option \<Rightarrow> string + nat) \<Rightarrow> http_reply" where
  "readyz check_relay_ready relay_base_url relay_token send =
     (if \<not> check_relay_ready then healthz
      else
        case send (trim_end_matches ''/'' relay_base_url @ ''/healthz'') relay_token of
          Inl err \<Rightarrow> json_reply 503 (JObject [(''status'', JString ''unavailable''),
            (''service'', JString ''relay-pubsub''), (''message'', JString err)])
        | Inr status \<Rightarrow>
            if 200 \<le> status \<and> status < 300 \<or> status = 404 then healthz
            else json_reply 503 (JObject [(''status'', JString ''unavailable''),
              (''service'', JString ''relay-pubsub''), (''relayStatus'', json_nat status)]))"

end
