(* ===== verification/Store_Persist.thy ===== *)
theory Store_Persist
  imports Rest_Admin Store_Steps "HOL-Library.Monad_Syntax"
begin

text \<open>
  The durable form of the memory store (\<open>with_persistence\<close> and \<open>persist_locked\<close> of
  \<open>src/memory.rs\<close>): the state as JSON by the derived serialisation, its reading back, and
  the two files that writing it goes through. Printing and parsing JSON text, the text of a
  point in time, the text of a reading error and the order in which a hash set is written are
  parameters. Reading is
  given for objects with their fields by name, the form that is written.
\<close>

record persist_lib =
  fl_rest :: rest_lib
  fl_print :: "json \<Rightarrow> bytes"
  fl_parse :: "bytes \<Rightarrow> string + json"
  fl_error :: "bytes \<Rightarrow> string"
  fl_set :: "nat set \<Rightarrow> nat list"

section \<open>Writing\<close>

definition map_ser :: "('v \<Rightarrow> json) \<Rightarrow> (string, 'v) hmap \<Rightarrow> json" where
  "map_ser f m = JObject (map (\<lambda>(k, v). (k, f v)) m)"

definition time_ser :: "persist_lib \<Rightarrow> time \<Rightarrow> json" where
  "time_ser lib t = JString (rl_serde_time (fl_rest lib) t)"

definition topic_state_ser :: "persist_lib \<Rightarrow> topic_state \<Rightarrow> json" where
  "topic_state_ser lib t = JObject
     [(''spec'', topic_ser (ts_spec t)),
      (''messages'', JArray (map (message_ser (fl_rest lib)) (ts_messages t))),
      (''seen_ids'', map_ser JString (ts_seen_ids t))]"

definition inflight_ser :: "persist_lib \<Rightarrow> inflight \<Rightarrow> json" where
  "inflight_ser lib x = JObject
     [(''topic_index'', json_nat (if_topic_index x)), (''deadline'', time_ser lib (if_deadline x))]"

definition retry_entry_ser :: "persist_lib \<Rightarrow> retry_entry \<Rightarrow> json" where
  "retry_entry_ser lib x = JObject
     [(''topic_index'', json_nat (re_topic_index x)), (''available_at'', time_ser lib (re_available_at x))]"

text \<open>The keys of a map with integer keys are written as decimal strings.\<close>

definition subscription_state_ser :: "persist_lib \<Rightarrow> subscription_state \<Rightarrow> json" where
  "subscription_state_ser lib x = JObject
     [(''spec'', subscription_ser (ss_spec x)), (''next_index'', json_nat (ss_next_index x)),
      (''acked'', JArray (map json_nat (fl_set lib (ss_acked x)))),
      (''inflight'', map_ser (inflight_ser lib) (ss_inflight x)),
      (''retry_queue'', JArray (map (retry_entry_ser lib) (ss_retry_queue x))),
      (''attempts'', JObject (map (\<lambda>(k, v). (show_nat k, json_u32 v)) (ss_attempts x))),
      (''ordering_acked'', map_ser json_nat (ss_ordering_acked x))]"

definition snapshot_ser :: "persist_lib \<Rightarrow> snapshot_spec \<Rightarrow> json" where
  "snapshot_ser lib x = JObject
     [(''name'', JString (sn_name x)), (''topic'', JString (sn_topic x)),
      (''expire_time'', time_ser lib (sn_expire_time x)), (''labels'', json_map (sn_labels x)),
      (''topic_index'', json_nat (sn_topic_index x))]"

definition schema_ser :: "schema_spec \<Rightarrow> json" where
  "schema_ser x = JObject
     [(''name'', JString (sc_name x)), (''schema_type'', JString (sc_schema_type x)),
      (''definition'', JString (sc_definition x))]"

definition binding_ser :: "iam_binding \<Rightarrow> json" where
  "binding_ser b = JObject [(''role'', JString (b_role b)), (''members'', JArray (map JString (b_members b)))]"

definition policy_ser :: "iam_policy \<Rightarrow> json" where
  "policy_ser p = JObject
     [(''version'', json_i32 (p_version p)), (''bindings'', JArray (map binding_ser (p_bindings p))),
      (''etag'', JString (p_etag p))]"

definition state_ser :: "persist_lib \<Rightarrow> state \<Rightarrow> json" where
  "state_ser lib s = JObject
     [(''topics'', map_ser (topic_state_ser lib) (st_topics s)),
      (''subscriptions'', map_ser (subscription_state_ser lib) (st_subscriptions s)),
      (''snapshots'', map_ser (snapshot_ser lib) (st_snapshots s)),
      (''schemas'', map_ser schema_ser (st_schemas s)), (''iam'', map_ser policy_ser (st_iam s))]"

section \<open>Reading\<close>

text \<open>A field that has to be there, one with a default, and an optional one.\<close>

definition field :: "json \<Rightarrow> string \<Rightarrow> (json \<Rightarrow> 'a option) \<Rightarrow> 'a option" where
  "field v key de = Option.bind (json_get v key) de"

definition field_or :: "'a \<Rightarrow> json \<Rightarrow> string \<Rightarrow> (json \<Rightarrow> 'a option) \<Rightarrow> 'a option" where
  "field_or d v key de = (case json_get v key of None \<Rightarrow> Some d | Some w \<Rightarrow> de w)"

definition opt_de :: "(json \<Rightarrow> 'a option) \<Rightarrow> json \<Rightarrow> 'a option option" where
  "opt_de de v = (case v of JNull \<Rightarrow> Some None | _ \<Rightarrow> map_option Some (de v))"

definition list_de :: "(json \<Rightarrow> 'a option) \<Rightarrow> json \<Rightarrow> 'a list option" where
  "list_de de v = Option.bind (as_array v) (\<lambda>xs. those (map de xs))"

definition map_de :: "(string \<Rightarrow> 'k option) \<Rightarrow> (json \<Rightarrow> 'v option) \<Rightarrow> json \<Rightarrow> ('k, 'v) hmap option" where
  "map_de key de v = Option.bind (as_object v)
     (\<lambda>m. those (map (\<lambda>(k, w). Option.bind (key k) (\<lambda>k'. map_option (Pair k') (de w))) m))"

definition str_map_de :: "(json \<Rightarrow> 'v option) \<Rightarrow> json \<Rightarrow> (string, 'v) hmap option" where
  "str_map_de = map_de Some"

definition usize_de :: "json \<Rightarrow> nat option" where
  "usize_de v = map_option unat (as_u64 v)"

definition u32_de :: "json \<Rightarrow> u32 option" where
  "u32_de v = Option.bind (as_u64 v) (\<lambda>n. if unat n < 2 ^ 32 then Some (ucast n) else None)"

definition u8_de :: "json \<Rightarrow> char option" where
  "u8_de v = Option.bind (as_u64 v) (\<lambda>n. if unat n < 256 then Some (char_of (unat n)) else None)"

definition i32_de :: "json \<Rightarrow> int option" where
  "i32_de v = Option.bind (as_i64 v) (\<lambda>i. if - (2 ^ 31) \<le> i \<and> i < 2 ^ 31 then Some i else None)"

definition time_de :: "persist_lib \<Rightarrow> json \<Rightarrow> time option" where
  "time_de lib v = Option.bind (as_str v) (rl_serde_parse (fl_rest lib))"

definition topic_de :: "json \<Rightarrow> topic_spec option" where
  "topic_de v = do {
     name \<leftarrow> field v ''name'' as_str;
     labels \<leftarrow> field_or [] v ''labels'' (str_map_de as_str);
     kms \<leftarrow> field_or [] v ''kms_key_name'' as_str;
     schema \<leftarrow> field_or [] v ''schema_name'' as_str;
     encoding \<leftarrow> field_or [] v ''schema_encoding'' as_str;
     Some \<lparr>t_name = name, t_labels = labels, t_kms_key_name = kms, t_schema_name = schema,
           t_schema_encoding = encoding\<rparr> }"

definition dead_letter_de :: "json \<Rightarrow> dead_letter_spec option" where
  "dead_letter_de v = do {
     topic \<leftarrow> field v ''topic'' as_str;
     attempts \<leftarrow> field v ''max_delivery_attempts'' u32_de;
     Some \<lparr>d_topic = topic, d_max_delivery_attempts = attempts\<rparr> }"

definition retry_de :: "json \<Rightarrow> retry_spec option" where
  "retry_de v = do {
     lo \<leftarrow> field v ''minimum_backoff_seconds'' u32_de;
     hi \<leftarrow> field v ''maximum_backoff_seconds'' u32_de;
     Some \<lparr>r_minimum_backoff_seconds = lo, r_maximum_backoff_seconds = hi\<rparr> }"

definition subscription_de :: "json \<Rightarrow> subscription_spec option" where
  "subscription_de v = do {
     name \<leftarrow> field v ''name'' as_str;
     topic \<leftarrow> field v ''topic'' as_str;
     deadline \<leftarrow> field v ''ack_deadline_seconds'' u32_de;
     labels \<leftarrow> field_or [] v ''labels'' (str_map_de as_str);
     ordering \<leftarrow> field_or False v ''enable_message_ordering'' as_bool;
     once \<leftarrow> field_or False v ''enable_exactly_once_delivery'' as_bool;
     dead \<leftarrow> field_or None v ''dead_letter'' (opt_de dead_letter_de);
     retry \<leftarrow> field_or None v ''retry'' (opt_de retry_de);
     push \<leftarrow> field_or None v ''push_endpoint'' (opt_de as_str);
     attributes \<leftarrow> field_or [] v ''push_attributes'' (str_map_de as_str);
     filter \<leftarrow> field_or [] v ''filter'' as_str;
     Some \<lparr>s_name = name, s_topic = topic, s_ack_deadline_seconds = deadline, s_labels = labels,
           s_enable_message_ordering = ordering, s_enable_exactly_once_delivery = once,
           s_dead_letter = dead, s_retry = retry, s_push_endpoint = push,
           s_push_attributes = attributes, s_filter = filter\<rparr> }"

definition message_de :: "persist_lib \<Rightarrow> json \<Rightarrow> relay_message option" where
  "message_de lib v = do {
     mid \<leftarrow> field v ''id'' as_str;
     data \<leftarrow> field v ''data'' (list_de u8_de);
     attributes \<leftarrow> field_or [] v ''attributes'' (str_map_de as_str);
     key \<leftarrow> field_or [] v ''ordering_key'' as_str;
     published \<leftarrow> field v ''published_at'' (time_de lib);
     Some \<lparr>m_id = mid, m_data = data, m_attributes = attributes, m_ordering_key = key,
           m_published_at = published\<rparr> }"

definition topic_state_de :: "persist_lib \<Rightarrow> json \<Rightarrow> topic_state option" where
  "topic_state_de lib v = do {
     spec \<leftarrow> field v ''spec'' topic_de;
     messages \<leftarrow> field v ''messages'' (list_de (message_de lib));
     seen \<leftarrow> field_or [] v ''seen_ids'' (str_map_de as_str);
     Some \<lparr>ts_spec = spec, ts_messages = messages, ts_seen_ids = seen\<rparr> }"

definition inflight_de :: "persist_lib \<Rightarrow> json \<Rightarrow> inflight option" where
  "inflight_de lib v = do {
     index \<leftarrow> field v ''topic_index'' usize_de;
     deadline \<leftarrow> field v ''deadline'' (time_de lib);
     Some \<lparr>if_topic_index = index, if_deadline = deadline\<rparr> }"

definition retry_entry_de :: "persist_lib \<Rightarrow> json \<Rightarrow> retry_entry option" where
  "retry_entry_de lib v = do {
     index \<leftarrow> field v ''topic_index'' usize_de;
     available \<leftarrow> field v ''available_at'' (time_de lib);
     Some \<lparr>re_topic_index = index, re_available_at = available\<rparr> }"

definition subscription_state_de :: "persist_lib \<Rightarrow> json \<Rightarrow> subscription_state option" where
  "subscription_state_de lib v = do {
     spec \<leftarrow> field v ''spec'' subscription_de;
     next_index \<leftarrow> field v ''next_index'' usize_de;
     acked \<leftarrow> field v ''acked'' (list_de usize_de);
     inflight \<leftarrow> field v ''inflight'' (str_map_de (inflight_de lib));
     retry \<leftarrow> field v ''retry_queue'' (list_de (retry_entry_de lib));
     attempts \<leftarrow> field v ''attempts'' (map_de parse_usize u32_de);
     ordering \<leftarrow> field v ''ordering_acked'' (str_map_de usize_de);
     Some \<lparr>ss_spec = spec, ss_next_index = next_index, ss_acked = set acked, ss_inflight = inflight,
           ss_retry_queue = retry, ss_attempts = attempts, ss_ordering_acked = ordering\<rparr> }"

definition snapshot_de :: "persist_lib \<Rightarrow> json \<Rightarrow> snapshot_spec option" where
  "snapshot_de lib v = do {
     name \<leftarrow> field v ''name'' as_str;
     topic \<leftarrow> field v ''topic'' as_str;
     expire \<leftarrow> field v ''expire_time'' (time_de lib);
     labels \<leftarrow> field_or [] v ''labels'' (str_map_de as_str);
     index \<leftarrow> field v ''topic_index'' usize_de;
     Some \<lparr>sn_name = name, sn_topic = topic, sn_expire_time = expire, sn_labels = labels,
           sn_topic_index = index\<rparr> }"

definition schema_de :: "json \<Rightarrow> schema_spec option" where
  "schema_de v = do {
     name \<leftarrow> field v ''name'' as_str;
     kind \<leftarrow> field v ''schema_type'' as_str;
     body \<leftarrow> field v ''definition'' as_str;
     Some \<lparr>sc_name = name, sc_schema_type = kind, sc_definition = body\<rparr> }"

definition binding_de :: "json \<Rightarrow> iam_binding option" where
  "binding_de v = do {
     role \<leftarrow> field v ''role'' as_str;
     members \<leftarrow> field v ''members'' (list_de as_str);
     Some \<lparr>b_role = role, b_members = members\<rparr> }"

definition policy_de :: "json \<Rightarrow> iam_policy option" where
  "policy_de v = do {
     version \<leftarrow> field v ''version'' i32_de;
     bindings \<leftarrow> field v ''bindings'' (list_de binding_de);
     etag \<leftarrow> field v ''etag'' as_str;
     Some \<lparr>p_version = version, p_bindings = bindings, p_etag = etag\<rparr> }"

definition state_de :: "persist_lib \<Rightarrow> json \<Rightarrow> state option" where
  "state_de lib v = do {
     topics \<leftarrow> field v ''topics'' (str_map_de (topic_state_de lib));
     subscriptions \<leftarrow> field v ''subscriptions'' (str_map_de (subscription_state_de lib));
     snapshots \<leftarrow> field v ''snapshots'' (str_map_de (snapshot_de lib));
     schemas \<leftarrow> field v ''schemas'' (str_map_de schema_de);
     iam \<leftarrow> field v ''iam'' (str_map_de policy_de);
     Some \<lparr>st_topics = topics, st_subscriptions = subscriptions, st_snapshots = snapshots,
           st_schemas = schemas, st_iam = iam\<rparr> }"

section \<open>Reading back what was written\<close>

text \<open>
  What can be written without loss: indices fit in a \<open>usize\<close>, versions in an \<open>i32\<close>, points in
  time are read as they were written, and a hash set is written in full.
\<close>

definition time_kept :: "persist_lib \<Rightarrow> time \<Rightarrow> bool" where
  "time_kept lib t = (rl_serde_parse (fl_rest lib) (rl_serde_time (fl_rest lib) t) = Some t)"

definition topic_storable :: "persist_lib \<Rightarrow> topic_state \<Rightarrow> bool" where
  "topic_storable lib t = (\<forall>m \<in> set (ts_messages t). time_kept lib (m_published_at m))"

definition sub_storable :: "persist_lib \<Rightarrow> subscription_state \<Rightarrow> bool" where
  "sub_storable lib x =
     (ss_next_index x < usize_mod \<and>
      set (fl_set lib (ss_acked x)) = ss_acked x \<and> (\<forall>i \<in> set (fl_set lib (ss_acked x)). i < usize_mod) \<and>
      (\<forall>y \<in> snd ` set (ss_inflight x). if_topic_index y < usize_mod \<and> time_kept lib (if_deadline y)) \<and>
      (\<forall>y \<in> set (ss_retry_queue x). re_topic_index y < usize_mod \<and> time_kept lib (re_available_at y)) \<and>
      (\<forall>k \<in> fst ` set (ss_attempts x). k < usize_mod) \<and>
      (\<forall>k \<in> snd ` set (ss_ordering_acked x). k < usize_mod))"

definition storable :: "persist_lib \<Rightarrow> state \<Rightarrow> bool" where
  "storable lib s =
     ((\<forall>t \<in> snd ` set (st_topics s). topic_storable lib t) \<and>
      (\<forall>x \<in> snd ` set (st_subscriptions s). sub_storable lib x) \<and>
      (\<forall>x \<in> snd ` set (st_snapshots s). time_kept lib (sn_expire_time x) \<and> sn_topic_index x < usize_mod) \<and>
      (\<forall>p \<in> snd ` set (st_iam s). - (2 ^ 31) \<le> p_version p \<and> p_version p < 2 ^ 31))"

named_theorems read_back \<open>reading the JSON of a value gives the value\<close>

lemma those_Some: "(\<And>x. x \<in> set xs \<Longrightarrow> f (g x) = Some x) \<Longrightarrow> those (map f (map g xs)) = Some xs"
  by (induction xs) simp_all

lemma list_back [read_back]:
  "(\<And>x. x \<in> set xs \<Longrightarrow> de (ser x) = Some x) \<Longrightarrow> list_de de (JArray (map ser xs)) = Some xs"
  using those_Some [of xs de ser] by (simp add: list_de_def as_array_def)

lemma map_back [read_back]:
  assumes "\<And>p. p \<in> set m \<Longrightarrow> de (ser (snd p)) = Some (snd p)"
  shows "str_map_de de (map_ser ser m) = Some m"
  using assms
proof (induction m)
  case Nil
  then show ?case by (simp add: str_map_de_def map_de_def map_ser_def as_object_def)
next
  case (Cons p m)
  have "de (ser (snd p)) = Some (snd p)" "str_map_de de (map_ser ser m) = Some m"
    using Cons by simp_all
  then show ?case by (cases p) (simp add: str_map_de_def map_de_def map_ser_def as_object_def)
qed

lemma json_map_ser: "json_map = map_ser JString"
  by (simp add: json_map_def map_ser_def fun_eq_iff)

lemma string_back [read_back]: "as_str (JString x) = Some x"
  by (simp add: as_str_def)

lemma usize_back [read_back]: "n < usize_mod \<Longrightarrow> usize_de (json_nat n) = Some n"
  by (simp add: usize_de_def json_nat_def as_u64_def usize_mod_def unsigned_of_nat take_bit_nat_eq_self)

lemma u32_back [read_back]: "u32_de (json_u32 w) = Some w"
proof -
  have w: "unat w < 2 ^ 32" by (rule order_less_le_trans [OF unsigned_less]) simp
  then have "take_bit 64 (unat w) = unat w" by (intro take_bit_nat_eq_self) simp
  then have "unat (ucast w :: u64) < 2 ^ 32" using w by (simp add: unsigned_ucast_eq)
  then show ?thesis by (simp add: u32_de_def json_u32_def as_u64_def)
qed

lemma u8_back [read_back]: "u8_de (json_nat (byte c)) = Some c"
proof -
  have c: "byte c < 256" by (simp add: byte_def)
  then have "unat (word_of_nat (byte c) :: u64) = byte c"
    by (simp add: unsigned_of_nat take_bit_nat_eq_self)
  then show ?thesis using c by (simp add: u8_de_def json_nat_def as_u64_def byte_def)
qed

lemma i32_back [read_back]: "- (2 ^ 31) \<le> i \<Longrightarrow> i < 2 ^ 31 \<Longrightarrow> i32_de (json_i32 i) = Some i"
  using json_i32_back [of i] by (simp add: i32_de_def)

lemma bool_back [read_back]: "as_bool (JBool b) = Some b"
  by (simp add: as_bool_def)

lemma time_back [read_back]: "time_kept lib t \<Longrightarrow> time_de lib (time_ser lib t) = Some t"
  by (simp add: time_de_def time_ser_def time_kept_def as_str_def)

lemma attempts_back [read_back]:
  assumes "\<And>p. p \<in> set m \<Longrightarrow> fst p < usize_mod"
  shows "map_de parse_usize u32_de (JObject (map (\<lambda>(k, v). (show_nat k, json_u32 v)) m)) = Some m"
  using assms
proof (induction m)
  case Nil
  then show ?case by (simp add: map_de_def as_object_def)
next
  case (Cons p m)
  have "parse_usize (show_nat (fst p)) = Some (fst p)"
    "map_de parse_usize u32_de (JObject (map (\<lambda>(k, v). (show_nat k, json_u32 v)) m)) = Some m"
    using Cons by (simp_all add: parse_usize_show)
  then show ?case by (cases p) (simp add: map_de_def as_object_def u32_back)
qed

lemmas fields = field_def field_or_def json_get_def json_map_ser

lemma topic_back [read_back]: "topic_de (topic_ser t) = Some t"
  by (simp add: topic_de_def topic_ser_def fields read_back)

lemma dead_letter_back: "opt_de dead_letter_de (json_opt (\<lambda>d. JObject [(''topic'', JString (d_topic d)),
    (''max_delivery_attempts'', json_u32 (d_max_delivery_attempts d))]) x) = Some x"
  by (cases x) (simp_all add: opt_de_def json_opt_def dead_letter_de_def fields read_back)

lemma retry_back: "opt_de retry_de (json_opt (\<lambda>r. JObject
    [(''minimum_backoff_seconds'', json_u32 (r_minimum_backoff_seconds r)),
     (''maximum_backoff_seconds'', json_u32 (r_maximum_backoff_seconds r))]) x) = Some x"
  by (cases x) (simp_all add: opt_de_def json_opt_def retry_de_def fields read_back)

lemma endpoint_back: "opt_de as_str (json_opt JString x) = Some x"
  by (cases x) (simp_all add: opt_de_def json_opt_def read_back)

lemma subscription_back [read_back]: "subscription_de (subscription_ser x) = Some x"
  by (simp add: subscription_de_def subscription_ser_def fields read_back dead_letter_back retry_back endpoint_back)

lemma message_back: "time_kept lib (m_published_at m) \<Longrightarrow> message_de lib (message_ser (fl_rest lib) m) = Some m"
  using time_back [of lib "m_published_at m"]
  by (simp add: message_de_def message_ser_def fields read_back time_ser_def)

lemma topic_state_back: "topic_storable lib t \<Longrightarrow> topic_state_de lib (topic_state_ser lib t) = Some t"
  by (simp add: topic_state_de_def topic_state_ser_def fields read_back message_back topic_storable_def)

lemma subscription_state_back:
  assumes x: "sub_storable lib x"
  shows "subscription_state_de lib (subscription_state_ser lib x) = Some x"
proof -
  have "list_de usize_de (JArray (map json_nat (fl_set lib (ss_acked x)))) = Some (fl_set lib (ss_acked x))"
    using x by (intro list_back usize_back) (simp add: sub_storable_def)
  moreover have "set (fl_set lib (ss_acked x)) = ss_acked x" using x by (simp add: sub_storable_def)
  moreover have "str_map_de (inflight_de lib) (map_ser (inflight_ser lib) (ss_inflight x)) = Some (ss_inflight x)"
    using x by (intro map_back) (simp add: sub_storable_def inflight_de_def inflight_ser_def fields read_back)
  moreover have "list_de (retry_entry_de lib) (JArray (map (retry_entry_ser lib) (ss_retry_queue x))) = Some (ss_retry_queue x)"
    using x by (intro list_back) (simp add: sub_storable_def retry_entry_de_def retry_entry_ser_def fields read_back)
  ultimately show ?thesis
    using x by (simp add: subscription_state_de_def subscription_state_ser_def fields sub_storable_def
        subscription_back usize_back map_back attempts_back)
qed

lemma snapshot_back:
  "time_kept lib (sn_expire_time x) \<Longrightarrow> sn_topic_index x < usize_mod \<Longrightarrow>
     snapshot_de lib (snapshot_ser lib x) = Some x"
  by (simp add: snapshot_de_def snapshot_ser_def fields read_back)

lemma schema_back [read_back]: "schema_de (schema_ser x) = Some x"
  by (simp add: schema_de_def schema_ser_def fields read_back)

lemma policy_back: "- (2 ^ 31) \<le> p_version p \<Longrightarrow> p_version p < 2 ^ 31 \<Longrightarrow> policy_de (policy_ser p) = Some p"
  by (simp add: policy_de_def policy_ser_def binding_de_def binding_ser_def fields read_back)

lemma state_back: "storable lib s \<Longrightarrow> state_de lib (state_ser lib s) = Some s"
  by (simp add: state_de_def state_ser_def storable_def fields read_back topic_state_back subscription_state_back
      snapshot_back policy_back)

section \<open>The files\<close>

text \<open>The state's file and the temporary one beside it, each present or not.\<close>

record disk =
  dk_main :: "bytes option"
  dk_tmp :: "bytes option"

definition new_disk :: disk where
  "new_disk = \<lparr>dk_main = None, dk_tmp = None\<rparr>"

text \<open>
  How writing goes: in full; or writing the temporary file fails, leaving something or
  nothing there; or renaming it fails.
\<close>

datatype write_outcome = Written | Tmp_Failed string "bytes option" | Rename_Failed string

definition state_text :: "persist_lib \<Rightarrow> state \<Rightarrow> bytes" where
  "state_text lib s = fl_print lib (state_ser lib s)"

definition persist_files :: "persist_lib \<Rightarrow> write_outcome \<Rightarrow> state \<Rightarrow> disk \<Rightarrow> string option \<times> disk" where
  "persist_files lib out s d =
     (case out of
        Tmp_Failed m rest \<Rightarrow> (Some (''write state tmp: '' @ m), d\<lparr>dk_tmp := rest\<rparr>)
      | Rename_Failed m \<Rightarrow> (Some (''rename state: '' @ m), d\<lparr>dk_tmp := Some (state_text lib s)\<rparr>)
      | Written \<Rightarrow> (None, \<lparr>dk_main = Some (state_text lib s), dk_tmp = None\<rparr>))"

text \<open>
  Opening the store: \<open>dir\<close> is the error of creating the directory, \<open>raw\<close> what reading the
  file gives when it exists.
\<close>

definition with_persistence :: "persist_lib \<Rightarrow> string option \<Rightarrow> (string + bytes) option \<Rightarrow> state res" where
  "with_persistence lib dir raw =
     (case dir of
        Some m \<Rightarrow> Err (Internal (''create data dir: '' @ m))
      | None \<Rightarrow>
          (case raw of
             None \<Rightarrow> Ok empty_state
           | Some (Inl m) \<Rightarrow> Err (Internal (''read state: '' @ m))
           | Some (Inr text) \<Rightarrow>
               (case Option.bind (case fl_parse lib text of Inr v \<Rightarrow> Some v | Inl _ \<Rightarrow> None) (state_de lib) of
                  Some s \<Rightarrow> Ok s
                | None \<Rightarrow> Err (Internal (''parse state: '' @ fl_error lib text)))))"

section \<open>Durable requests\<close>

text \<open>
  A request of a store with a file. \<open>persist_locked\<close> is an operation's last step, so it was
  reached by a request that succeeded, and by one that failed with its error.
\<close>

definition durable_perform ::
  "persist_lib \<Rightarrow> write_outcome \<Rightarrow> env \<Rightarrow> request \<Rightarrow> state \<times> disk \<Rightarrow> unit res \<times> state \<times> disk" where
  "durable_perform lib out e r x =
     (let failure = fst (persist_files lib out (fst x) (snd x));
          (q, s) = perform (e\<lparr>e_persist := failure\<rparr>) r (fst x);
          reached = (q = Ok () \<or> (case failure of Some m \<Rightarrow> q = Err (Internal m) | None \<Rightarrow> False))
      in (q, s, if reached then snd (persist_files lib out s (snd x)) else snd x))"

type_synonym durable_request = "write_outcome \<times> env \<times> request"

text \<open>A run, with the state that the last successful request left.\<close>

definition durable_step ::
  "persist_lib \<Rightarrow> durable_request \<Rightarrow> state \<times> disk \<times> state \<Rightarrow> state \<times> disk \<times> state" where
  "durable_step lib op x =
     (case (op, x) of
        ((out, e, r), s, d, saved) \<Rightarrow>
          (let (q, s', d') = durable_perform lib out e r (s, d) in (s', d', if q = Ok () then s' else saved)))"

definition durable_run :: "persist_lib \<Rightarrow> durable_request list \<Rightarrow> state \<times> disk \<times> state" where
  "durable_run lib ops = fold (durable_step lib) ops (empty_state, new_disk, empty_state)"

text \<open>What the files hold at the moments of writing at which the process may stop.\<close>

definition write_moments :: "persist_lib \<Rightarrow> bytes \<Rightarrow> state \<Rightarrow> disk \<Rightarrow> disk list" where
  "write_moments lib partial s d =
     [d, d\<lparr>dk_tmp := Some partial\<rparr>, d\<lparr>dk_tmp := Some (state_text lib s)\<rparr>, snd (persist_files lib Written s d)]"

section \<open>What a restart finds\<close>

lemma perform_Ok_persisted: "fst (perform e r s) = Ok () \<Longrightarrow> e_persist e = None"
  by (cases r)
    (auto simp: forget_def create_topic_def update_topic_def delete_topic_def create_subscription_def
      update_subscription_def delete_subscription_def modify_push_config_def modify_ack_deadline_def
      seek_to_time_def seek_to_snapshot_def create_snapshot_def update_snapshot_def delete_snapshot_def
      set_iam_policy_def create_schema_def delete_schema_def publish_cases pull_def acknowledge_def
      Let_def res_bind_def persist_locked_def
      split: if_splits option.splits prod.splits res.splits)

definition disk_holds :: "persist_lib \<Rightarrow> disk \<Rightarrow> state \<Rightarrow> bool" where
  "disk_holds lib d s = ((dk_main d = None \<and> s = empty_state) \<or> dk_main d = Some (state_text lib s))"

lemma durable_step_holds:
  assumes "disk_holds lib d saved" "durable_step lib op (s, d, saved) = (s', d', saved')"
  shows "disk_holds lib d' saved'"
proof -
  obtain out e r where op: "op = (out, e, r)" by (cases op)
  show ?thesis
    using assms perform_Ok_persisted [of "e\<lparr>e_persist := fst (persist_files lib out s d)\<rparr>" r s]
    by (cases out) (auto simp: op durable_step_def durable_perform_def persist_files_def disk_holds_def Let_def
        split: prod.splits if_splits)
qed

lemma durable_run_holds: "durable_run lib ops = (s, d, saved) \<Longrightarrow> disk_holds lib d saved"
proof (induction ops arbitrary: s d saved rule: rev_induct)
  case Nil
  then show ?case by (auto simp: durable_run_def disk_holds_def new_disk_def)
next
  case (snoc op ops)
  obtain s1 d1 w1 where run: "durable_run lib ops = (s1, d1, w1)" by (cases "durable_run lib ops")
  then have "durable_step lib op (s1, d1, w1) = (s, d, saved)" using snoc.prems by (simp add: durable_run_def)
  then show ?case using snoc.IH [OF run] durable_step_holds by blast
qed

lemma holds_loads:
  assumes "disk_holds lib d s" "storable lib s" "fl_parse lib (state_text lib s) = Inr (state_ser lib s)"
  shows "with_persistence lib None (map_option Inr (dk_main d)) = Ok s"
  using assms state_back [of lib s] by (auto simp: disk_holds_def with_persistence_def)

lemma moments_hold: "d' \<in> set (write_moments lib partial s d) \<Longrightarrow>
    dk_main d' = dk_main d \<or> dk_main d' = Some (state_text lib s)"
  by (auto simp: write_moments_def persist_files_def)

end
