(* ===== verification/Component_Claims.thy ===== *)
theory Component_Claims
  imports Store_Samples Store_Persist
begin

text \<open>
  The properties of the single components below the store: the filter language, schemas,
  event attributes, backoff, the resource tables and their paged listings.
\<close>

section \<open>Filters\<close>

text \<open>
  C17: The filter language round trips: the printed form of every expression with proper
  attribute names parses to that expression, and the parsed filter matches exactly the
  attributes the expression is true of.
\<close>

theorem filter_roundtrip:
  assumes "wf_expr e"
  shows "\<exists>f. parse_filter (print_expr e) = Ok f \<and> f_expr f = Some e \<and>
    (\<forall>a. filter_matches f a = eval_expr e a)"
  using parse_filter_print [OF assms] by (simp add: filter_matches_def)

definition sample_expr :: expr where
  "sample_expr = AndE (Eq ''ce-type'' ''a\"b'') (OrE (NotE (HasKey ''x'')) (HasPrefix ''region'' ''eu-''))"

theorem filter_roundtrip_witness:
  "\<exists>f. parse_filter (print_expr sample_expr) = Ok f \<and> f_expr f = Some sample_expr"
proof -
  have "wf_expr sample_expr" by code_simp
  from filter_roundtrip [OF this] show ?thesis by blast
qed

text \<open>
  The parser is total and its results have a normal form: on any input it returns a
  filter or \<open>InvalidArgument\<close>, never another error and never a panic, and a parsed
  expression printed and parsed again gives itself.
\<close>

theorem filter_normal_form:
  "(\<exists>f. parse_filter raw = Ok f \<and>
      (case f_expr f of
         None \<Rightarrow> trim raw = []
       | Some e \<Rightarrow> parse_filter (print_expr e) = Ok \<lparr>f_raw = print_expr e, f_expr = Some e\<rparr>))
   \<or> (\<exists>msg. parse_filter raw = Err (InvalidArgument msg))"
proof (cases "parse_filter raw")
  case (Ok f)
  show ?thesis
  proof (cases "f_expr f")
    case None
    then have "trim raw = []"
      using Ok by (auto simp: parse_filter_def Let_def split: if_splits res.splits prod.splits)
    then show ?thesis using Ok None by simp
  next
    case (Some e)
    then show ?thesis using Ok parse_filter_print [OF parse_filter_wf [OF Ok Some]] by simp
  qed
next
  case (Err err)
  then show ?thesis
    using parse_filter_ok_or_invalid [of raw] by (auto simp: ok_or_invalid_def split: backend_error.splits)
next
  case Panic
  then show ?thesis using parse_filter_ok_or_invalid [of raw] by (simp add: ok_or_invalid_def)
qed

section \<open>Schemas\<close>

text \<open>
  C19: What schema enforcement guarantees to a subscriber: a payload accepted under JSON
  encoding is not empty and parses as JSON, and when the schema's definition is a JSON
  value with a \<open>required\<close> array, the payload is an object with every name of that array.
\<close>

theorem accepted_payload:
  assumes "validate_payload jp schema encoding payload = Ok ()"
    and "to_ascii_uppercase encoding \<in> {'''', ''JSON'', ''ENCODING_UNSPECIFIED''}"
  shows "payload \<noteq> [] \<and> validate_definition jp schema = Ok () \<and>
    (\<exists>body. jp payload = Inr body \<and>
      (\<forall>def names. jp (sc_definition schema) = Inr def \<longrightarrow> json_get def ''required'' = Some (JArray names) \<longrightarrow>
        (\<exists>object. body = JObject object \<and> (\<forall>name. JString name \<in> set names \<longrightarrow> hm_contains object name))))"
proof -
  have "\<exists>body. jp payload = Inr body"
    using assms by (auto simp: validate_payload_def validate_json_def Let_def res_bind_def
        split: if_splits res.splits sum.splits)
  then obtain body where body: "jp payload = Inr body" by blast
  have "\<exists>object. body = JObject object \<and> (\<forall>name. JString name \<in> set names \<longrightarrow> hm_contains object name)"
    if "jp (sc_definition schema) = Inr def" "json_get def ''required'' = Some (JArray names)" for "def" names
    using validate_payload_json [OF assms that] body by auto
  then show ?thesis using body validate_payload_definition [OF assms(1)] by blast
qed

text \<open>A parser that knows two texts, to evaluate on.\<close>

definition sample_json :: json_parser where
  "sample_json s =
     (if s = ''S'' then Inr (JObject [(''required'', JArray [JString ''id''])])
      else if s = ''P'' then Inr (JObject [(''id'', JString ''1'')]) else Inl ''expected value'')"

definition sample_schema :: schema_spec where
  "sample_schema = \<lparr>sc_name = ''projects/p/schemas/x'', sc_schema_type = ''JSON'', sc_definition = ''S''\<rparr>"

theorem accepted_payload_witness:
  "validate_definition sample_json sample_schema = Ok () \<and> \<not> is_ok (validate_payload sample_json sample_schema [] ''S'')"
proof -
  have "validate_payload sample_json sample_schema [] ''P'' = Ok ()" by code_simp
  moreover have "to_ascii_uppercase [] \<in> {'''', ''JSON'', ''ENCODING_UNSPECIFIED''}" by code_simp
  ultimately have "validate_definition sample_json sample_schema = Ok ()" using accepted_payload by blast
  moreover have "\<not> is_ok (validate_payload sample_json sample_schema [] ''S'')" by code_simp
  ultimately show ?thesis by simp
qed

section \<open>Event attributes\<close>

text \<open>
  Enrichment only adds attributes and happens once: every attribute the client set
  keeps its value, only the topic's and the five event attributes can be new, the topic's
  leaf is always there, and enriching again changes nothing.
\<close>

theorem enrichment:
  "(\<forall>k v. hm_get (n_attributes m) k = Some v \<longrightarrow> hm_get (n_attributes (enrich_message jp topic m)) k = Some v) \<and>
   (\<forall>k. k \<notin> set (''relay.topic'' # ce_keys) \<longrightarrow>
      hm_get (n_attributes (enrich_message jp topic m)) k = hm_get (n_attributes m) k) \<and>
   hm_contains (n_attributes (enrich_message jp topic m)) ''relay.topic'' \<and>
   n_data (enrich_message jp topic m) = n_data m \<and>
   enrich_message jp topic (enrich_message jp topic m) = enrich_message jp topic m"
proof -
  have "hm_contains (n_attributes (enrich_message jp topic m)) ''relay.topic''"
    by (cases "hm_get (n_attributes m) ''relay.topic''")
      (auto simp: hm_contains_def enrich_topic dest: enrich_keeps)
  then show ?thesis using enrich_keeps enrich_other enrich_idem enrich_frame(1) by simp
qed

theorem enrichment_witness:
  "hm_contains (n_attributes (enrich_message sample_json sample_topic (sample_message ''P'' []))) ''relay.topic''"
  using enrichment [of "sample_message ''P'' []" sample_json sample_topic] by blast

section \<open>Backoff\<close>

text \<open>
  C21: The retry delay, computed on 32-bit words with saturation, is the mathematical one:
  the minimum doubled once per further attempt, at most ten times, cut at the maximum; it
  lies between the policy's bounds, and never falls as attempts grow.
\<close>

theorem backoff_exact:
  "let mn = unat (fst (backoff_bounds spec)); mx = unat (snd (backoff_bounds spec)) in
   unat (backoff_seconds spec attempt) =
     (if mx = 0 then 0 else min (mn * 2 ^ min (unat attempt - 1) 10) (max mx 1)) \<and>
   mn \<le> unat (backoff_seconds spec attempt) \<and> unat (backoff_seconds spec attempt) \<le> mx \<and>
   (attempt \<le> attempt' \<longrightarrow> backoff_seconds spec attempt \<le> backoff_seconds spec attempt')"
proof -
  have "unat (fst (backoff_bounds spec)) \<le> unat (snd (backoff_bounds spec))"
    using backoff_bounds_le [of spec] by (simp add: word_le_nat_alt)
  then show ?thesis
    using backoff_spec_bounds backoff_spec_mono
    by (simp add: Let_def unat_backoff_seconds word_le_nat_alt backoff_spec_def [symmetric])
qed

theorem backoff_exact_witness:
  "backoff_seconds (sample_spec True True) 2 \<le> backoff_seconds (sample_spec True True) 3"
  using backoff_exact [of "sample_spec True True" 2 3] by (simp add: Let_def)

section \<open>Resource tables\<close>

text \<open>
  The life of a topic name: a created topic is found as it was given, the name is
  refused to a second creation, other names are untouched, and after deletion it is
  unknown again.
\<close>

theorem topic_lifecycle:
  assumes "fst (create_topic e x s) = Ok y" "t_name z = t_name x"
  shows "get_topic (snd (create_topic e x s)) (t_name x) = Ok x \<and>
    \<not> is_ok (fst (create_topic e' z (snd (create_topic e x s)))) \<and>
    snd (create_topic e' z (snd (create_topic e x s))) = snd (create_topic e x s) \<and>
    get_topic (snd (delete_topic e' (t_name x) (snd (create_topic e x s)))) (t_name x) = Err (NotFound (t_name x)) \<and>
    (k \<noteq> t_name x \<longrightarrow> get_topic (snd (delete_topic e' (t_name x) (snd (create_topic e x s)))) k = get_topic s k)"
  using topic_table.get_after_create [OF assms(1)] topic_table.create_twice [OF assms]
    topic_table.get_after_del topic_table.get_other_after_del topic_table.get_other_after_create [OF assms(1)]
  by simp

definition sample_topic_spec :: topic_spec where
  "sample_topic_spec = topic_default\<lparr>t_name := sample_topic\<rparr>"

lemma sample_create_topic: "fst (create_topic (sample_env ''m'' 0) sample_topic_spec empty_state) = Ok sample_topic_spec"
  by code_simp

theorem topic_lifecycle_witness:
  "get_topic (snd (create_topic (sample_env ''m'' 0) sample_topic_spec empty_state)) sample_topic = Ok sample_topic_spec"
  using topic_lifecycle [OF sample_create_topic refl] by (simp add: sample_topic_spec_def)

text \<open>
  A created subscription: its name is proper and new, its filter is empty or parses,
  its topic exists; its acknowledgement deadline is brought between 10 and 600 seconds and
  nothing else of the specification changes; it starts after the topic's last message
  with nothing leased, queued or acknowledged.
\<close>

theorem subscription_created:
  assumes "create_subscription e x s = (Ok spec, s')"
  shows "spec = x\<lparr>s_ack_deadline_seconds := s_ack_deadline_seconds spec\<rparr> \<and>
    10 \<le> s_ack_deadline_seconds spec \<and> s_ack_deadline_seconds spec \<le> 600 \<and>
    (10 \<le> s_ack_deadline_seconds x \<and> s_ack_deadline_seconds x \<le> 600 \<longrightarrow> spec = x) \<and>
    starts_with (s_name x) ''projects/'' \<and> hm_get (st_subscriptions s) (s_name x) = None \<and>
    (trim (s_filter x) = [] \<or> is_ok (parse_filter (s_filter x))) \<and>
    (\<exists>t. hm_get (st_topics s) (s_topic x) = Some t \<and>
      s' = s\<lparr>st_subscriptions := hm_insert (s_name x)
        (new_subscription_state spec (length (ts_messages t))) (st_subscriptions s)\<rparr>)"
proof -
  have spec: "spec = normalized x" and "hm_get (st_subscriptions s) (s_name x) = None"
    and "starts_with (s_name x) ''projects/''" and "trim (s_filter x) = [] \<or> is_ok (parse_filter (s_filter x))"
    and "\<exists>t. hm_get (st_topics s) (s_topic x) = Some t \<and>
      s' = s\<lparr>st_subscriptions := hm_insert (s_name x)
        (new_subscription_state (normalized x) (length (ts_messages t))) (st_subscriptions s)\<rparr>"
    using assms by (auto simp: create_subscription_def Let_def hm_contains_def res_bind_def
        split: if_splits option.splits res.splits)
  moreover have "10 \<le> s_ack_deadline_seconds (normalized x) \<and> s_ack_deadline_seconds (normalized x) \<le> 600"
    unfolding normalized_def normalize_ack_deadline_def
    using clamp_bounds [of "10 :: u32" 600] by simp
  moreover have "normalized x = x" if "10 \<le> s_ack_deadline_seconds x" "s_ack_deadline_seconds x \<le> 600"
    using that by (simp add: normalized_def normalize_ack_deadline_def clamp_id max_def)
  moreover have "normalized x = x\<lparr>s_ack_deadline_seconds := s_ack_deadline_seconds (normalized x)\<rparr>"
    by (simp add: normalized_def)
  ultimately show ?thesis by simp
qed

theorem subscription_created_witness:
  "s_ack_deadline_seconds (normalized (sample_spec True False)) \<le> 600"
proof -
  let ?r = "create_subscription (sample_env ''m'' 0) (sample_spec True False) (sample_step True False 1)"
  have "fst ?r = Ok (normalized (sample_spec True False))" by code_simp
  then have "?r = (Ok (normalized (sample_spec True False)), snd ?r)" by (simp add: prod_eq_iff)
  from subscription_created [OF this] show ?thesis by blast
qed

text \<open>
  An update of a subscription, with any field mask, leaves its name, topic, filter and
  delivery state alone and its deadline between the bounds; it is refused when it names the
  filter with another text, and then changes nothing.
\<close>

theorem subscription_updated:
  assumes "hm_get (st_subscriptions s) (s_name x) = Some sub" "e_persist e = None"
  shows "(\<exists>spec. update_subscription e x upd s = (Ok spec, s\<lparr>st_subscriptions :=
        hm_insert (s_name x) (sub\<lparr>ss_spec := spec\<rparr>) (st_subscriptions s)\<rparr>) \<and>
      s_name spec = s_name (ss_spec sub) \<and> s_topic spec = s_topic (ss_spec sub) \<and>
      s_filter spec = s_filter (ss_spec sub) \<and>
      10 \<le> s_ack_deadline_seconds spec \<and> s_ack_deadline_seconds spec \<le> 600)
    \<or> ''filter'' \<in> set upd \<and> s_filter x \<noteq> s_filter (ss_spec sub) \<and>
      (\<exists>m. update_subscription e x upd s = (Err (FailedPrecondition m), s))"
proof -
  have "10 \<le> s_ack_deadline_seconds (normalized y) \<and> s_ack_deadline_seconds (normalized y) \<le> 600" for y
    unfolding normalized_def normalize_ack_deadline_def
    using clamp_bounds [of "10 :: u32" 600] by simp
  then show ?thesis using assms
    by (auto simp: update_subscription_def Let_def persist_locked_def)
qed

theorem subscription_updated_witness:
  "is_ok (fst (update_subscription (sample_env ''m'' 0) (sample_spec False False) [''labels''] (sample_state True False)))"
proof -
  have "hm_get (st_subscriptions (sample_state True False)) (s_name (sample_spec False False))
      = Some (new_subscription_state (sample_spec True False) 0)"
    by (simp add: sample_state_def sample_spec_def)
  from subscription_updated [OF this, of "sample_env ''m'' 0" "[''labels'']"] show ?thesis
    by (auto simp: sample_env_def)
qed

section \<open>Paged listings\<close>

text \<open>A client that follows the page tokens of an operation until there is none.\<close>

fun walk_op :: "nat \<Rightarrow> (string \<Rightarrow> 'a page res) \<Rightarrow> string \<Rightarrow> 'a list option" where
  "walk_op 0 f tok = None"
| "walk_op (Suc fuel) f tok =
     (case f tok of
        Ok p \<Rightarrow> if pg_next_page_token p = [] then Some (pg_items p)
                else map_option ((@) (pg_items p)) (walk_op fuel f (pg_next_page_token p))
      | _ \<Rightarrow> None)"

text \<open>What the four listings have in common, and the client's view of them.\<close>

locale paged_listing =
  fixes vals :: "state \<Rightarrow> 'a list"
    and name_of :: "'a \<Rightarrow> string"
    and list_op :: "state \<Rightarrow> string \<Rightarrow> int \<Rightarrow> string \<Rightarrow> 'a page res"
  assumes list_op: "list_op s project n tok = Ok (paginate (listing name_of project (vals s)) n tok)"
begin

lemma walk_pages: "walk_op fuel (list_op s project n) tok = walk_pages fuel (listing name_of project (vals s)) n tok"
  by (induction fuel arbitrary: tok) (simp_all add: list_op Let_def)

lemma listing_length: "length (listing name_of project (vals s)) \<le> length (vals s)"
  by (simp add: listing_def)

lemma walk:
  assumes "length (vals s) + 1000 < usize_mod" "length (vals s) < fuel"
  shows "walk_op fuel (list_op s project n) [] = Some (listing name_of project (vals s))"
  using walk_pages_from [of 0 "listing name_of project (vals s)" fuel n] assms listing_length [of project s]
  by (simp add: walk_pages)

lemma page_bound:
  "list_op s project n tok = Ok p \<Longrightarrow> length (pg_items p) \<le> 1000"
  using paginate_length [of "listing name_of project (vals s)" n tok] page_size_of_bounds(2) [of n]
  by (auto simp: list_op)

end

interpretation topic_pages: paged_listing "\<lambda>s. map ts_spec (hm_values (st_topics s))" t_name list_topics
  by unfold_locales (simp add: list_topics_def)

interpretation subscription_pages:
  paged_listing "\<lambda>s. map ss_spec (hm_values (st_subscriptions s))" s_name list_subscriptions
  by unfold_locales (simp add: list_subscriptions_def)

interpretation snapshot_pages: paged_listing "\<lambda>s. hm_values (st_snapshots s)" sn_name list_snapshots
  by unfold_locales (simp add: list_snapshots_def)

interpretation schema_pages: paged_listing "\<lambda>s. hm_values (st_schemas s)" sc_name list_schemas
  by unfold_locales (simp add: list_schemas_def)

text \<open>
  C25: Listing is complete: a client that follows the page tokens of \<open>list_topics\<close>, with any
  page size, gets in name order exactly the topics of the project, each once, as
  \<open>get_topic\<close> returns them.
\<close>

theorem topic_listing_complete:
  assumes "store_ok s" "length (st_topics s) + 1000 < usize_mod" "length (st_topics s) < fuel"
  shows "\<exists>specs. walk_op fuel (list_topics s project n) [] = Some specs \<and>
    sorted (map t_name specs) \<and> distinct (map t_name specs) \<and>
    (\<forall>spec. spec \<in> set specs \<longleftrightarrow>
      get_topic s (t_name spec) = Ok spec \<and> belongs_to_project (t_name spec) project)"
proof -
  let ?vals = "map ts_spec (hm_values (st_topics s))"
  let ?specs = "listing t_name project ?vals"
  have w: "walk_op fuel (list_topics s project n) [] = Some ?specs"
    using topic_pages.walk [of s fuel project n] assms(2,3) by (simp add: hm_values_def)
  have ok: "hm_ok (st_topics s)" by (rule store_okD(1) [OF assms(1)])
  have key: "t_name (ts_spec t) = k" if "(k, t) \<in> set (st_topics s)" for k t
    using store_okD(4) [OF assms(1)] that hm_get_iff [OF ok] by (auto simp: topic_fits_def)
  have names: "map t_name ?vals = map fst (st_topics s)"
    using key by (auto simp: hm_values_def)
  have v: "distinct (map t_name ?vals)" unfolding names using ok by (simp add: hm_ok_def)
  have d: "distinct (map t_name ?specs)"
  proof -
    have "mset (map t_name ?specs) = mset (map t_name (filter (\<lambda>v. belongs_to_project (t_name v) project) ?vals))"
      by (simp add: listing_def)
    then show ?thesis using distinct_map_filter [OF v] by (metis mset_eq_imp_distinct_iff)
  qed
  have "spec \<in> set ?vals \<longleftrightarrow> get_topic s (t_name spec) = Ok spec" for spec
  proof
    assume "spec \<in> set ?vals"
    then obtain k t where kt: "(k, t) \<in> set (st_topics s)" "spec = ts_spec t" by (auto simp: hm_values_def)
    then have "hm_get (st_topics s) (t_name spec) = Some t" using key hm_get_iff [OF ok] by auto
    then show "get_topic s (t_name spec) = Ok spec" using kt(2) by (simp add: get_topic_def)
  next
    assume "get_topic s (t_name spec) = Ok spec"
    then obtain t where "hm_get (st_topics s) (t_name spec) = Some t" "spec = ts_spec t"
      by (auto simp: get_topic_def split: option.splits)
    then show "spec \<in> set ?vals" using hm_get_SomeD by (force simp: hm_values_def)
  qed
  then show ?thesis
    using w d listing_sorted [of t_name project ?vals] by (intro exI [of _ ?specs]) (simp add: listing_set)
qed

theorem topic_listing_complete_witness:
  "\<exists>specs. walk_op 2 (list_topics (sample_state True False) ''projects/p'' 1) [] = Some specs \<and> sorted (map t_name specs)"
proof -
  have "length (st_topics (sample_state True False)) = 1" by (simp add: sample_state_def)
  then show ?thesis
    using topic_listing_complete [OF sample_ok, of True False 2 "''projects/p''" 1] by (auto simp: usize_mod_def)
qed

section \<open>Durability\<close>

text \<open>
  C23: Opening the store's file again finds exactly the state that the last successful
  request left, whatever failed before or after it: a successful request has been written, a
  failed one leaves the file as it is, and a stop at any moment of writing leaves either the
  old state or the new one to be found.
\<close>

theorem restart_restores:
  assumes "durable_run lib ops = (s, d, saved)"
    and "storable lib saved" "fl_parse lib (state_text lib saved) = Inr (state_ser lib saved)"
  shows "with_persistence lib None (map_option Inr (dk_main d)) = Ok saved \<and>
    (\<forall>out e r. case durable_run lib (ops @ [(out, e, r)]) of (s', d', saved') \<Rightarrow>
       if fst (durable_perform lib out e r (s, d)) = Ok () then
         saved' = s' \<and> dk_main d' = Some (state_text lib s')
       else saved' = saved \<and> dk_main d' = dk_main d) \<and>
    (\<forall>partial s' d'. d' \<in> set (write_moments lib partial s' d) \<longrightarrow>
       dk_main d' = Some (state_text lib s') \<or>
       with_persistence lib None (map_option Inr (dk_main d')) = Ok saved)"
proof -
  note holds = durable_run_holds [OF assms(1)]
  have main: "with_persistence lib None (map_option Inr (dk_main d)) = Ok saved"
    by (rule holds_loads [OF holds assms(2,3)])
  have step: "case durable_run lib (ops @ [(out, e, r)]) of (s', d', saved') \<Rightarrow>
       if fst (durable_perform lib out e r (s, d)) = Ok () then
         saved' = s' \<and> dk_main d' = Some (state_text lib s')
       else saved' = saved \<and> dk_main d' = dk_main d" for out e r
  proof -
    have run: "durable_run lib (ops @ [(out, e, r)]) = durable_step lib (out, e, r) (s, d, saved)"
      using assms(1) by (simp add: durable_run_def)
    show ?thesis
      unfolding run
      using perform_Ok_persisted [of "e\<lparr>e_persist := fst (persist_files lib out s d)\<rparr>" r s]
      by (cases out) (auto simp: durable_step_def durable_perform_def persist_files_def Let_def split: prod.split)
  qed
  have moment: "dk_main d' = Some (state_text lib s') \<or>
      with_persistence lib None (map_option Inr (dk_main d')) = Ok saved"
    if "d' \<in> set (write_moments lib partial s' d)" for partial s' d'
    using moments_hold [OF that] main by auto
  show ?thesis using main step moment by blast
qed

definition sample_files :: persist_lib where
  "sample_files = \<lparr>fl_rest = \<lparr>rl_encode = (\<lambda>x. x), rl_decode = Some, rl_rfc3339 = (\<lambda>_. []),
       rl_parse_time = (\<lambda>_. None), rl_serde_time = (\<lambda>_. []), rl_serde_parse = (\<lambda>_. Some 0)\<rparr>,
     fl_print = (\<lambda>_. ''state''), fl_parse = (\<lambda>_. Inl []), fl_error = (\<lambda>_. []), fl_set = (\<lambda>_. [])\<rparr>"

text \<open>A parser that reads one text, the sample state's.\<close>

definition sample_reader :: persist_lib where
  "sample_reader = sample_files\<lparr>fl_parse := (\<lambda>_. Inr (state_ser sample_files (sample_state True False)))\<rparr>"

definition sample_ops :: "durable_request list" where
  "sample_ops = map (\<lambda>r. (Written, sample_env ''m'' 0, r)) (sample_requests True False)
     @ [(Rename_Failed ''disk full'', sample_env ''d'' 3, DeleteTopic sample_topic)]"

text \<open>A deletion that cannot be written fails and is gone after a restart.\<close>

theorem restart_restores_witness:
  "st_topics (fst (durable_run sample_reader sample_ops)) = [] \<and>
   with_persistence sample_reader None (map_option Inr (dk_main (fst (snd (durable_run sample_reader sample_ops)))))
     = Ok (sample_state True False)"
proof -
  have saved: "snd (snd (durable_run sample_reader sample_ops)) = sample_state True False"
    and gone: "st_topics (fst (durable_run sample_reader sample_ops)) = []"
    unfolding sample_ops_def by code_simp+
  obtain s d w where run: "durable_run sample_reader sample_ops = (s, d, w)"
    by (cases "durable_run sample_reader sample_ops")
  have w: "w = sample_state True False" using saved run by simp
  have "storable sample_reader w"
    by (simp add: w storable_def topic_storable_def sub_storable_def time_kept_def sample_reader_def
        sample_files_def sample_state_def sample_topic_state_def sample_stored_def new_subscription_state_def
        usize_mod_def)
  moreover have "fl_parse sample_reader (state_text sample_reader w) = Inr (state_ser sample_reader w)"
    unfolding w by code_simp
  ultimately show ?thesis using restart_restores [OF run] gone run w by simp
qed

end
