(* ===== verification/Relay_Events.thy ===== *)
theory Relay_Events
  imports Publish_Correct Store_Admin
begin

text \<open>
  \<open>src/relay_events_backend.rs\<close>: the backend that keeps the actions topic in an inner
  memory store and forwards every other publish to Relay as one HTTP request per message.
  Every other operation is the memory store's own, unchanged. SHA-256, base64 and the HTTP
  client are parameters; the requests a call sends are part of its result.
\<close>

section \<open>Requests\<close>

record relay_config =
  rc_base_url :: string
  rc_token :: "string option"
  rc_actions_topic :: string

record relay_event =
  ev_type :: string
  ev_source :: string
  ev_severity :: string
  ev_idempotency_key :: string
  ev_data :: json

record http_request =
  rq_url :: string
  rq_bearer :: "string option"
  rq_event :: relay_event

text \<open>A response has its status, the text the status is shown as, and its body.\<close>

datatype http_outcome = Response nat string string | SendFailed string

definition success_status :: "nat \<Rightarrow> bool" where
  "success_status status = (200 \<le> status \<and> status < 300)"

text \<open>The event's JSON, without an empty source or severity.\<close>

definition event_json :: "relay_event \<Rightarrow> json" where
  "event_json ev = JObject
     ([(''type'', JString (ev_type ev))]
      @ (if ev_source ev = [] then [] else [(''source'', JString (ev_source ev))])
      @ (if ev_severity ev = [] then [] else [(''severity'', JString (ev_severity ev))])
      @ [(''idempotency_key'', JString (ev_idempotency_key ev)), (''data'', ev_data ev)])"

section \<open>Preparing a batch\<close>

definition short_name :: "string \<Rightarrow> string" where
  "short_name full = rsplit_last (CHR ''/'') full"

fun prepare_all ::
  "json_parser \<Rightarrow> string \<Rightarrow> (string \<times> schema_spec) option \<Rightarrow> new_message list \<Rightarrow> new_message list res" where
  "prepare_all jp topic schema [] = Ok []"
| "prepare_all jp topic schema (m # ms) =
     (let m' = enrich_message jp topic m in
      res_bind (case schema of
                  None \<Rightarrow> Ok ()
                | Some (encoding, spec) \<Rightarrow> validate_payload jp spec encoding (n_data m'))
        (\<lambda>_. res_bind (prepare_all jp topic schema ms) (\<lambda>ms'. Ok (m' # ms'))))"

definition prepare_schema :: "string \<Rightarrow> state \<Rightarrow> (string \<times> schema_spec) option res" where
  "prepare_schema topic s =
     (case get_topic s topic of
        Ok spec \<Rightarrow>
          if t_schema_name spec = [] then Ok None
          else res_bind (get_schema s (t_schema_name spec)) (\<lambda>sc. Ok (Some (t_schema_encoding spec, sc)))
      | _ \<Rightarrow> Ok None)"

definition prepare_publish :: "json_parser \<Rightarrow> string \<Rightarrow> new_message list \<Rightarrow> state \<Rightarrow> new_message list res" where
  "prepare_publish jp topic ms s =
     res_bind (prepare_schema topic s) (\<lambda>schema. prepare_all jp topic schema ms)"

section \<open>Idempotency keys\<close>

definition hex_digit :: "nat \<Rightarrow> char" where
  "hex_digit d = char_of (if d < 10 then 48 + d else 87 + d)"

definition hex_byte :: "char \<Rightarrow> string" where
  "hex_byte c = [hex_digit (of_char c div 16), hex_digit (of_char c mod 16)]"

definition attr_or_empty :: "new_message \<Rightarrow> string \<Rightarrow> string" where
  "attr_or_empty m k = (case hm_get (n_attributes m) k of Some v \<Rightarrow> v | None \<Rightarrow> [])"

definition hash_input :: "string \<Rightarrow> new_message \<Rightarrow> bytes" where
  "hash_input topic m =
     topic @ ''|'' @ attr_or_empty m ''source'' @ ''|'' @ attr_or_empty m ''severity'' @ ''|'' @ n_data m"

definition idempotency_key :: "(bytes \<Rightarrow> bytes) \<Rightarrow> string \<Rightarrow> new_message \<Rightarrow> string" where
  "idempotency_key sha topic m =
     (if n_message_id m \<noteq> [] then n_message_id m
      else if attr_or_empty m ''idempotency_key'' \<noteq> [] then attr_or_empty m ''idempotency_key''
      else ''auto/'' @ concat (map hex_byte (take 16 (sha (hash_input topic m)))))"

definition data_or_raw :: "json_parser \<Rightarrow> (bytes \<Rightarrow> string) \<Rightarrow> bytes \<Rightarrow> json" where
  "data_or_raw jp b64 data =
     (if data = [] then JObject []
      else (case jp data of Inr v \<Rightarrow> v | Inl _ \<Rightarrow> JObject [(''raw'', JString (b64 data))]))"

section \<open>Forwarding\<close>

definition event_of ::
  "json_parser \<Rightarrow> (bytes \<Rightarrow> bytes) \<Rightarrow> (bytes \<Rightarrow> string) \<Rightarrow> string \<Rightarrow> new_message \<Rightarrow> relay_event" where
  "event_of jp sha b64 topic_short m =
     \<lparr>ev_type = topic_short, ev_source = attr_or_empty m ''source'',
      ev_severity = attr_or_empty m ''severity'',
      ev_idempotency_key = idempotency_key sha topic_short m,
      ev_data = data_or_raw jp b64 (n_data m)\<rparr>"

definition request_of :: "relay_config \<Rightarrow> relay_event \<Rightarrow> http_request" where
  "request_of cfg ev =
     \<lparr>rq_url = rc_base_url cfg
        @ (if rc_token cfg = Some ''demo-token'' then ''/v1/events?token=demo-token'' else ''/v1/events''),
      rq_bearer = (case rc_token cfg of
                     None \<Rightarrow> None
                   | Some token \<Rightarrow> if token \<noteq> ''demo-token'' then Some token else None),
      rq_event = ev\<rparr>"

definition accept_result :: "http_outcome \<Rightarrow> unit res" where
  "accept_result out =
     (case out of
        SendFailed e \<Rightarrow> Err (Unavailable e)
      | Response status status_text text \<Rightarrow>
          if success_status status then Ok ()
          else Err (Internal (''relay '' @ status_text @ '': '' @ text)))"

text \<open>
  The loop of publish; \<open>k\<close> numbers the requests of the call, \<open>d\<close> the identifiers drawn.
\<close>

fun forward_all ::
  "(new_message \<Rightarrow> http_request) \<Rightarrow> (nat \<Rightarrow> http_request \<Rightarrow> http_outcome) \<Rightarrow> (nat \<Rightarrow> string) \<Rightarrow>
   nat \<Rightarrow> nat \<Rightarrow> new_message list \<Rightarrow> string list res \<times> http_request list" where
  "forward_all req post uuid k d [] = (Ok [], [])"
| "forward_all req post uuid k d (m # ms) =
     (case accept_result (post k (req m)) of
        Ok _ \<Rightarrow>
          (let (mid, d') = (if n_message_id m = [] then (uuid d, Suc d) else (n_message_id m, d));
               (r, reqs) = forward_all req post uuid (Suc k) d' ms
           in (res_bind r (\<lambda>ids. Ok (mid # ids)), req m # reqs))
      | Err e \<Rightarrow> (Err e, [req m])
      | Panic \<Rightarrow> (Panic, [req m]))"

definition re_publish ::
  "relay_config \<Rightarrow> (bytes \<Rightarrow> bytes) \<Rightarrow> (bytes \<Rightarrow> string) \<Rightarrow> (nat \<Rightarrow> http_request \<Rightarrow> http_outcome) \<Rightarrow>
   env \<Rightarrow> string \<Rightarrow> new_message list \<Rightarrow> state \<Rightarrow> string list res \<times> state \<times> http_request list" where
  "re_publish cfg sha b64 post e topic messages s =
     (case prepare_publish (e_json e) topic messages s of
        Err err \<Rightarrow> (Err err, s, [])
      | Panic \<Rightarrow> (Panic, s, [])
      | Ok ms \<Rightarrow>
          if topic = rc_actions_topic cfg then
            (let (r, s') = publish e topic ms s in (r, s', []))
          else
            (let (r, reqs) = forward_all
                   (\<lambda>m. request_of cfg (event_of (e_json e) sha b64 (short_name topic) m)) post (e_uuid e) 0 0 ms
             in (r, s, reqs)))"

section \<open>Facts\<close>

lemma prepare_all_Ok:
  "prepare_all jp topic schema ms = Ok ms' \<Longrightarrow> ms' = map (enrich_message jp topic) ms"
  by (induction ms arbitrary: ms') (auto simp: Let_def res_bind_def split: res.splits)

lemma prepare_all_validate:
  "prepare_all jp topic (Some (encoding, spec)) ms =
     res_bind (validate_all jp spec encoding ms) (\<lambda>_. Ok (map (enrich_message jp topic) ms))"
proof (induction ms)
  case Nil
  then show ?case by simp
next
  case (Cons m ms)
  then show ?case by (cases "validate_payload jp spec encoding (n_data m)")
      (auto simp: Let_def res_bind_def split: res.splits)
qed

lemma prepare_all_none: "prepare_all jp topic None ms = Ok (map (enrich_message jp topic) ms)"
  by (induction ms) (simp_all add: Let_def)

lemma accept_no_panic [simp]: "accept_result out \<noteq> Panic"
  by (simp add: accept_result_def split: http_outcome.splits)

lemma forward_all_spec:
  assumes "forward_all req post uuid k d ms = (r, reqs)"
  shows "reqs = take (length reqs) (map req ms) \<and>
    (r = Panic \<longrightarrow> False) \<and>
    (\<forall>ids. r = Ok ids \<longrightarrow> length ids = length ms \<and> length reqs = length ms \<and>
       (\<forall>i < length ms. accept_result (post (k + i) (req (ms ! i))) = Ok ()) \<and>
       (\<forall>i < length ms. n_message_id (ms ! i) \<noteq> [] \<longrightarrow> ids ! i = n_message_id (ms ! i))) \<and>
    (\<forall>e. r = Err e \<longrightarrow> (\<exists>j < length ms. length reqs = Suc j \<and>
       accept_result (post (k + j) (req (ms ! j))) = Err e \<and>
       (\<forall>i < j. accept_result (post (k + i) (req (ms ! i))) = Ok ())))"
  using assms
proof (induction ms arbitrary: k d r reqs)
  case Nil
  then show ?case by auto
next
  case (Cons m ms)
  show ?case
  proof (cases "accept_result (post k (req m))")
    case (Ok u)
    obtain mid d' where md: "(if n_message_id m = [] then (uuid d, Suc d) else (n_message_id m, d)) = (mid, d')"
      by (metis surj_pair)
    obtain r1 reqs1 where f: "forward_all req post uuid (Suc k) d' ms = (r1, reqs1)"
      by (metis surj_pair)
    have r: "r = res_bind r1 (\<lambda>ids. Ok (mid # ids))" "reqs = req m # reqs1"
      using Cons.prems Ok md f by simp_all
    have acc: "accept_result (post k (req m)) = Ok ()" using Ok by simp
    note IH = Cons.IH [OF f]
    have id0: "n_message_id m \<noteq> [] \<Longrightarrow> mid = n_message_id m" using md by (auto split: if_splits)
    show ?thesis
    proof (cases r1)
      case (Ok ids1)
      then have "\<forall>i < length (m # ms). accept_result (post (k + i) (req ((m # ms) ! i))) = Ok ()"
        using IH acc by (auto simp: less_Suc_eq_0_disj)
      moreover have "\<forall>i < length (m # ms). n_message_id ((m # ms) ! i) \<noteq> [] \<longrightarrow>
          (mid # ids1) ! i = n_message_id ((m # ms) ! i)"
        using IH Ok id0 by (auto simp: less_Suc_eq_0_disj)
      ultimately show ?thesis using IH r Ok by auto
    next
      case (Err e)
      then obtain j where "j < length ms" "length reqs1 = Suc j"
        "accept_result (post (Suc k + j) (req (ms ! j))) = Err e"
        "\<forall>i < j. accept_result (post (Suc k + i) (req (ms ! i))) = Ok ()" using IH by blast
      then have "Suc j < length (m # ms) \<and> length reqs = Suc (Suc j) \<and>
          accept_result (post (k + Suc j) (req ((m # ms) ! Suc j))) = Err e \<and>
          (\<forall>i < Suc j. accept_result (post (k + i) (req ((m # ms) ! i))) = Ok ())"
        using r(2) acc by (auto simp: less_Suc_eq_0_disj)
      then show ?thesis using IH r Err by auto
    next
      case Panic
      then show ?thesis using IH by simp
    qed
  next
    case (Err e)
    then show ?thesis using Cons.prems by (auto intro!: exI [of _ 0])
  next
    case Panic
    then show ?thesis by simp
  qed
qed

text \<open>The text that is hashed determines its parts when the first three have no bar.\<close>

lemma bar_split: "CHR ''|'' \<notin> set a \<Longrightarrow> CHR ''|'' \<notin> set b \<Longrightarrow>
    a @ CHR ''|'' # x = b @ CHR ''|'' # y \<Longrightarrow> a = b \<and> x = y"
  by (metis split_once_first option.inject prod.inject)

lemma hash_input_inj:
  assumes "hash_input t m = hash_input t' m'"
    and "CHR ''|'' \<notin> set t" "CHR ''|'' \<notin> set t'"
    and "CHR ''|'' \<notin> set (attr_or_empty m ''source'')" "CHR ''|'' \<notin> set (attr_or_empty m' ''source'')"
    and "CHR ''|'' \<notin> set (attr_or_empty m ''severity'')" "CHR ''|'' \<notin> set (attr_or_empty m' ''severity'')"
  shows "t = t' \<and> attr_or_empty m ''source'' = attr_or_empty m' ''source'' \<and>
    attr_or_empty m ''severity'' = attr_or_empty m' ''severity'' \<and> n_data m = n_data m'"
proof -
  have a: "t = t' \<and> attr_or_empty m ''source'' @ CHR ''|'' # attr_or_empty m ''severity'' @ CHR ''|'' # n_data m
      = attr_or_empty m' ''source'' @ CHR ''|'' # attr_or_empty m' ''severity'' @ CHR ''|'' # n_data m'"
    by (rule bar_split [OF assms(2,3)]) (use assms(1) in \<open>simp add: hash_input_def\<close>)
  then have b: "attr_or_empty m ''source'' = attr_or_empty m' ''source'' \<and>
      attr_or_empty m ''severity'' @ CHR ''|'' # n_data m = attr_or_empty m' ''severity'' @ CHR ''|'' # n_data m'"
    using bar_split [OF assms(4,5)] by blast
  then show ?thesis using a bar_split [OF assms(6,7)] by blast
qed

end
