(* ===== verification/Http_Relay.thy ===== *)
theory Http_Relay
  imports Relay_Events Rest_Admin
begin

text \<open>
  \<open>src/http_backend.rs\<close>: the backend that speaks HTTP to an older Relay for topics,
  subscriptions and messages, and keeps snapshots, policies and schemas in a memory store of
  its own. The far end is a parameter, a function of
  the request and of a state of its own; so is the derived deserialisation of its answers.
\<close>

section \<open>Requests\<close>

record http_relay =
  hb_base_url :: string
  hb_token :: "string option"

text \<open>A request: its method, URL, query, bearer token and JSON body.\<close>

record relay_request =
  hq_method :: http_method
  hq_url :: string
  hq_query :: "(string \<times> string) list"
  hq_bearer :: "string option"
  hq_body :: "json option"

text \<open>The readers of the answers' bodies, and the text of a point in time.\<close>

record answer_lib =
  hd_topic :: "string \<Rightarrow> string + topic_spec"
  hd_topics :: "string \<Rightarrow> string + topic_spec list"
  hd_subscription :: "string \<Rightarrow> string + subscription_spec"
  hd_subscriptions :: "string \<Rightarrow> string + subscription_spec list"
  hd_published :: "string \<Rightarrow> string + string list"
  hd_pulled :: "string \<Rightarrow> string + delivery list"
  hd_rfc3339 :: "time \<Rightarrow> string"

type_synonym 'w far_end = "relay_request \<Rightarrow> 'w \<Rightarrow> http_outcome \<times> 'w"

record 'w http_ctx =
  hx_relay :: http_relay
  hx_lib :: answer_lib
  hx_send :: "'w far_end"

definition http_relay_new :: "string \<Rightarrow> string option \<Rightarrow> http_relay" where
  "http_relay_new base_url token = \<lparr>hb_base_url = trim_end_matches ''/'' base_url, hb_token = token\<rparr>"

definition relay_request_of ::
  "http_relay \<Rightarrow> http_method \<Rightarrow> string \<Rightarrow> (string \<times> string) list \<Rightarrow> json option \<Rightarrow> relay_request" where
  "relay_request_of h verb path query body =
     \<lparr>hq_method = verb, hq_url = hb_base_url h @ path, hq_query = query, hq_bearer = hb_token h, hq_body = body\<rparr>"

text \<open>The error of an answer whose status is not a success.\<close>

definition status_error :: "nat \<Rightarrow> string \<Rightarrow> string \<Rightarrow> backend_error" where
  "status_error code shown text =
     (if code = 404 then NotFound text
      else if code = 409 then AlreadyExists text
      else if code = 400 then InvalidArgument text
      else if code = 412 then FailedPrecondition text
      else if code = 503 \<or> code = 502 \<or> code = 504 then Unavailable text
      else Internal (''Relay returned '' @ shown @ '': '' @ text))"

definition decode_answer :: "(string \<Rightarrow> string + 'a) \<Rightarrow> http_outcome \<Rightarrow> 'a res" where
  "decode_answer read out =
     (case out of
        SendFailed err \<Rightarrow> Err (Unavailable err)
      | Response code shown text \<Rightarrow>
          if success_status code then (case read text of Inr x \<Rightarrow> Ok x | Inl err \<Rightarrow> Err (Internal err))
          else Err (status_error code shown text))"

definition empty_answer :: "http_outcome \<Rightarrow> unit res" where
  "empty_answer out =
     (case out of
        SendFailed err \<Rightarrow> Err (Unavailable err)
      | Response code shown text \<Rightarrow>
          if success_status code then Ok () else Err (status_error code shown text))"

definition ask ::
  "'w http_ctx \<Rightarrow> http_method \<Rightarrow> string \<Rightarrow> (string \<times> string) list \<Rightarrow> json option \<Rightarrow>
   (http_outcome \<Rightarrow> 'a res) \<Rightarrow> 'w \<Rightarrow> 'a res \<times> 'w" where
  "ask c verb path query body read w =
     (let (out, w') = hx_send c (relay_request_of (hx_relay c) verb path query body) w in (read out, w'))"

section \<open>Operations of the far end\<close>

definition hb_create_topic :: "'w http_ctx \<Rightarrow> topic_spec \<Rightarrow> 'w \<Rightarrow> topic_spec res \<times> 'w" where
  "hb_create_topic c topic =
     ask c POST ''/v1/topics'' [] (Some (topic_ser topic)) (decode_answer (hd_topic (hx_lib c)))"

definition hb_get_topic :: "'w http_ctx \<Rightarrow> string \<Rightarrow> 'w \<Rightarrow> topic_spec res \<times> 'w" where
  "hb_get_topic c name =
     ask c GET ''/v1/topics/by-name'' [(''name'', name)] None (decode_answer (hd_topic (hx_lib c)))"

definition hb_update_topic :: "'w http_ctx \<Rightarrow> topic_spec \<Rightarrow> string list \<Rightarrow> 'w \<Rightarrow> topic_spec res \<times> 'w" where
  "hb_update_topic c topic update_mask w =
     (let (q, w') = hb_get_topic c (t_name topic) w in (res_bind q (\<lambda>_. Ok topic), w'))"

definition hb_list_topics ::
  "'w http_ctx \<Rightarrow> string \<Rightarrow> int \<Rightarrow> string \<Rightarrow> 'w \<Rightarrow> topic_spec page res \<times> 'w" where
  "hb_list_topics c project page_size page_token w =
     (let (q, w') = ask c GET ''/v1/topics'' [(''project'', project)] None
            (decode_answer (hd_topics (hx_lib c))) w
      in (res_bind q (\<lambda>items. Ok (paginate items page_size page_token)), w'))"

definition hb_delete_topic :: "'w http_ctx \<Rightarrow> string \<Rightarrow> 'w \<Rightarrow> unit res \<times> 'w" where
  "hb_delete_topic c name = ask c DELETE ''/v1/topics/by-name'' [(''name'', name)] None empty_answer"

definition hb_create_subscription :: "'w http_ctx \<Rightarrow> subscription_spec \<Rightarrow> 'w \<Rightarrow> subscription_spec res \<times> 'w" where
  "hb_create_subscription c subscription =
     ask c POST ''/v1/subscriptions'' [] (Some (subscription_ser subscription))
       (decode_answer (hd_subscription (hx_lib c)))"

definition hb_get_subscription :: "'w http_ctx \<Rightarrow> string \<Rightarrow> 'w \<Rightarrow> subscription_spec res \<times> 'w" where
  "hb_get_subscription c name =
     ask c GET ''/v1/subscriptions/by-name'' [(''name'', name)] None
       (decode_answer (hd_subscription (hx_lib c)))"

definition hb_update_subscription ::
  "'w http_ctx \<Rightarrow> subscription_spec \<Rightarrow> string list \<Rightarrow> 'w \<Rightarrow> subscription_spec res \<times> 'w" where
  "hb_update_subscription c subscription update_mask w =
     (let (q, w') = hb_get_subscription c (s_name subscription) w in (res_bind q (\<lambda>_. Ok subscription), w'))"

definition hb_list_subscriptions ::
  "'w http_ctx \<Rightarrow> string \<Rightarrow> int \<Rightarrow> string \<Rightarrow> 'w \<Rightarrow> subscription_spec page res \<times> 'w" where
  "hb_list_subscriptions c project page_size page_token w =
     (let (q, w') = ask c GET ''/v1/subscriptions'' [(''project'', project)] None
            (decode_answer (hd_subscriptions (hx_lib c))) w
      in (res_bind q (\<lambda>items. Ok (paginate items page_size page_token)), w'))"

text \<open>The first two parts of a name, joined again.\<close>

definition project_prefix :: "string \<Rightarrow> string" where
  "project_prefix topic =
     (case split_on (CHR ''/'') topic of
        p # q # _ \<Rightarrow> p @ ''/'' @ q
      | parts \<Rightarrow> concat parts)"

definition hb_list_topic_subscriptions ::
  "'w http_ctx \<Rightarrow> string \<Rightarrow> int \<Rightarrow> string \<Rightarrow> 'w \<Rightarrow> string page res \<times> 'w" where
  "hb_list_topic_subscriptions c topic page_size page_token w =
     (let (q, w') = hb_list_subscriptions c (project_prefix topic) 1000 [] w
      in (res_bind q (\<lambda>all. Ok (paginate
            (map s_name (filter (\<lambda>x. s_topic x = topic) (pg_items all))) page_size page_token)), w'))"

definition hb_delete_subscription :: "'w http_ctx \<Rightarrow> string \<Rightarrow> 'w \<Rightarrow> unit res \<times> 'w" where
  "hb_delete_subscription c name =
     ask c DELETE ''/v1/subscriptions/by-name'' [(''name'', name)] None empty_answer"

definition new_message_ser :: "new_message \<Rightarrow> json" where
  "new_message_ser m = JObject
     [(''data'', JArray (map (\<lambda>x. json_nat (byte x)) (n_data m))), (''attributes'', json_map (n_attributes m)),
      (''ordering_key'', JString (n_ordering_key m)), (''message_id'', JString (n_message_id m))]"

definition hb_publish :: "'w http_ctx \<Rightarrow> string \<Rightarrow> new_message list \<Rightarrow> 'w \<Rightarrow> string list res \<times> 'w" where
  "hb_publish c topic messages =
     ask c POST ''/v1/messages:publish'' []
       (Some (JObject [(''topic'', JString topic), (''messages'', JArray (map new_message_ser messages))]))
       (decode_answer (hd_published (hx_lib c)))"

definition hb_pull :: "'w http_ctx \<Rightarrow> string \<Rightarrow> u32 \<Rightarrow> 'w \<Rightarrow> delivery list res \<times> 'w" where
  "hb_pull c subscription max_messages =
     ask c POST ''/v1/messages:pull'' []
       (Some (JObject [(''subscription'', JString subscription), (''max_messages'', json_u32 max_messages)]))
       (decode_answer (hd_pulled (hx_lib c)))"

definition hb_acknowledge :: "'w http_ctx \<Rightarrow> string \<Rightarrow> string list \<Rightarrow> 'w \<Rightarrow> unit res \<times> 'w" where
  "hb_acknowledge c subscription ack_ids =
     ask c POST ''/v1/messages:ack'' []
       (Some (JObject [(''subscription'', JString subscription), (''ack_ids'', JArray (map JString ack_ids))]))
       empty_answer"

definition hb_modify_ack_deadline :: "'w http_ctx \<Rightarrow> string \<Rightarrow> string list \<Rightarrow> u32 \<Rightarrow> 'w \<Rightarrow> unit res \<times> 'w" where
  "hb_modify_ack_deadline c subscription ack_ids secs =
     ask c POST ''/v1/messages:modify-ack-deadline'' []
       (Some (JObject [(''subscription'', JString subscription), (''ack_ids'', JArray (map JString ack_ids)),
          (''seconds'', json_u32 secs)]))
       empty_answer"

definition hb_seek_to_time :: "'w http_ctx \<Rightarrow> string \<Rightarrow> time \<Rightarrow> 'w \<Rightarrow> unit res \<times> 'w" where
  "hb_seek_to_time c subscription t =
     ask c POST ''/v1/subscriptions:seek'' []
       (Some (JObject [(''subscription'', JString subscription),
          (''time'', JString (hd_rfc3339 (hx_lib c) t))]))
       empty_answer"

section \<open>The whole backend\<close>

text \<open>Its state is the far end's and that of the local store.\<close>

definition at_far :: "('w \<Rightarrow> 'a res \<times> 'w) \<Rightarrow> 'w \<times> state \<Rightarrow> 'a res \<times> 'w \<times> state" where
  "at_far f x = (let (q, w) = f (fst x) in (q, w, snd x))"

definition at_local :: "(state \<Rightarrow> 'a res \<times> state) \<Rightarrow> 'w \<times> state \<Rightarrow> 'a res \<times> 'w \<times> state" where
  "at_local f x = (let (q, s) = f (snd x) in (q, fst x, s))"

definition http_relay_backend :: "'w http_ctx \<Rightarrow> ('w \<times> state) relay_backend" where
  "http_relay_backend c =
     \<lparr>b_create_topic = (\<lambda>e t. at_far (hb_create_topic c t)),
      b_update_topic = (\<lambda>e t upd. at_far (hb_update_topic c t upd)),
      b_get_topic = (\<lambda>e n. at_far (hb_get_topic c n)),
      b_list_topics = (\<lambda>e p k tok. at_far (hb_list_topics c p k tok)),
      b_list_topic_subscriptions = (\<lambda>e n k tok. at_far (hb_list_topic_subscriptions c n k tok)),
      b_delete_topic = (\<lambda>e n. at_far (hb_delete_topic c n)),
      b_create_subscription = (\<lambda>e x. at_far (hb_create_subscription c x)),
      b_update_subscription = (\<lambda>e x upd. at_far (hb_update_subscription c x upd)),
      b_get_subscription = (\<lambda>e n. at_far (hb_get_subscription c n)),
      b_list_subscriptions = (\<lambda>e p k tok. at_far (hb_list_subscriptions c p k tok)),
      b_delete_subscription = (\<lambda>e n. at_far (hb_delete_subscription c n)),
      b_modify_push_config = (\<lambda>e n ep a. at_local (modify_push_config e n ep a)),
      b_publish = (\<lambda>e n ms. at_far (hb_publish c n ms)),
      b_pull = (\<lambda>e n k. at_far (hb_pull c n k)),
      b_acknowledge = (\<lambda>e n ks. at_far (hb_acknowledge c n ks)),
      b_modify_ack_deadline = (\<lambda>e n ks secs. at_far (hb_modify_ack_deadline c n ks secs)),
      b_seek_to_time = (\<lambda>e n t. at_far (hb_seek_to_time c n t)),
      b_seek_to_snapshot = (\<lambda>e n x. at_local (seek_to_snapshot e n x)),
      b_create_snapshot = (\<lambda>e n x a. at_local (create_snapshot e n x a)),
      b_update_snapshot = (\<lambda>e x upd. at_local (update_snapshot e x upd)),
      b_get_snapshot = (\<lambda>e n. at_local (read1 get_snapshot e n)),
      b_list_snapshots = (\<lambda>e p k tok. at_local (read3 list_snapshots e p k tok)),
      b_delete_snapshot = (\<lambda>e n. at_local (delete_snapshot e n)),
      b_get_iam_policy = (\<lambda>e n. at_local (read1 get_iam_policy e n)),
      b_set_iam_policy = (\<lambda>e n p. at_local (set_iam_policy e n p)),
      b_test_iam_permissions = (\<lambda>e n ps. at_local (read2 test_iam_permissions e n ps)),
      b_create_schema = (\<lambda>e x. at_local (create_schema e x)),
      b_get_schema = (\<lambda>e n. at_local (read1 get_schema e n)),
      b_list_schemas = (\<lambda>e p k tok. at_local (read3 list_schemas e p k tok)),
      b_delete_schema = (\<lambda>e n. at_local (delete_schema e n)),
      b_validate_schema = (\<lambda>e x. at_local (check_schema e x)),
      b_validate_message = (\<lambda>e n x m. at_local (check_message e n x m)),
      b_list_push_subscriptions = (\<lambda>e. at_local (push_listing e)),
      b_inventory = (\<lambda>e p. at_local (read1 inventory e p))\<rparr>"

lemma at_far_sel [simp]: "fst (at_far f x) = fst (f (fst x))" "snd (snd (at_far f x)) = snd x"
  by (simp_all add: at_far_def split_beta)

lemma at_local_sel [simp]:
  "fst (at_local f x) = fst (f (snd x))" "snd (snd (at_local f x)) = snd (f (snd x))"
  by (simp_all add: at_local_def split_beta)

text \<open>What asks the far end does not panic, whatever that answers.\<close>

lemma ask_returns: "(\<And>out. read out \<noteq> Panic) \<Longrightarrow> fst (ask c verb path query body read w) \<noteq> Panic"
  by (simp add: ask_def split_beta)

lemma decoders_return [simp]: "decode_answer read out \<noteq> Panic" "empty_answer out \<noteq> Panic"
  by (simp_all add: decode_answer_def empty_answer_def split: http_outcome.split sum.split)

lemma res_bind_returns: "q \<noteq> Panic \<Longrightarrow> (\<And>x. f x \<noteq> Panic) \<Longrightarrow> res_bind q f \<noteq> Panic"
  by (cases q) (auto simp: res_bind_def)

lemma far_returns:
  "fst (hb_create_topic c t w) \<noteq> Panic" "fst (hb_get_topic c n w) \<noteq> Panic"
  "fst (hb_update_topic c t upd w) \<noteq> Panic" "fst (hb_list_topics c n k tok w) \<noteq> Panic"
  "fst (hb_list_topic_subscriptions c n k tok w) \<noteq> Panic" "fst (hb_delete_topic c n w) \<noteq> Panic"
  "fst (hb_create_subscription c x w) \<noteq> Panic" "fst (hb_get_subscription c n w) \<noteq> Panic"
  "fst (hb_update_subscription c x upd w) \<noteq> Panic" "fst (hb_list_subscriptions c n k tok w) \<noteq> Panic"
  "fst (hb_delete_subscription c n w) \<noteq> Panic" "fst (hb_publish c n ms w) \<noteq> Panic"
  "fst (hb_pull c n m w) \<noteq> Panic" "fst (hb_acknowledge c n ks w) \<noteq> Panic"
  "fst (hb_modify_ack_deadline c n ks m w) \<noteq> Panic" "fst (hb_seek_to_time c n i w) \<noteq> Panic"
proof -
  show *: "fst (hb_get_topic c n w) \<noteq> Panic" "fst (hb_get_subscription c n w) \<noteq> Panic"
    "fst (hb_list_subscriptions c n k tok w) \<noteq> Panic" for n k tok
    by (simp_all add: hb_get_topic_def hb_get_subscription_def hb_list_subscriptions_def ask_returns
        res_bind_returns split_beta)
  show "fst (hb_list_topic_subscriptions c n k tok w) \<noteq> Panic"
    using *(3) by (simp add: hb_list_topic_subscriptions_def split_beta res_bind_returns)
  show "fst (hb_update_topic c t upd w) \<noteq> Panic" "fst (hb_update_subscription c x upd w) \<noteq> Panic"
    using *(1,2) by (simp_all add: hb_update_topic_def hb_update_subscription_def split_beta res_bind_returns)
qed (simp_all add: hb_create_topic_def hb_list_topics_def hb_delete_topic_def hb_create_subscription_def
    hb_delete_subscription_def hb_publish_def hb_pull_def hb_acknowledge_def hb_modify_ack_deadline_def
    hb_seek_to_time_def ask_returns res_bind_returns split_beta)

section \<open>The local store stays bare\<close>

text \<open>
  Topics and subscriptions go to the far end only, so the local store never has any, and
  what needs one there always fails: no snapshot is ever taken, no push endpoint set, and
  the push dispatcher and the console see an empty system.
\<close>

definition bare :: "state \<Rightarrow> bool" where
  "bare s = (st_topics s = [] \<and> st_subscriptions s = [] \<and> st_snapshots s = [])"

lemma bare_ops:
  assumes "bare s"
  shows "modify_push_config e n ep a s = (Err (NotFound n), s)"
    "seek_to_snapshot e n x s = (Err (NotFound x), s)"
    "bare (snd (create_snapshot e n x labels s))" "fst (create_snapshot e n x labels s) \<noteq> Ok y"
    "update_snapshot e z upd s = (Err (NotFound (sn_name z)), s)"
    "delete_snapshot e n s = (Err (NotFound n), s)"
    "bare (snd (set_iam_policy e n p s))" "bare (snd (create_schema e sc s))" "bare (snd (delete_schema e n s))"
    "list_push_subscriptions s = Ok []"
  using assms
  by (auto simp: bare_def modify_push_config_def seek_to_snapshot_def create_snapshot_def update_snapshot_def
      delete_snapshot_def set_iam_policy_def create_schema_def delete_schema_def hm_contains_def Let_def
      list_push_subscriptions_def hm_values_def
      split: option.split res.split)

text \<open>Each operation is the far end's, or that of the local store.\<close>

definition is_far :: "operation \<Rightarrow> bool" where
  "is_far op =
     (case op of
        Do (CreateTopic t) \<Rightarrow> True
      | Do (UpdateTopic t upd) \<Rightarrow> True
      | Do (DeleteTopic n) \<Rightarrow> True
      | Do (CreateSubscription x) \<Rightarrow> True
      | Do (UpdateSubscription x upd) \<Rightarrow> True
      | Do (DeleteSubscription n) \<Rightarrow> True
      | Do (Publish n ms) \<Rightarrow> True
      | Do (Pull n k) \<Rightarrow> True
      | Do (Acknowledge n ks) \<Rightarrow> True
      | Do (ModifyAckDeadline n ks secs) \<Rightarrow> True
      | Do (SeekToTime n t) \<Rightarrow> True
      | Ask (GetTopic n) \<Rightarrow> True
      | Ask (ListTopics p k tok) \<Rightarrow> True
      | Ask (ListTopicSubscriptions n k tok) \<Rightarrow> True
      | Ask (GetSubscription n) \<Rightarrow> True
      | Ask (ListSubscriptions p k tok) \<Rightarrow> True
      | _ \<Rightarrow> False)"

lemma forget_far: "forget (at_far f x) = at_far (\<lambda>w. forget (f w)) x"
  by (simp add: at_far_def forget_def split_beta)

lemma far_answers: "fst (f (fst x)) \<noteq> Panic \<Longrightarrow> \<exists>g. at_far f x = at_far g x \<and> fst (g (fst x)) \<noteq> Panic"
  by blast

lemma http_far:
  assumes "is_far op"
  shows "\<exists>f. bk_run (http_relay_backend c) e op x = at_far f x \<and> fst (f (fst x)) \<noteq> Panic"
proof (cases op)
  case (Do r)
  then show ?thesis using assms
    by (cases r) (simp_all add: is_far_def http_relay_backend_def forget_far far_answers far_returns)
next
  case (Ask q)
  then show ?thesis using assms
    by (cases q) (simp_all add: is_far_def http_relay_backend_def forget_far far_answers far_returns)
qed

lemma http_local:
  assumes "\<not> is_far op"
  shows "bk_run (http_relay_backend c) e op x = at_local (bk_run memory_backend e op) x"
proof (cases op)
  case (Do r)
  then show ?thesis using assms
    by (cases r) (simp_all add: is_far_def http_relay_backend_def at_local_def forget_def split_beta)
next
  case (Ask q)
  then show ?thesis using assms
    by (cases q) (simp_all add: is_far_def http_relay_backend_def at_local_def forget_def split_beta
        read1_def read2_def read3_def push_listing_def check_schema_def check_message_def)
qed

lemma local_bare:
  assumes "\<not> is_far op" "bare s"
  shows "bare (snd (bk_run memory_backend e op s))"
  using assms memory_query(1) bare_ops [OF assms(2)]
  by (cases op; simp) (rename_tac r, case_tac r; simp add: is_far_def)

interpretation http_relay: answering_backend "http_relay_backend c" "\<lambda>x. reachable (snd x) \<and> bare (snd x)"
    "\<lambda>e x. env_ok e (snd x)" "\<lambda>op x. True" for c :: "'w http_ctx"
proof
  fix x :: "'w \<times> state" and e op
  assume x: "reachable (snd x) \<and> bare (snd x)" "env_ok e (snd x)"
  have allowed: "\<not> is_far op \<Longrightarrow> store_allows op (snd x)"
    by (auto simp: is_far_def store_allows_def admissible_def split: operation.splits request.splits)
  show "fst (bk_run (http_relay_backend c) e op x) \<noteq> Panic"
    using http_far [of op c e x] http_local [of op c e x] x memory_store.answers [of "snd x" e op]
    by (cases "is_far op") auto
  show "reachable (snd (snd (bk_run (http_relay_backend c) e op x))) \<and>
      bare (snd (snd (bk_run (http_relay_backend c) e op x)))"
    using http_far [of op c e x] http_local [of op c e x] x memory_store.keeps [of "snd x" e op] local_bare [of op "snd x" e]
      allowed by (cases "is_far op") auto
qed

lemma http_relay_start: "reachable empty_state \<and> bare empty_state"
  using reachable.start by (simp add: bare_def empty_state_def)

text \<open>An update changes nothing at the far end but by the read it makes, and returns its argument.\<close>

lemma hb_update_topic_reads:
  "snd (hb_update_topic c t upd w) = snd (hb_get_topic c (t_name t) w)"
  "fst (hb_update_topic c t upd w) = res_bind (fst (hb_get_topic c (t_name t) w)) (\<lambda>_. Ok t)"
  by (simp_all add: hb_update_topic_def split: prod.split)

end
