(* ===== verification/Action_Gateway.thy ===== *)
theory Action_Gateway
  imports Store_Traces Relay_Events
begin

text \<open>
  \<open>src/action_gateway.rs\<close>: the HTTP endpoint that queues a command on the actions topic
  once per idempotency key. The backend is \<open>dyn RelayBackend\<close>: its \<open>publish\<close> is an argument
  here, and what the gateway relies on is the locale \<open>idempotent_publisher\<close>, which is then
  interpreted on the memory store, and in theory \<open>Backends\<close> on the relay-events backend.
\<close>

section \<open>State and requests\<close>

record action_in =
  ai_action_id :: string
  ai_event_id :: string
  ai_command :: string
  ai_payload :: json

definition action_in_default :: action_in where
  "action_in_default = \<lparr>ai_action_id = [], ai_event_id = [], ai_command = [], ai_payload = JNull\<rparr>"

record action_result =
  ar_provider_id :: string
  ar_state :: string
  ar_evidence :: "json option"
  ar_at :: time

record action_gateway =
  gw_actions_topic :: string
  gw_by_key :: "(string, action_result) hmap"

definition gateway_new :: "string \<Rightarrow> action_gateway" where
  "gateway_new topic = \<lparr>gw_actions_topic = topic, gw_by_key = []\<rparr>"

text \<open>
  The libraries: deserialising the body, printing JSON, printing a time, and whether a
  text is a header value.
\<close>

record gateway_lib =
  gl_from_slice :: "bytes \<Rightarrow> string + action_in"
  gl_print :: "json \<Rightarrow> string"
  gl_rfc3339 :: "time \<Rightarrow> string"
  gl_header_ok :: "string \<Rightarrow> bool"

record reply =
  rp_status :: nat
  rp_action_id :: "string option"
  rp_replay :: bool
  rp_body :: json

definition gateway_error :: "nat \<Rightarrow> string \<Rightarrow> reply" where
  "gateway_error status msg =
     \<lparr>rp_status = status, rp_action_id = None, rp_replay = False,
      rp_body = JObject [(''error'', JString msg)]\<rparr>"

definition result_response :: "gateway_lib \<Rightarrow> action_result \<Rightarrow> bool \<Rightarrow> reply" where
  "result_response lib r is_replay =
     \<lparr>rp_status = 200,
      rp_action_id = (if gl_header_ok lib (ar_provider_id r) then Some (ar_provider_id r) else None),
      rp_replay = is_replay,
      rp_body = JObject
        ([(''provider_id'', JString (ar_provider_id r)), (''state'', JString (ar_state r))]
         @ (case ar_evidence r of None \<Rightarrow> [] | Some v \<Rightarrow> [(''evidence'', v)])
         @ [(''at'', JString (gl_rfc3339 lib (ar_at r)))])\<rparr>"

definition action_message :: "gateway_lib \<Rightarrow> string \<Rightarrow> action_in \<Rightarrow> new_message" where
  "action_message lib key input =
     \<lparr>n_data = gl_print lib (JObject [(''command'', JString (ai_command input)), (''payload'', ai_payload input),
          (''action_id'', JString (ai_action_id input)), (''event_id'', JString (ai_event_id input))]),
      n_attributes = [(''idempotency_key'', key), (''action_id'', ai_action_id input),
          (''event_id'', ai_event_id input), (''command'', ai_command input)],
      n_ordering_key = [], n_message_id = []\<rparr>"

definition accepted :: "time \<Rightarrow> string \<Rightarrow> action_in \<Rightarrow> action_result" where
  "accepted now key input =
     \<lparr>ar_provider_id = ''rpg_'' @ key, ar_state = ''queued'',
      ar_evidence = Some (JObject [(''adapter'', JString ''relay-pubsub''),
        (''action_id'', JString (ai_action_id input)), (''event_id'', JString (ai_event_id input))]),
      ar_at = now\<rparr>"

text \<open>
  The handler, with the lock held from the look-up to the insertion. The header is the
  value of \<open>Idempotency-Key\<close> when it is there and is text.
\<close>

definition handle_action ::
  "gateway_lib \<Rightarrow> (string \<Rightarrow> new_message list \<Rightarrow> 's \<Rightarrow> string list res \<times> 's) \<Rightarrow> time \<Rightarrow>
   string option \<Rightarrow> bytes \<Rightarrow> action_gateway \<Rightarrow> 's \<Rightarrow> reply res \<times> action_gateway \<times> 's" where
  "handle_action lib pub now header body g s =
     (case (case header of None \<Rightarrow> None | Some k \<Rightarrow> if k = [] then None else Some k) of
        None \<Rightarrow> (Ok (gateway_error 400 ''Idempotency-Key required''), g, s)
      | Some key \<Rightarrow>
          (case (if body = [] then Inr action_in_default else gl_from_slice lib body) of
             Inl err \<Rightarrow> (Ok (gateway_error 400 (''invalid body: '' @ err)), g, s)
           | Inr input \<Rightarrow>
               (let message = action_message lib key input in
                case hm_get (gw_by_key g) key of
                  Some existing \<Rightarrow> (Ok (result_response lib existing True), g, s)
                | None \<Rightarrow>
                    (case pub (gw_actions_topic g) [message] s of
                       (Err err, s') \<Rightarrow> (Ok (gateway_error 502 (error_text err)), g, s')
                     | (Panic, s') \<Rightarrow> (Panic, g, s')
                     | (Ok _, s') \<Rightarrow>
                         (let candidate = accepted now key input
                          in (Ok (result_response lib candidate False),
                              g\<lparr>gw_by_key := hm_insert key candidate (gw_by_key g)\<rparr>, s'))))))"

section \<open>Facts about one request\<close>

lemma client_id_action [simp]: "client_id_of (action_message lib key input) = key"
  by (simp add: client_id_of_def action_message_def)

text \<open>The three ways a request can go: refused or answered from memory, or published.\<close>

lemma handle_action_cases:
  obtains (keep) r where "handle_action lib pub now header body g s = (Ok r, g, s)"
    "rp_status r = 200 \<longrightarrow> rp_replay r \<and>
       (\<exists>key. header = Some key \<and> key \<noteq> [] \<and> hm_get (gw_by_key g) key \<noteq> None)"
  | (published) key input p s' where "header = Some key" "key \<noteq> []" "hm_get (gw_by_key g) key = None"
    "(if body = [] then Inr action_in_default else gl_from_slice lib body) = Inr input"
    "pub (gw_actions_topic g) [action_message lib key input] s = (p, s')"
    "handle_action lib pub now header body g s =
       (case p of
          Err err \<Rightarrow> (Ok (gateway_error 502 (error_text err)), g, s')
        | Panic \<Rightarrow> (Panic, g, s')
        | Ok ids \<Rightarrow> (Ok (result_response lib (accepted now key input) False),
            g\<lparr>gw_by_key := hm_insert key (accepted now key input) (gw_by_key g)\<rparr>, s'))"
proof (cases "header = None \<or> header = Some []")
  case True
  then show ?thesis using keep by (auto simp: handle_action_def gateway_error_def)
next
  case False
  then obtain key where k: "header = Some key" "key \<noteq> []" by auto
  show ?thesis
  proof (cases "if body = [] then Inr action_in_default else gl_from_slice lib body")
    case (Inl err)
    then show ?thesis using keep k by (simp add: handle_action_def gateway_error_def)
  next
    case (Inr input)
    show ?thesis
    proof (cases "hm_get (gw_by_key g) key")
      case None
      obtain p s' where p: "pub (gw_actions_topic g) [action_message lib key input] s = (p, s')"
        by (metis surj_pair)
      show ?thesis using k Inr None p
        by (intro published [of key input p s']) (simp_all add: handle_action_def Let_def split: res.split)
    next
      case (Some x)
      then show ?thesis using keep k Inr by (simp add: handle_action_def result_response_def)
    qed
  qed
qed

lemma handle_action_topic [simp]:
  "gw_actions_topic (fst (snd (handle_action lib pub now header body g s))) = gw_actions_topic g"
  by (rule handle_action_cases [of lib pub now header body g s]) (simp_all split: res.split)

text \<open>The state of the backend after a request: as it was, or after publishing the message.\<close>

lemma handle_action_store:
  "snd (snd (handle_action lib pub now header body g s)) = s \<or>
   (\<exists>key input. header = Some key \<and> key \<noteq> [] \<and>
      snd (snd (handle_action lib pub now header body g s))
        = snd (pub (gw_actions_topic g) [action_message lib key input] s))"
proof (rule handle_action_cases [of lib pub now header body g s])
  fix key input p s'
  assume "header = Some key" "key \<noteq> []"
    and p: "pub (gw_actions_topic g) [action_message lib key input] s = (p, s')"
    "handle_action lib pub now header body g s =
       (case p of
          Err err \<Rightarrow> (Ok (gateway_error 502 (error_text err)), g, s')
        | Panic \<Rightarrow> (Panic, g, s')
        | Ok ids \<Rightarrow> (Ok (result_response lib (accepted now key input) False),
            g\<lparr>gw_by_key := hm_insert key (accepted now key input) (gw_by_key g)\<rparr>, s'))"
  then show ?thesis by (intro disjI2 exI [of _ key] exI [of _ input]) (simp split: res.split)
qed simp

section \<open>Runs\<close>

text \<open>
  Requests, restarts of the process, which lose what the gateway remembers but not the
  store, and whatever else happens to the store in between.
\<close>

inductive gateway_run ::
  "gateway_lib \<Rightarrow> ('e \<Rightarrow> string \<Rightarrow> new_message list \<Rightarrow> 's \<Rightarrow> string list res \<times> 's) \<Rightarrow> ('s \<Rightarrow> 's \<Rightarrow> bool) \<Rightarrow>
   action_gateway \<Rightarrow> 's \<Rightarrow> action_gateway \<Rightarrow> 's \<Rightarrow> bool" for lib pub other g s where
  here: "gateway_run lib pub other g s g s"
| call: "gateway_run lib pub other g s g1 s1 \<Longrightarrow>
    handle_action lib (pub e) now header body g1 s1 = (r, g2, s2) \<Longrightarrow>
    gateway_run lib pub other g s g2 s2"
| restart: "gateway_run lib pub other g s g1 s1 \<Longrightarrow>
    gateway_run lib pub other g s (gateway_new (gw_actions_topic g1)) s1"
| elsewhere: "gateway_run lib pub other g s g1 s1 \<Longrightarrow> other s1 s2 \<Longrightarrow>
    gateway_run lib pub other g s g1 s2"

section \<open>What the gateway relies on\<close>

text \<open>
  \<open>seen c s\<close>: the actions topic holds a message of the client identifier \<open>c\<close>. \<open>other\<close> is
  what the rest of the system may do to the store between two requests.
\<close>

locale idempotent_publisher =
  fixes pub :: "'e \<Rightarrow> string \<Rightarrow> new_message list \<Rightarrow> 's \<Rightarrow> string list res \<times> 's"
    and topic :: string
    and inv :: "'s \<Rightarrow> bool"
    and seen :: "string \<Rightarrow> 's \<Rightarrow> bool"
    and other :: "'s \<Rightarrow> 's \<Rightarrow> bool"
  assumes pub_inv: "inv s \<Longrightarrow> inv (snd (pub e topic ms s))"
    and pub_seen: "inv s \<Longrightarrow> seen c s \<Longrightarrow> seen c (snd (pub e topic ms s))"
    and pub_records: "inv s \<Longrightarrow> pub e topic [m] s = (Ok ids, s') \<Longrightarrow> client_id_of m \<noteq> [] \<Longrightarrow>
      seen (client_id_of m) s'"
    and pub_again: "inv s \<Longrightarrow> client_id_of m \<noteq> [] \<Longrightarrow> seen (client_id_of m) s \<Longrightarrow> snd (pub e topic [m] s) = s"
    and other_inv: "inv s \<Longrightarrow> other s s' \<Longrightarrow> inv s'"
    and other_seen: "inv s \<Longrightarrow> seen c s \<Longrightarrow> other s s' \<Longrightarrow> seen c s'"
begin

lemma handle_inv:
  assumes "inv s" "gw_actions_topic g = topic"
  shows "inv (snd (snd (handle_action lib (pub e) now header body g s)))"
  using handle_action_store [of lib "pub e" now header body g s] pub_inv [OF assms(1)] assms by auto

lemma handle_seen:
  assumes "inv s" "gw_actions_topic g = topic" "seen c s"
  shows "seen c (snd (snd (handle_action lib (pub e) now header body g s)))"
  using handle_action_store [of lib "pub e" now header body g s] pub_seen [OF assms(1,3)] assms by auto

text \<open>A request whose key was seen changes nothing, whatever the gateway remembers.\<close>

lemma handle_again:
  assumes "inv s" "gw_actions_topic g = topic" "seen key s"
  shows "snd (snd (handle_action lib (pub e) now (Some key) body g s)) = s"
  using handle_action_store [of lib "pub e" now "Some key" body g s]
    pub_again [OF assms(1)] assms by fastforce

text \<open>
  The keys the gateway remembers are keys the backend has seen; an accepted request
  makes its key one of them.
\<close>

definition remembered :: "action_gateway \<Rightarrow> 's \<Rightarrow> bool" where
  "remembered g s = (\<forall>k. k \<noteq> [] \<and> hm_get (gw_by_key g) k \<noteq> None \<longrightarrow> seen k s)"

lemma handle_remembered:
  assumes "inv s" "gw_actions_topic g = topic" "remembered g s"
    and h: "handle_action lib (pub e) now header body g s = (r, g', s')"
  shows "remembered g' s'"
proof (rule handle_action_cases [of lib "pub e" now header body g s])
  fix r
  assume "handle_action lib (pub e) now header body g s = (Ok r, g, s)"
  then show ?thesis using assms(3) h by simp
next
  fix key input p s1
  assume k: "key \<noteq> []" and p: "pub e (gw_actions_topic g) [action_message lib key input] s = (p, s1)"
    and eq: "handle_action lib (pub e) now header body g s =
       (case p of
          Err err \<Rightarrow> (Ok (gateway_error 502 (error_text err)), g, s1)
        | Panic \<Rightarrow> (Panic, g, s1)
        | Ok ids \<Rightarrow> (Ok (result_response lib (accepted now key input) False),
            g\<lparr>gw_by_key := hm_insert key (accepted now key input) (gw_by_key g)\<rparr>, s1))"
  have old: "seen c s1" if "seen c s" for c
    using pub_seen [OF assms(1) that, of e "[action_message lib key input]"] p assms(2) by simp
  have new: "seen key s1" if "p = Ok ids" for ids
    using pub_records [OF assms(1), of e "action_message lib key input" ids s1] p assms(2) k that by simp
  show ?thesis using assms(3) old new eq h unfolding remembered_def
    by (cases p) auto
qed

lemma accepted_seen:
  assumes "inv s" "gw_actions_topic g = topic" "remembered g s"
    and "handle_action lib (pub e) now (Some key) body g s = (Ok r, g', s')" "rp_status r = 200"
  shows "seen key s'"
proof (rule handle_action_cases [of lib "pub e" now "Some key" body g s])
  fix r'
  assume "handle_action lib (pub e) now (Some key) body g s = (Ok r', g, s)"
    "rp_status r' = 200 \<longrightarrow> rp_replay r' \<and>
       (\<exists>key'. Some key = Some key' \<and> key' \<noteq> [] \<and> hm_get (gw_by_key g) key' \<noteq> None)"
  then show ?thesis using assms(3-5) by (auto simp: remembered_def)
next
  fix key' input p s1
  assume "Some key = Some key'" "key' \<noteq> []"
    and p: "pub e (gw_actions_topic g) [action_message lib key' input] s = (p, s1)"
    and eq: "handle_action lib (pub e) now (Some key) body g s =
       (case p of
          Err err \<Rightarrow> (Ok (gateway_error 502 (error_text err)), g, s1)
        | Panic \<Rightarrow> (Panic, g, s1)
        | Ok ids \<Rightarrow> (Ok (result_response lib (accepted now key' input) False),
            g\<lparr>gw_by_key := hm_insert key' (accepted now key' input) (gw_by_key g)\<rparr>, s1))"
  then show ?thesis
    using pub_records [OF assms(1), of e "action_message lib key' input"] assms(2,4,5)
    by (cases p) (auto simp: gateway_error_def)
qed

text \<open>Runs keep what was seen, so that a key that was accepted once changes nothing again.\<close>

lemma run_keeps:
  assumes "gateway_run lib pub other g s g' s'" "inv s" "gw_actions_topic g = topic"
  shows "inv s' \<and> gw_actions_topic g' = topic \<and> (seen c s \<longrightarrow> seen c s')"
  using assms
proof (induction rule: gateway_run.induct)
  case here
  then show ?case by simp
next
  case (call g1 s1 e now header body r g2 s2)
  then have I: "inv s1" "gw_actions_topic g1 = topic" "seen c s \<longrightarrow> seen c s1" by simp_all
  show ?case
    using handle_inv [OF I(1,2), of lib e now header body] handle_seen [OF I(1,2), of c lib e now header body]
      handle_action_topic [of lib "pub e" now header body g1 s1] I call.hyps(2) by simp
next
  case (restart g1 s1)
  then show ?case by (simp add: gateway_new_def)
next
  case (elsewhere g1 s1 s2)
  then show ?case using other_inv other_seen by blast
qed

lemma run_remembers:
  assumes "gateway_run lib pub other g s g' s'" "inv s" "gw_actions_topic g = topic" "remembered g s"
  shows "remembered g' s'"
  using assms
proof (induction rule: gateway_run.induct)
  case here
  then show ?case by simp
next
  case (call g1 s1 e now header body r g2 s2)
  have "inv s1" "gw_actions_topic g1 = topic" using run_keeps [OF call.hyps(1) call.prems(1,2)] by blast+
  then show ?case by (rule handle_remembered [OF _ _ call.IH [OF call.prems] call.hyps(2)])
next
  case (restart g1 s1)
  show ?case by (simp add: remembered_def gateway_new_def)
next
  case (elsewhere g1 s1 s2)
  have "inv s1" using run_keeps [OF elsewhere.hyps(1) elsewhere.prems(1,2)] by blast
  then show ?case using elsewhere other_seen unfolding remembered_def by blast
qed

lemma at_most_once:
  assumes "inv s" "gw_actions_topic g = topic" "remembered g s"
    and "handle_action lib (pub e) now (Some key) body g s = (Ok r, g1, s1)" "rp_status r = 200"
    and "gateway_run lib pub other g1 s1 g2 s2"
  shows "snd (snd (handle_action lib (pub e') now' (Some key) body' g2 s2)) = s2"
proof (rule handle_again)
  have "inv s1" "gw_actions_topic g1 = topic"
    using handle_inv [OF assms(1,2), of lib e now "Some key" body]
      handle_action_topic [of lib "pub e" now "Some key" body g s] assms(2,4) by simp_all
  then show "inv s2" "gw_actions_topic g2 = topic" "seen key s2"
    using run_keeps [OF assms(6), of key] accepted_seen [OF assms(1-5)] by blast+
qed

end

section \<open>The memory store as a publisher\<close>

definition seen_at :: "string \<Rightarrow> string \<Rightarrow> state \<Rightarrow> bool" where
  "seen_at topic c s =
     (case hm_get (st_topics s) topic of None \<Rightarrow> False | Some t \<Rightarrow> hm_get (ts_seen_ids t) c \<noteq> None)"

text \<open>Every request but the deletion of the topic keeps the identifiers it has seen.\<close>

lemma seen_at_extend: "topics_extend (st_topics s) (st_topics s') \<Longrightarrow> seen_at topic c s \<Longrightarrow> seen_at topic c s'"
  unfolding seen_at_def
  by (fastforce dest: topics_extendD(1) simp: topic_extends_def split: option.splits)

lemma seen_at_same: "st_topics s' = st_topics s \<Longrightarrow> seen_at topic c s \<Longrightarrow> seen_at topic c s'"
  by (simp add: seen_at_def)

lemma perform_seen:
  assumes s: "store_ok s" and e: "env_ok e s" and r: "r \<noteq> DeleteTopic topic" and seen: "seen_at topic c s"
  shows "seen_at topic c (snd (perform e r s))"
proof (cases r)
  case (CreateTopic t)
  then show ?thesis using seen
    by (auto simp: create_topic_def seen_at_def hm_contains_def Let_def split: option.splits)
next
  case (UpdateTopic t upd)
  then show ?thesis using seen
    by (auto simp: update_topic_def seen_at_def Let_def split: option.splits if_splits)
next
  case (DeleteTopic m)
  then show ?thesis using seen r by (auto simp: delete_topic_def seen_at_def split: option.splits if_splits)
next
  case (Publish topic' ms)
  then show ?thesis using seen_at_extend [OF publish_extends [OF s] seen] by simp
next
  case (Pull m k)
  then show ?thesis using seen_at_extend [OF pull_extends [OF s e] seen] by simp
qed (auto intro!: seen_at_same [OF _ seen] simp: create_subscription_def update_subscription_def
      delete_subscription_def modify_push_config_def acknowledge_def modify_ack_deadline_def
      seek_to_time_def seek_to_snapshot_def create_snapshot_def update_snapshot_def delete_snapshot_def
      set_iam_policy_def create_schema_def delete_schema_def Let_def case_prod_beta
      split: option.splits res.splits)

definition meanwhile :: "string \<Rightarrow> state \<Rightarrow> state \<Rightarrow> bool" where
  "meanwhile topic s s' =
     (\<exists>e r. env_ok e s \<and> admissible r s \<and> r \<noteq> DeleteTopic topic \<and> s' = snd (perform e r s))"

lemma publish_seen_again:
  assumes "store_ok s" "client_id_of m \<noteq> []" "seen_at topic (client_id_of m) s"
  shows "snd (publish e topic [m] s) = s"
proof -
  obtain t where t: "hm_get (st_topics s) topic = Some t" "hm_get (ts_seen_ids t) (client_id_of m) \<noteq> None"
    using assms(3) by (auto simp: seen_at_def split: option.splits)
  have "seen_ok t" using store_okD(4) [OF assms(1) t(1)] by (simp add: topic_fits_def)
  then have "publish_loop e topic 0 [m] t = ([client_id_of m], t)"
    using publish_loop_seen [of t "[m]"] t(2) assms(2) by simp
  then show ?thesis using t(1) hm_insert_same [OF t(1)] by (simp add: publish_cases split: res.split)
qed

lemma publish_records:
  assumes "store_ok s" "publish e topic [m] s = (Ok ids, s')" "client_id_of m \<noteq> []"
  shows "seen_at topic (client_id_of m) s'"
proof -
  obtain t t' where t: "hm_get (st_topics s) topic = Some t" "publish_loop e topic 0 [m] t = (ids, t')"
    and s': "s' = s\<lparr>st_topics := hm_insert topic t' (st_topics s)\<rparr>"
    using publish_OkD [OF assms(2)] by metis
  have "seen_ok t" using store_okD(4) [OF assms(1) t(1)] by (simp add: topic_fits_def)
  from publish_loop_spec [OF this t(2)] assms(3) s' show ?thesis by (simp add: seen_at_def)
qed

text \<open>One message with a client identifier: it was seen before, or it is appended.\<close>

lemma publish_one:
  assumes s: "store_ok s" and p: "publish e topic [m] s = (Ok ids, s')" and c: "client_id_of m \<noteq> []"
  obtains t t' where "hm_get (st_topics s) topic = Some t" "e_persist e = None"
    "s' = s\<lparr>st_topics := hm_insert topic t' (st_topics s)\<rparr>" "client_id_of m \<in> m_id ` set (ts_messages t')"
    "if seen_at topic (client_id_of m) s then t' = t
     else t' = append_message e (client_id_of m) (enrich_message (e_json e) topic m) t"
proof -
  obtain t t' where t: "hm_get (st_topics s) topic = Some t" "e_persist e = None"
    "publish_loop e topic 0 [m] t = (ids, t')" "s' = s\<lparr>st_topics := hm_insert topic t' (st_topics s)\<rparr>"
    using publish_OkD [OF p] by metis
  have ok: "seen_ok t" using store_okD(4) [OF s t(1)] by (simp add: topic_fits_def)
  have "if seen_at topic (client_id_of m) s then t' = t
     else t' = append_message e (client_id_of m) (enrich_message (e_json e) topic m) t"
    using t(1,3) c by (auto simp: publish_loop_Cons seen_at_def Let_def split: if_splits)
  moreover have "client_id_of m \<in> m_id ` set (ts_messages t')"
  proof -
    have "length ids = 1" "ids ! 0 = client_id_of m" "set ids \<subseteq> m_id ` set (ts_messages t')"
      using publish_loop_spec [OF ok t(3)] c by auto
    then show ?thesis by (metis nth_mem subsetD zero_less_one)
  qed
  ultimately show ?thesis using that t by blast
qed

interpretation memory: idempotent_publisher publish topic store_ok "seen_at topic" "meanwhile topic"
  for topic
proof unfold_locales
  show "store_ok s \<Longrightarrow> store_ok (snd (publish e topic ms s))" for s e ms
    by (rule store_ok_publish)
  show "store_ok s \<Longrightarrow> seen_at topic c s \<Longrightarrow> seen_at topic c (snd (publish e topic ms s))" for s c e ms
    by (rule seen_at_extend [OF publish_extends])
qed (auto simp: meanwhile_def intro: publish_seen_again publish_records perform_ok perform_seen)

end
