(* ===== verification/Grpc_Convert.thy ===== *)
theory Grpc_Convert
  imports Rest_Api
begin

text \<open>
  The messages of \<open>src/proto/google/pubsub/v1/pubsub.proto\<close> that the gRPC surface reads and
  writes, and the conversions of \<open>src/grpc.rs\<close> between them and the data model. An \<open>int32\<close> or
  \<open>int64\<close> field is an integer, cut to 32 bits where the code casts it. The range of
  seconds that \<open>DateTime::from_timestamp\<close> accepts is a parameter.
\<close>

section \<open>Statuses\<close>

datatype grpc_code =
    Code_InvalidArgument | Code_NotFound | Code_AlreadyExists | Code_PermissionDenied
  | Code_FailedPrecondition | Code_Internal | Code_Unavailable | Code_Unauthenticated

record grpc_status =
  gs_code :: grpc_code
  gs_message :: string

definition status :: "grpc_code \<Rightarrow> string \<Rightarrow> grpc_status" where
  "status code message = \<lparr>gs_code = code, gs_message = message\<rparr>"

abbreviation invalid_argument :: "string \<Rightarrow> grpc_status" where
  "invalid_argument \<equiv> status Code_InvalidArgument"

primrec backend_status :: "backend_error \<Rightarrow> grpc_status" where
  "backend_status (NotFound v) = status Code_NotFound v"
| "backend_status (AlreadyExists v) = status Code_AlreadyExists v"
| "backend_status (InvalidArgument v) = status Code_InvalidArgument v"
| "backend_status (FailedPrecondition v) = status Code_FailedPrecondition v"
| "backend_status (PermissionDenied v) = status Code_PermissionDenied v"
| "backend_status (Unavailable v) = status Code_Unavailable v"
| "backend_status (Internal v) = status Code_Internal v"

text \<open>Nothing of an error is lost.\<close>

lemma backend_status_inj: "backend_status x = backend_status y \<longleftrightarrow> x = y"
  by (cases x; cases y) (simp_all add: status_def)

section \<open>Messages\<close>

record proto_duration =
  pd_seconds :: int
  pd_nanos :: int

record proto_timestamp =
  pt_seconds :: int
  pt_nanos :: int

record schema_settings =
  gss_schema :: string
  gss_encoding :: string

record proto_topic =
  gt_name :: string
  gt_labels :: attrs
  gt_kms_key_name :: string
  gt_schema_settings :: "schema_settings option"

record push_config =
  gp_push_endpoint :: string
  gp_attributes :: attrs

record dead_letter_policy =
  gd_dead_letter_topic :: string
  gd_max_delivery_attempts :: int

record retry_policy =
  gr_minimum_backoff :: "proto_duration option"
  gr_maximum_backoff :: "proto_duration option"

record proto_subscription =
  gb_name :: string
  gb_topic :: string
  gb_push_config :: "push_config option"
  gb_ack_deadline_seconds :: int
  gb_retain_acked_messages :: bool
  gb_labels :: attrs
  gb_enable_message_ordering :: bool
  gb_dead_letter_policy :: "dead_letter_policy option"
  gb_retry_policy :: "retry_policy option"
  gb_detached :: bool
  gb_enable_exactly_once_delivery :: bool
  gb_filter :: string

record proto_snapshot =
  gn_name :: string
  gn_topic :: string
  gn_expire_time :: "proto_timestamp option"
  gn_labels :: attrs

record proto_schema =
  gc_name :: string
  gc_type :: int
  gc_definition :: string

record proto_binding =
  gi_role :: string
  gi_members :: "string list"

record proto_policy =
  gl_version :: int
  gl_bindings :: "proto_binding list"
  gl_etag :: string

record pubsub_message =
  gm_data :: bytes
  gm_attributes :: attrs
  gm_message_id :: string
  gm_publish_time :: "proto_timestamp option"
  gm_ordering_key :: string

record received_message =
  gv_ack_id :: string
  gv_message :: "pubsub_message option"
  gv_delivery_attempt :: int

section \<open>Casts\<close>

text \<open>\<open>x as i32\<close> of a \<open>u32\<close>, and \<open>x as u32\<close> of a signed integer.\<close>

definition as_i32 :: "u32 \<Rightarrow> int" where
  "as_i32 w = sint w"

definition as_u32 :: "int \<Rightarrow> u32" where
  "as_u32 k = word_of_int k"

lemma as_u32_i32 [simp]: "as_u32 (as_i32 w) = w"
  by (simp add: as_u32_def as_i32_def)

lemma as_u32_uint [simp]: "as_u32 (uint w) = w"
  by (simp add: as_u32_def)

lemma as_i32_pos: "unat w < 2 ^ 31 \<Longrightarrow> as_i32 w = int (unat w)"
proof -
  assume "unat w < 2 ^ 31"
  then have "int (unat w) < int (2 ^ 31)" by (rule iffD2 [OF of_nat_less_iff])
  then have "uint w < 2 ^ 31" by simp
  then have "signed_take_bit 31 (uint w) = uint w"
    using uint_ge_0 [of w] by (intro signed_take_bit_int_eq_self) linarith+
  then show "as_i32 w = int (unat w)" by (simp add: as_i32_def sint_uint)
qed

section \<open>Conversions\<close>

definition field_mask_paths :: "string list option \<Rightarrow> string list" where
  "field_mask_paths upd = or_default [] upd"

definition topic_to_proto :: "topic_spec \<Rightarrow> proto_topic" where
  "topic_to_proto t =
     \<lparr>gt_name = t_name t, gt_labels = t_labels t, gt_kms_key_name = t_kms_key_name t,
      gt_schema_settings =
        (if t_schema_name t = [] then None
         else Some \<lparr>gss_schema = t_schema_name t, gss_encoding = t_schema_encoding t\<rparr>)\<rparr>"

definition topic_from_proto :: "proto_topic \<Rightarrow> grpc_status + topic_spec" where
  "topic_from_proto t =
     (if gt_name t = [] then Inl (invalid_argument ''topic name is required'')
      else
        (let (schema_name, schema_encoding) =
           (case gt_schema_settings t of Some x \<Rightarrow> (gss_schema x, gss_encoding x) | None \<Rightarrow> ([], []))
         in Inr \<lparr>t_name = gt_name t, t_labels = gt_labels t, t_kms_key_name = gt_kms_key_name t,
                 t_schema_name = schema_name, t_schema_encoding = schema_encoding\<rparr>))"

definition subscription_to_proto :: "subscription_spec \<Rightarrow> proto_subscription" where
  "subscription_to_proto x =
     \<lparr>gb_name = s_name x, gb_topic = s_topic x,
      gb_push_config = map_option (\<lambda>endpoint. \<lparr>gp_push_endpoint = endpoint, gp_attributes = s_push_attributes x\<rparr>)
        (s_push_endpoint x),
      gb_ack_deadline_seconds = as_i32 (s_ack_deadline_seconds x),
      gb_retain_acked_messages = False, gb_labels = s_labels x,
      gb_enable_message_ordering = s_enable_message_ordering x,
      gb_dead_letter_policy = map_option (\<lambda>v. \<lparr>gd_dead_letter_topic = d_topic v,
        gd_max_delivery_attempts = as_i32 (d_max_delivery_attempts v)\<rparr>) (s_dead_letter x),
      gb_retry_policy = map_option (\<lambda>v.
        \<lparr>gr_minimum_backoff = Some \<lparr>pd_seconds = uint (r_minimum_backoff_seconds v), pd_nanos = 0\<rparr>,
         gr_maximum_backoff = Some \<lparr>pd_seconds = uint (r_maximum_backoff_seconds v), pd_nanos = 0\<rparr>\<rparr>) (s_retry x),
      gb_detached = False, gb_enable_exactly_once_delivery = s_enable_exactly_once_delivery x,
      gb_filter = s_filter x\<rparr>"

text \<open>The endpoint and attributes of a push configuration, shared by two places of the code.\<close>

definition push_config_parts :: "push_config option \<Rightarrow> string option \<times> attrs" where
  "push_config_parts cfg =
     (case cfg of
        Some v \<Rightarrow> (if gp_push_endpoint v = [] then None else Some (gp_push_endpoint v), gp_attributes v)
      | None \<Rightarrow> (None, []))"

definition backoff_from_proto :: "proto_duration option \<Rightarrow> u32" where
  "backoff_from_proto d = (case d of Some x \<Rightarrow> as_u32 (max (pd_seconds x) 0) | None \<Rightarrow> 0)"

definition subscription_from_proto :: "proto_subscription \<Rightarrow> grpc_status + subscription_spec" where
  "subscription_from_proto x =
     (if gb_name x = [] then Inl (invalid_argument ''subscription name is required'')
      else if gb_topic x = [] then Inl (invalid_argument ''subscription topic is required'')
      else
        (let (push_endpoint, push_attributes) = push_config_parts (gb_push_config x) in
         Inr \<lparr>s_name = gb_name x, s_topic = gb_topic x,
              s_ack_deadline_seconds =
                (if gb_ack_deadline_seconds x \<le> 0 then 10 else as_u32 (gb_ack_deadline_seconds x)),
              s_labels = gb_labels x,
              s_enable_message_ordering = gb_enable_message_ordering x,
              s_enable_exactly_once_delivery = gb_enable_exactly_once_delivery x,
              s_dead_letter = map_option (\<lambda>v. \<lparr>d_topic = gd_dead_letter_topic v,
                d_max_delivery_attempts = as_u32 (max (gd_max_delivery_attempts v) 5)\<rparr>) (gb_dead_letter_policy x),
              s_retry = map_option (\<lambda>v.
                \<lparr>r_minimum_backoff_seconds = backoff_from_proto (gr_minimum_backoff v),
                 r_maximum_backoff_seconds = backoff_from_proto (gr_maximum_backoff v)\<rparr>) (gb_retry_policy x),
              s_push_endpoint = push_endpoint, s_push_attributes = push_attributes,
              s_filter = gb_filter x\<rparr>))"

text \<open>A point in time as whole seconds and the nanoseconds after them, and back.\<close>

definition proto_time :: "time \<Rightarrow> proto_timestamp" where
  "proto_time t = \<lparr>pt_seconds = t div 1000000000, pt_nanos = t mod 1000000000\<rparr>"

definition timestamp_to_datetime :: "(int \<Rightarrow> bool) \<Rightarrow> proto_timestamp \<Rightarrow> grpc_status + time" where
  "timestamp_to_datetime in_range ts =
     (if pt_nanos ts < 0 \<or> 1000000000 \<le> pt_nanos ts then Inl (invalid_argument ''invalid timestamp nanos'')
      else if in_range (pt_seconds ts) then Inr (pt_seconds ts * 1000000000 + pt_nanos ts)
      else Inl (invalid_argument ''invalid timestamp''))"

definition snapshot_to_proto :: "snapshot_spec \<Rightarrow> proto_snapshot" where
  "snapshot_to_proto x =
     \<lparr>gn_name = sn_name x, gn_topic = sn_topic x, gn_expire_time = Some (proto_time (sn_expire_time x)),
      gn_labels = sn_labels x\<rparr>"

definition snapshot_from_proto :: "(int \<Rightarrow> bool) \<Rightarrow> time \<Rightarrow> proto_snapshot \<Rightarrow> grpc_status + snapshot_spec" where
  "snapshot_from_proto in_range now x =
     (if gn_name x = [] then Inl (invalid_argument ''snapshot name is required'')
      else
        (case (case gn_expire_time x of Some ts \<Rightarrow> timestamp_to_datetime in_range ts | None \<Rightarrow> Inr now) of
           Inl st \<Rightarrow> Inl st
         | Inr expire_time \<Rightarrow>
             Inr \<lparr>sn_name = gn_name x, sn_topic = gn_topic x, sn_expire_time = expire_time,
                  sn_labels = gn_labels x, sn_topic_index = 0\<rparr>))"

definition schema_type_to_proto :: "string \<Rightarrow> int" where
  "schema_type_to_proto v = (if v = ''PROTOCOL_BUFFER'' then 1 else if v = ''AVRO'' then 2 else 0)"

definition schema_type_from_proto :: "int \<Rightarrow> string" where
  "schema_type_from_proto k =
     (if k = 1 then ''PROTOCOL_BUFFER'' else if k = 2 then ''AVRO'' else ''UNSPECIFIED'')"

definition schema_to_proto :: "schema_spec \<Rightarrow> proto_schema" where
  "schema_to_proto x =
     \<lparr>gc_name = sc_name x, gc_type = schema_type_to_proto (sc_schema_type x), gc_definition = sc_definition x\<rparr>"

definition schema_from_proto :: "proto_schema \<Rightarrow> grpc_status + schema_spec" where
  "schema_from_proto x =
     (if gc_name x = [] then Inl (invalid_argument ''schema name is required'')
      else Inr \<lparr>sc_name = gc_name x, sc_schema_type = schema_type_from_proto (gc_type x),
                sc_definition = gc_definition x\<rparr>)"

definition policy_to_proto :: "iam_policy \<Rightarrow> proto_policy" where
  "policy_to_proto p =
     \<lparr>gl_version = p_version p,
      gl_bindings = map (\<lambda>b. \<lparr>gi_role = b_role b, gi_members = b_members b\<rparr>) (p_bindings p),
      gl_etag = p_etag p\<rparr>"

definition policy_from_proto :: "proto_policy \<Rightarrow> iam_policy" where
  "policy_from_proto p =
     \<lparr>p_version = gl_version p,
      p_bindings = map (\<lambda>b. \<lparr>b_role = gi_role b, b_members = gi_members b\<rparr>) (gl_bindings p),
      p_etag = gl_etag p\<rparr>"

definition delivery_to_proto :: "delivery \<Rightarrow> received_message" where
  "delivery_to_proto d =
     \<lparr>gv_ack_id = dv_ack_id d,
      gv_message = Some
        \<lparr>gm_data = m_data (dv_message d), gm_attributes = m_attributes (dv_message d),
         gm_message_id = m_id (dv_message d),
         gm_publish_time = Some (proto_time (m_published_at (dv_message d))),
         gm_ordering_key = m_ordering_key (dv_message d)\<rparr>,
      gv_delivery_attempt = as_i32 (dv_delivery_attempt d)\<rparr>"

definition message_from_proto :: "pubsub_message \<Rightarrow> new_message" where
  "message_from_proto m =
     \<lparr>n_data = gm_data m, n_attributes = gm_attributes m, n_ordering_key = gm_ordering_key m,
      n_message_id = gm_message_id m\<rparr>"

section \<open>Reading back what was written\<close>

lemma proto_time_back:
  "in_range (t div 1000000000) \<Longrightarrow> timestamp_to_datetime in_range (proto_time t) = Inr t"
  by (simp add: timestamp_to_datetime_def proto_time_def not_le not_less)

lemma topic_proto_back:
  assumes "t_name t \<noteq> []"
  shows "topic_from_proto (topic_to_proto t) =
    Inr (if t_schema_name t = [] then t\<lparr>t_schema_encoding := []\<rparr> else t)"
  using assms by (simp add: topic_from_proto_def topic_to_proto_def)

lemma snapshot_proto_back:
  assumes "sn_name x \<noteq> []" "in_range (sn_expire_time x div 1000000000)"
  shows "snapshot_from_proto in_range now (snapshot_to_proto x) = Inr (x\<lparr>sn_topic_index := 0\<rparr>)"
  using assms by (simp add: snapshot_from_proto_def snapshot_to_proto_def proto_time_back)

lemma schema_proto_back:
  assumes "sc_name x \<noteq> []" "sc_schema_type x \<in> {''PROTOCOL_BUFFER'', ''AVRO'', ''UNSPECIFIED''}"
  shows "schema_from_proto (schema_to_proto x) = Inr x"
  using assms by (auto simp: schema_from_proto_def schema_to_proto_def schema_type_to_proto_def
      schema_type_from_proto_def)

lemma policy_proto_back: "policy_from_proto (policy_to_proto p) = p"
  by (simp add: policy_from_proto_def policy_to_proto_def map_idI)

text \<open>
  A subscription comes back as it was, but for push attributes without an endpoint, an
  empty endpoint, and fewer than five delivery attempts; its deadline has to be one.
\<close>

definition proto_normal :: "subscription_spec \<Rightarrow> subscription_spec" where
  "proto_normal x = x\<lparr>
     s_dead_letter := map_option (\<lambda>v. v\<lparr>d_max_delivery_attempts :=
       (if as_i32 (d_max_delivery_attempts v) < 5 then 5 else d_max_delivery_attempts v)\<rparr>) (s_dead_letter x),
     s_push_endpoint := (if s_push_endpoint x = Some [] then None else s_push_endpoint x),
     s_push_attributes := (if s_push_endpoint x = None then [] else s_push_attributes x)\<rparr>"

lemma subscription_proto_back:
  assumes "s_name x \<noteq> []" "s_topic x \<noteq> []" "0 < as_i32 (s_ack_deadline_seconds x)"
  shows "subscription_from_proto (subscription_to_proto x) = Inr (proto_normal x)"
proof -
  have att: "as_u32 (max (as_i32 w) 5) = (if as_i32 w < 5 then 5 else w)" for w
    by (auto simp: max_def) (simp add: as_u32_def)
  have roundtrip: "backoff_from_proto (Some \<lparr>pd_seconds = uint w, pd_nanos = 0\<rparr>) = w" for w
    by (simp add: backoff_from_proto_def)
  show ?thesis
    using assms
    by (cases "s_push_endpoint x"; cases "s_dead_letter x"; cases "s_retry x")
      (auto simp: subscription_from_proto_def subscription_to_proto_def push_config_parts_def proto_normal_def
        att roundtrip not_le)
qed

end
