(* ===== verification/Grpc_Api.thy ===== *)
theory Grpc_Api
  imports Grpc_Convert
begin

text \<open>
  The unary calls of \<open>src/grpc.rs\<close>: the services \<open>Publisher\<close>, \<open>Subscriber\<close> and
  \<open>SchemaService\<close> over any backend. The fields of a request message are the arguments
  of its handler. The reading and writing of the wire format and the choice of the handler
  are the generated server's; what the calls count is in theory \<open>Metrics\<close>.
\<close>

section \<open>Results\<close>

text \<open>\<open>Result<Response<T>, Status>\<close>, and the panic of the handler.\<close>

datatype 'a rpc = RpcOk 'a | RpcErr grpc_status | RpcPanic

text \<open>What a handler has besides its message: the service with its backend, the metadata, the outside world.\<close>

record ('key, 's) rpc_ctx =
  gx_backend :: "'s relay_backend"
  gx_auth :: "auth_config option"
  gx_oidc :: "'key oidc"
  gx_header :: "string option"
  gx_cache :: jwks_cache
  gx_env :: env
  gx_in_range :: "int \<Rightarrow> bool"

type_synonym ('a, 's) outcome = "'a rpc \<times> jwks_cache \<times> 's"

definition grpc_authorize :: "('key, 's) rpc_ctx \<Rightarrow> string \<Rightarrow> (grpc_status + unit) \<times> jwks_cache" where
  "grpc_authorize c resource =
     (case gx_auth c of
        None \<Rightarrow> (Inr (), gx_cache c)
      | Some auth \<Rightarrow>
          (case authenticate_bearer auth (gx_oidc c) (gx_header c) (gx_cache c) of
             (Inl message, cache') \<Rightarrow> (Inl (status Code_Unauthenticated message), cache')
           | (Inr ctx, cache') \<Rightarrow>
               (case authorize_resource ctx resource of
                  Inl message \<Rightarrow> (Inl (status Code_PermissionDenied message), cache')
                | Inr _ \<Rightarrow> (Inr (), cache'))))"

text \<open>\<open>self.authorize(..).await?\<close> and what follows it.\<close>

definition authorized ::
  "('key, 's) rpc_ctx \<Rightarrow> string \<Rightarrow> 'a rpc \<times> 's \<Rightarrow> 's \<Rightarrow> ('a, 's) outcome" where
  "authorized c resource rest s =
     (case grpc_authorize c resource of
        (Inl st, cache') \<Rightarrow> (RpcErr st, cache', s)
      | (Inr _, cache') \<Rightarrow> (fst rest, cache', snd rest))"

text \<open>The match on the backend's result that ends the handlers.\<close>

definition finish :: "('a \<Rightarrow> 'b) \<Rightarrow> 'a res \<times> 's \<Rightarrow> 'b rpc \<times> 's" where
  "finish f r =
     ((case fst r of Ok x \<Rightarrow> RpcOk (f x) | Err e \<Rightarrow> RpcErr (backend_status e) | Panic \<Rightarrow> RpcPanic), snd r)"

definition refuse :: "string \<Rightarrow> 's \<Rightarrow> 'a rpc \<times> 's" where
  "refuse message s = (RpcErr (invalid_argument message), s)"

text \<open>The \<open>?\<close> after a conversion.\<close>

definition converted :: "grpc_status + 'a \<Rightarrow> ('a \<Rightarrow> 'b rpc \<times> 's) \<Rightarrow> 's \<Rightarrow> 'b rpc \<times> 's" where
  "converted r k s = (case r of Inl st \<Rightarrow> (RpcErr st, s) | Inr x \<Rightarrow> k x)"

definition page_to_proto :: "('a \<Rightarrow> 'b) \<Rightarrow> 'a page \<Rightarrow> 'b page" where
  "page_to_proto f p = \<lparr>pg_items = map f (pg_items p), pg_next_page_token = pg_next_page_token p\<rparr>"

section \<open>Publisher\<close>

definition rpc_create_topic :: "('key, 's) rpc_ctx \<Rightarrow> proto_topic \<Rightarrow> 's \<Rightarrow> (proto_topic, 's) outcome" where
  "rpc_create_topic c t s =
     authorized c (gt_name t)
       (converted (topic_from_proto t) (\<lambda>spec. finish topic_to_proto (b_create_topic (gx_backend c) (gx_env c) spec s)) s) s"

definition rpc_update_topic ::
  "('key, 's) rpc_ctx \<Rightarrow> proto_topic option \<Rightarrow> string list option \<Rightarrow> 's \<Rightarrow> (proto_topic, 's) outcome" where
  "rpc_update_topic c topic upd s =
     (case topic of
        None \<Rightarrow> (RpcErr (invalid_argument ''topic is required''), gx_cache c, s)
      | Some t \<Rightarrow>
          authorized c (gt_name t)
            (converted (topic_from_proto t)
               (\<lambda>spec. finish topic_to_proto (b_update_topic (gx_backend c) (gx_env c) spec (field_mask_paths upd) s)) s) s)"

definition rpc_get_topic :: "('key, 's) rpc_ctx \<Rightarrow> string \<Rightarrow> 's \<Rightarrow> (proto_topic, 's) outcome" where
  "rpc_get_topic c topic s = authorized c topic (finish topic_to_proto (b_get_topic (gx_backend c) (gx_env c) topic s)) s"

definition rpc_list_topics ::
  "('key, 's) rpc_ctx \<Rightarrow> string \<Rightarrow> int \<Rightarrow> string \<Rightarrow> 's \<Rightarrow> (proto_topic page, 's) outcome" where
  "rpc_list_topics c project page_size page_token s =
     authorized c project
       (finish (page_to_proto topic_to_proto) (b_list_topics (gx_backend c) (gx_env c) project page_size page_token s)) s"

definition rpc_list_topic_subscriptions ::
  "('key, 's) rpc_ctx \<Rightarrow> string \<Rightarrow> int \<Rightarrow> string \<Rightarrow> 's \<Rightarrow> (string page, 's) outcome" where
  "rpc_list_topic_subscriptions c topic page_size page_token s =
     authorized c topic
       (finish (\<lambda>p. p) (b_list_topic_subscriptions (gx_backend c) (gx_env c) topic page_size page_token s)) s"

definition rpc_delete_topic :: "('key, 's) rpc_ctx \<Rightarrow> string \<Rightarrow> 's \<Rightarrow> (unit, 's) outcome" where
  "rpc_delete_topic c topic s = authorized c topic (finish (\<lambda>u. u) (b_delete_topic (gx_backend c) (gx_env c) topic s)) s"

definition rpc_publish ::
  "('key, 's) rpc_ctx \<Rightarrow> string \<Rightarrow> pubsub_message list \<Rightarrow> 's \<Rightarrow> (string list, 's) outcome" where
  "rpc_publish c topic messages s =
     authorized c topic
       (if messages = [] then refuse ''at least one message is required'' s
        else finish (\<lambda>message_ids. message_ids)
          (b_publish (gx_backend c) (gx_env c) topic (map message_from_proto messages) s)) s"

definition rpc_get_iam_policy :: "('key, 's) rpc_ctx \<Rightarrow> string \<Rightarrow> 's \<Rightarrow> (proto_policy, 's) outcome" where
  "rpc_get_iam_policy c resource s =
     authorized c resource (finish policy_to_proto (b_get_iam_policy (gx_backend c) (gx_env c) resource s)) s"

definition rpc_set_iam_policy ::
  "('key, 's) rpc_ctx \<Rightarrow> string \<Rightarrow> proto_policy option \<Rightarrow> 's \<Rightarrow> (proto_policy, 's) outcome" where
  "rpc_set_iam_policy c resource policy s =
     authorized c resource
       (case policy of
          None \<Rightarrow> refuse ''policy is required'' s
        | Some p \<Rightarrow> finish policy_to_proto (b_set_iam_policy (gx_backend c) (gx_env c) resource (policy_from_proto p) s)) s"

definition rpc_test_iam_permissions ::
  "('key, 's) rpc_ctx \<Rightarrow> string \<Rightarrow> string list \<Rightarrow> 's \<Rightarrow> (string list, 's) outcome" where
  "rpc_test_iam_permissions c resource permissions s =
     authorized c resource (finish (\<lambda>granted. granted) (b_test_iam_permissions (gx_backend c) (gx_env c) resource permissions s)) s"

section \<open>Subscriber\<close>

definition rpc_create_subscription ::
  "('key, 's) rpc_ctx \<Rightarrow> proto_subscription \<Rightarrow> 's \<Rightarrow> (proto_subscription, 's) outcome" where
  "rpc_create_subscription c x s =
     authorized c (gb_name x)
       (converted (subscription_from_proto x)
          (\<lambda>spec. finish subscription_to_proto (b_create_subscription (gx_backend c) (gx_env c) spec s)) s) s"

definition rpc_update_subscription ::
  "('key, 's) rpc_ctx \<Rightarrow> proto_subscription option \<Rightarrow> string list option \<Rightarrow> 's \<Rightarrow> (proto_subscription, 's) outcome" where
  "rpc_update_subscription c subscription upd s =
     (case subscription of
        None \<Rightarrow> (RpcErr (invalid_argument ''subscription is required''), gx_cache c, s)
      | Some x \<Rightarrow>
          authorized c (gb_name x)
            (converted (subscription_from_proto x)
               (\<lambda>spec. finish subscription_to_proto
                  (b_update_subscription (gx_backend c) (gx_env c) spec (field_mask_paths upd) s)) s) s)"

definition rpc_get_subscription :: "('key, 's) rpc_ctx \<Rightarrow> string \<Rightarrow> 's \<Rightarrow> (proto_subscription, 's) outcome" where
  "rpc_get_subscription c subscription s =
     authorized c subscription (finish subscription_to_proto (b_get_subscription (gx_backend c) (gx_env c) subscription s)) s"

definition rpc_list_subscriptions ::
  "('key, 's) rpc_ctx \<Rightarrow> string \<Rightarrow> int \<Rightarrow> string \<Rightarrow> 's \<Rightarrow> (proto_subscription page, 's) outcome" where
  "rpc_list_subscriptions c project page_size page_token s =
     authorized c project
       (finish (page_to_proto subscription_to_proto) (b_list_subscriptions (gx_backend c) (gx_env c) project page_size page_token s)) s"

definition rpc_delete_subscription :: "('key, 's) rpc_ctx \<Rightarrow> string \<Rightarrow> 's \<Rightarrow> (unit, 's) outcome" where
  "rpc_delete_subscription c subscription s =
     authorized c subscription (finish (\<lambda>u. u) (b_delete_subscription (gx_backend c) (gx_env c) subscription s)) s"

definition rpc_modify_push_config ::
  "('key, 's) rpc_ctx \<Rightarrow> string \<Rightarrow> push_config option \<Rightarrow> 's \<Rightarrow> (unit, 's) outcome" where
  "rpc_modify_push_config c subscription cfg s =
     authorized c subscription
       (let (push_endpoint, push_attributes) = push_config_parts cfg in
        finish (\<lambda>u. u) (b_modify_push_config (gx_backend c) (gx_env c) subscription push_endpoint push_attributes s)) s"

definition rpc_pull :: "('key, 's) rpc_ctx \<Rightarrow> string \<Rightarrow> int \<Rightarrow> 's \<Rightarrow> (received_message list, 's) outcome" where
  "rpc_pull c subscription max_messages s =
     authorized c subscription
       (finish (map delivery_to_proto)
          (b_pull (gx_backend c) (gx_env c) subscription (as_u32 (max max_messages 1)) s)) s"

definition rpc_acknowledge :: "('key, 's) rpc_ctx \<Rightarrow> string \<Rightarrow> string list \<Rightarrow> 's \<Rightarrow> (unit, 's) outcome" where
  "rpc_acknowledge c subscription ack_ids s =
     authorized c subscription (finish (\<lambda>u. u) (b_acknowledge (gx_backend c) (gx_env c) subscription ack_ids s)) s"

definition rpc_modify_ack_deadline ::
  "('key, 's) rpc_ctx \<Rightarrow> string \<Rightarrow> string list \<Rightarrow> int \<Rightarrow> 's \<Rightarrow> (unit, 's) outcome" where
  "rpc_modify_ack_deadline c subscription ack_ids secs s =
     authorized c subscription
       (if \<not> (0 \<le> secs \<and> secs \<le> 600) then refuse ''ack_deadline_seconds must be between 0 and 600'' s
        else finish (\<lambda>u. u) (b_modify_ack_deadline (gx_backend c) (gx_env c) subscription ack_ids (as_u32 secs) s)) s"

datatype seek_target = Target_Time proto_timestamp | Target_Snapshot string

definition rpc_seek :: "('key, 's) rpc_ctx \<Rightarrow> string \<Rightarrow> seek_target option \<Rightarrow> 's \<Rightarrow> (unit, 's) outcome" where
  "rpc_seek c subscription target s =
     authorized c subscription
       (case target of
          None \<Rightarrow> refuse ''seek target is required'' s
        | Some (Target_Time ts) \<Rightarrow>
            converted (timestamp_to_datetime (gx_in_range c) ts)
              (\<lambda>t. finish (\<lambda>u. u) (b_seek_to_time (gx_backend c) (gx_env c) subscription t s)) s
        | Some (Target_Snapshot snapshot) \<Rightarrow>
            finish (\<lambda>u. u) (b_seek_to_snapshot (gx_backend c) (gx_env c) subscription snapshot s)) s"

definition rpc_create_snapshot ::
  "('key, 's) rpc_ctx \<Rightarrow> string \<Rightarrow> string \<Rightarrow> attrs \<Rightarrow> 's \<Rightarrow> (proto_snapshot, 's) outcome" where
  "rpc_create_snapshot c name subscription labels s =
     authorized c name
       (finish snapshot_to_proto (b_create_snapshot (gx_backend c) (gx_env c) name subscription labels s)) s"

definition rpc_update_snapshot ::
  "('key, 's) rpc_ctx \<Rightarrow> proto_snapshot option \<Rightarrow> string list option \<Rightarrow> 's \<Rightarrow> (proto_snapshot, 's) outcome" where
  "rpc_update_snapshot c snapshot upd s =
     (case snapshot of
        None \<Rightarrow> (RpcErr (invalid_argument ''snapshot is required''), gx_cache c, s)
      | Some x \<Rightarrow>
          authorized c (gn_name x)
            (converted (snapshot_from_proto (gx_in_range c) (e_now (gx_env c)) x)
               (\<lambda>spec. finish snapshot_to_proto (b_update_snapshot (gx_backend c) (gx_env c) spec (field_mask_paths upd) s)) s) s)"

definition rpc_get_snapshot :: "('key, 's) rpc_ctx \<Rightarrow> string \<Rightarrow> 's \<Rightarrow> (proto_snapshot, 's) outcome" where
  "rpc_get_snapshot c snapshot s =
     authorized c snapshot (finish snapshot_to_proto (b_get_snapshot (gx_backend c) (gx_env c) snapshot s)) s"

definition rpc_list_snapshots ::
  "('key, 's) rpc_ctx \<Rightarrow> string \<Rightarrow> int \<Rightarrow> string \<Rightarrow> 's \<Rightarrow> (proto_snapshot page, 's) outcome" where
  "rpc_list_snapshots c project page_size page_token s =
     authorized c project
       (finish (page_to_proto snapshot_to_proto) (b_list_snapshots (gx_backend c) (gx_env c) project page_size page_token s)) s"

definition rpc_delete_snapshot :: "('key, 's) rpc_ctx \<Rightarrow> string \<Rightarrow> 's \<Rightarrow> (unit, 's) outcome" where
  "rpc_delete_snapshot c snapshot s =
     authorized c snapshot (finish (\<lambda>u. u) (b_delete_snapshot (gx_backend c) (gx_env c) snapshot s)) s"

text \<open>The policy calls of \<open>Subscriber\<close> are those of \<open>Publisher\<close>, word for word.\<close>

text \<open>The service of the subscribers has the three calls on policies again, with the same bodies.\<close>

definition subscriber_get_iam_policy :: "('key, 's) rpc_ctx \<Rightarrow> string \<Rightarrow> 's \<Rightarrow> (proto_policy, 's) outcome" where
  "subscriber_get_iam_policy = rpc_get_iam_policy"

definition subscriber_set_iam_policy ::
  "('key, 's) rpc_ctx \<Rightarrow> string \<Rightarrow> proto_policy option \<Rightarrow> 's \<Rightarrow> (proto_policy, 's) outcome" where
  "subscriber_set_iam_policy = rpc_set_iam_policy"

definition subscriber_test_iam_permissions ::
  "('key, 's) rpc_ctx \<Rightarrow> string \<Rightarrow> string list \<Rightarrow> 's \<Rightarrow> (string list, 's) outcome" where
  "subscriber_test_iam_permissions = rpc_test_iam_permissions"

section \<open>SchemaService\<close>

definition rpc_create_schema ::
  "('key, 's) rpc_ctx \<Rightarrow> string \<Rightarrow> proto_schema option \<Rightarrow> string \<Rightarrow> 's \<Rightarrow> (proto_schema, 's) outcome" where
  "rpc_create_schema c parent schema schema_id s =
     authorized c parent
       (case schema of
          None \<Rightarrow> refuse ''schema is required'' s
        | Some x \<Rightarrow>
            if gc_name x = [] \<and> schema_id = [] then refuse ''schema_id is required when schema.name is empty'' s
            else
              (let x' = (if gc_name x = []
                         then x\<lparr>gc_name := trim_end_matches ''/'' parent @ ''/schemas/'' @ schema_id\<rparr> else x)
               in converted (schema_from_proto x')
                    (\<lambda>spec. finish schema_to_proto (b_create_schema (gx_backend c) (gx_env c) spec s)) s)) s"

definition rpc_get_schema :: "('key, 's) rpc_ctx \<Rightarrow> string \<Rightarrow> 's \<Rightarrow> (proto_schema, 's) outcome" where
  "rpc_get_schema c name s = authorized c name (finish schema_to_proto (b_get_schema (gx_backend c) (gx_env c) name s)) s"

definition rpc_list_schemas ::
  "('key, 's) rpc_ctx \<Rightarrow> string \<Rightarrow> int \<Rightarrow> string \<Rightarrow> 's \<Rightarrow> (proto_schema page, 's) outcome" where
  "rpc_list_schemas c parent page_size page_token s =
     authorized c parent
       (finish (page_to_proto schema_to_proto) (b_list_schemas (gx_backend c) (gx_env c) parent page_size page_token s)) s"

definition rpc_delete_schema :: "('key, 's) rpc_ctx \<Rightarrow> string \<Rightarrow> 's \<Rightarrow> (unit, 's) outcome" where
  "rpc_delete_schema c name s = authorized c name (finish (\<lambda>u. u) (b_delete_schema (gx_backend c) (gx_env c) name s)) s"

definition rpc_validate_schema ::
  "('key, 's) rpc_ctx \<Rightarrow> string \<Rightarrow> proto_schema option \<Rightarrow> 's \<Rightarrow> (unit, 's) outcome" where
  "rpc_validate_schema c parent schema s =
     authorized c parent
       (case schema of
          None \<Rightarrow> refuse ''schema is required'' s
        | Some x \<Rightarrow>
            converted (schema_from_proto x)
              (\<lambda>spec. finish (\<lambda>u. u) (b_validate_schema (gx_backend c) (gx_env c) spec s)) s) s"

datatype message_schema = Spec_Name string | Spec_Schema proto_schema

definition rpc_validate_message ::
  "('key, 's) rpc_ctx \<Rightarrow> string \<Rightarrow> message_schema option \<Rightarrow> bytes \<Rightarrow> 's \<Rightarrow> (unit, 's) outcome" where
  "rpc_validate_message c parent spec message s =
     authorized c parent
       (case spec of
          None \<Rightarrow> refuse ''schema_spec is required'' s
        | Some (Spec_Name name) \<Rightarrow>
            finish (\<lambda>u. u) (b_validate_message (gx_backend c) (gx_env c) (Some name) None message s)
        | Some (Spec_Schema x) \<Rightarrow>
            converted (schema_from_proto x)
              (\<lambda>sc. finish (\<lambda>u. u) (b_validate_message (gx_backend c) (gx_env c) None (Some sc) message s)) s) s"

end
