(* ===== verification/Rest_Correct.thy ===== *)
theory Rest_Correct
  imports Rest_Admin
begin

text \<open>
  What the HTTP surface does to its backend: every routed request is at most one operation
  of the backend, and nothing is routed before the caller is authorized.
\<close>

section \<open>Each route is one operation of the backend\<close>

text \<open>The answer to a request and the state after it are those of one operation.\<close>

definition performs :: "'s relay_backend \<Rightarrow> env \<Rightarrow> operation \<Rightarrow> 's \<Rightarrow> http_reply res \<times> 's \<Rightarrow> bool" where
  "performs bk e op s out =
     (snd out = snd (bk_run bk e op s) \<and>
      (case fst (bk_run bk e op s) of
         Ok _ \<Rightarrow> \<exists>v. fst out = Ok (json_reply 200 v)
       | Err err \<Rightarrow> fst out = Ok (backend_error_reply err)
       | Panic \<Rightarrow> fst out = Panic))"

definition served :: "'s relay_backend \<Rightarrow> env \<Rightarrow> 's \<Rightarrow> http_reply res \<times> 's \<Rightarrow> bool" where
  "served bk e s out = ((\<exists>r. out = (Ok r, s)) \<or> (\<exists>op. performs bk e op s out))"

lemma served_reply [intro, simp]: "served bk e s (Ok r, s)"
  by (auto simp: served_def)

lemma served_operation: "bk_run bk e op s = forget q \<Longrightarrow> served bk e s (answer f q)"
  by (cases "fst q") (auto simp: served_def performs_def answer_def forget_def intro!: exI [of _ op])

lemma served_operations [simp]:
  "served bk e s (answer f0 (b_create_topic bk e t s))"
  "served bk e s (answer f1 (b_update_topic bk e t u s))"
  "served bk e s (answer f2 (b_delete_topic bk e n s))"
  "served bk e s (answer f3 (b_create_subscription bk e x s))"
  "served bk e s (answer f4 (b_update_subscription bk e x u s))"
  "served bk e s (answer f5 (b_delete_subscription bk e n s))"
  "served bk e s (answer f6 (b_modify_push_config bk e n ep a s))"
  "served bk e s (answer f7 (b_publish bk e n ms s))"
  "served bk e s (answer f8 (b_pull bk e n m s))"
  "served bk e s (answer f9 (b_acknowledge bk e n ks s))"
  "served bk e s (answer f10 (b_modify_ack_deadline bk e n ks m s))"
  "served bk e s (answer f11 (b_seek_to_time bk e n i s))"
  "served bk e s (answer f12 (b_seek_to_snapshot bk e n n' s))"
  "served bk e s (answer f13 (b_create_snapshot bk e n n' a s))"
  "served bk e s (answer f14 (b_update_snapshot bk e z u s))"
  "served bk e s (answer f15 (b_delete_snapshot bk e n s))"
  "served bk e s (answer f16 (b_set_iam_policy bk e n p s))"
  "served bk e s (answer f17 (b_create_schema bk e c s))"
  "served bk e s (answer f18 (b_delete_schema bk e n s))"
  "served bk e s (answer f19 (b_get_topic bk e n s))"
  "served bk e s (answer f20 (b_list_topics bk e n k tok s))"
  "served bk e s (answer f21 (b_list_topic_subscriptions bk e n k tok s))"
  "served bk e s (answer f22 (b_get_subscription bk e n s))"
  "served bk e s (answer f23 (b_list_subscriptions bk e n k tok s))"
  "served bk e s (answer f24 (b_get_snapshot bk e n s))"
  "served bk e s (answer f25 (b_list_snapshots bk e n k tok s))"
  "served bk e s (answer f26 (b_get_iam_policy bk e n s))"
  "served bk e s (answer f27 (b_test_iam_permissions bk e n u s))"
  "served bk e s (answer f28 (b_get_schema bk e n s))"
  "served bk e s (answer f29 (b_list_schemas bk e n k tok s))"
  "served bk e s (answer f30 (b_validate_schema bk e c s))"
  "served bk e s (answer f31 (b_validate_message bk e o1 o2 n s))"
  "served bk e s (answer f32 (b_inventory bk e n s))"
  subgoal by (rule served_operation [where op = "Do (CreateTopic t)"]) simp
  subgoal by (rule served_operation [where op = "Do (UpdateTopic t u)"]) simp
  subgoal by (rule served_operation [where op = "Do (DeleteTopic n)"]) simp
  subgoal by (rule served_operation [where op = "Do (CreateSubscription x)"]) simp
  subgoal by (rule served_operation [where op = "Do (UpdateSubscription x u)"]) simp
  subgoal by (rule served_operation [where op = "Do (DeleteSubscription n)"]) simp
  subgoal by (rule served_operation [where op = "Do (ModifyPushConfig n ep a)"]) simp
  subgoal by (rule served_operation [where op = "Do (Publish n ms)"]) simp
  subgoal by (rule served_operation [where op = "Do (Pull n m)"]) simp
  subgoal by (rule served_operation [where op = "Do (Acknowledge n ks)"]) simp
  subgoal by (rule served_operation [where op = "Do (ModifyAckDeadline n ks m)"]) simp
  subgoal by (rule served_operation [where op = "Do (SeekToTime n i)"]) simp
  subgoal by (rule served_operation [where op = "Do (SeekToSnapshot n n')"]) simp
  subgoal by (rule served_operation [where op = "Do (CreateSnapshot n n' a)"]) simp
  subgoal by (rule served_operation [where op = "Do (UpdateSnapshot z u)"]) simp
  subgoal by (rule served_operation [where op = "Do (DeleteSnapshot n)"]) simp
  subgoal by (rule served_operation [where op = "Do (SetIamPolicy n p)"]) simp
  subgoal by (rule served_operation [where op = "Do (CreateSchema c)"]) simp
  subgoal by (rule served_operation [where op = "Do (DeleteSchema n)"]) simp
  subgoal by (rule served_operation [where op = "Ask (GetTopic n)"]) simp
  subgoal by (rule served_operation [where op = "Ask (ListTopics n k tok)"]) simp
  subgoal by (rule served_operation [where op = "Ask (ListTopicSubscriptions n k tok)"]) simp
  subgoal by (rule served_operation [where op = "Ask (GetSubscription n)"]) simp
  subgoal by (rule served_operation [where op = "Ask (ListSubscriptions n k tok)"]) simp
  subgoal by (rule served_operation [where op = "Ask (GetSnapshot n)"]) simp
  subgoal by (rule served_operation [where op = "Ask (ListSnapshots n k tok)"]) simp
  subgoal by (rule served_operation [where op = "Ask (GetIamPolicy n)"]) simp
  subgoal by (rule served_operation [where op = "Ask (TestIamPermissions n u)"]) simp
  subgoal by (rule served_operation [where op = "Ask (GetSchema n)"]) simp
  subgoal by (rule served_operation [where op = "Ask (ListSchemas n k tok)"]) simp
  subgoal by (rule served_operation [where op = "Ask (ValidateSchema c)"]) simp
  subgoal by (rule served_operation [where op = "Ask (ValidateMessage o1 o2 n)"]) simp
  subgoal by (rule served_operation [where op = "Ask (Inventory n)"]) simp
  done

lemma served_methods:
  "served bk e s (handle_publish bk e lib path value s)" "served bk e s (handle_pull bk e lib path value s)"
  "served bk e s (handle_acknowledge bk e path value s)" "served bk e s (handle_modify_ack_deadline bk e path value s)"
  "served bk e s (handle_seek bk e lib path value s)" "served bk e s (handle_modify_push_config bk e path value s)"
  "served bk e s (handle_get_iam_policy bk e path s)" "served bk e s (handle_set_iam_policy bk e path value s)"
  "served bk e s (handle_test_iam_permissions bk e path value s)" "served bk e s (handle_validate_schema bk e path value s)"
  "served bk e s (handle_validate_message bk e lib path value s)"
  by (auto simp: handle_publish_def handle_pull_def handle_acknowledge_def handle_modify_ack_deadline_def
      handle_seek_def handle_modify_push_config_def handle_get_iam_policy_def handle_set_iam_policy_def
      handle_test_iam_permissions_def handle_validate_schema_def handle_validate_message_def Let_def
      split: sum.split option.split prod.split)

lemma served_resources:
  "served bk e s (topic_request bk e verb name upd value s)"
  "served bk e s (subscription_request bk e verb name upd value s)"
  "served bk e s (snapshot_request bk e lib verb name upd value s)"
  "served bk e s (schema_request bk e verb name value s)"
  by (auto simp: topic_request_def subscription_request_def snapshot_request_def schema_request_def Let_def
      split: sum.split option.split http_method.split)

lemma served_resource_request: "served bk e s (handle_resource_request bk e lib verb path query value s)"
  unfolding handle_resource_request_def Let_def
  by (simp add: served_resources)

lemma served_route: "served bk e s (route bk e lib verb path query value s)"
  unfolding route_def by (simp add: served_methods served_resource_request)

lemma served_dispatch:
  assumes "google_dispatch bk auth x e lib r cache s = (resp, cache', s')"
  shows "served bk e s (resp, s')"
proof -
  consider "\<exists>rep. (resp, s') = (Ok rep, s)"
    | body where "route bk e lib (hi_method r) (trim_start_matches ''/v1/'' (hi_path r))
        (or_default [] (hi_query r)) body s = (resp, s')"
    using assms by (auto simp: google_dispatch_def Let_def split: sum.splits prod.splits)
  then show ?thesis
  proof cases
    case (2 body)
    show ?thesis unfolding 2 [symmetric] by (rule served_route)
  qed auto
qed

text \<open>The console's endpoints.\<close>

lemma served_guarded:
  assumes "served bk e s (k ())" "guarded auth x header resource cache s k = (resp, cache', s')"
  shows "served bk e s (resp, s')"
  using assms by (auto simp: guarded_def split: prod.splits sum.splits)

lemma served_console:
  "admin_topics bk auth x header e query cache s = (resp, cache', s') \<Longrightarrow> served bk e s (resp, s')"
  "admin_subscriptions bk auth x header e query cache s = (resp, cache', s') \<Longrightarrow> served bk e s (resp, s')"
  "admin_publish bk auth x header e ap cache s = (resp, cache', s') \<Longrightarrow> served bk e s (resp, s')"
  "admin_pull bk auth x header e lib al cache s = (resp, cache', s') \<Longrightarrow> served bk e s (resp, s')"
  "admin_ack bk auth x header e aa cache s = (resp, cache', s') \<Longrightarrow> served bk e s (resp, s')"
  "admin_inventory bk auth x header e lib query cache s = (resp, cache', s') \<Longrightarrow> served bk e s (resp, s')"
  "admin_push_config bk auth x header e ac cache s = (resp, cache', s') \<Longrightarrow> served bk e s (resp, s')"
  by (auto simp: admin_topics_def admin_subscriptions_def admin_publish_def admin_pull_def admin_ack_def
      admin_inventory_def admin_push_config_def Let_def elim!: served_guarded [rotated])

section \<open>Over a backend that answers\<close>

context answering_backend
begin

lemma served_answers:
  assumes "ok s" "fine e s" "served bk e s (resp, s')"
  shows "(\<exists>rep. resp = Ok rep) \<and>
    (s' = s \<or>
     (\<exists>op. s' = snd (bk_run bk e op s) \<and>
       (case fst (bk_run bk e op s) of
          Ok _ \<Rightarrow> \<exists>v. resp = Ok (json_reply 200 v)
        | Err err \<Rightarrow> resp = Ok (backend_error_reply err)
        | Panic \<Rightarrow> False)))"
  using assms(3) unfolding served_def
proof (elim disjE exE)
  fix rep
  assume "(resp, s') = (Ok rep, s)"
  then show ?thesis by simp
next
  fix op
  assume p: "performs bk e op s (resp, s')"
  then have c: "case fst (bk_run bk e op s) of
        Ok _ \<Rightarrow> \<exists>v. resp = Ok (json_reply 200 v)
      | Err err \<Rightarrow> resp = Ok (backend_error_reply err)
      | Panic \<Rightarrow> False"
    using answers [OF assms(1,2), of op] by (cases "fst (bk_run bk e op s)") (simp_all add: performs_def)
  then have "\<exists>rep. resp = Ok rep" by (cases "fst (bk_run bk e op s)") auto
  moreover have "s' = snd (bk_run bk e op s)" using p by (simp add: performs_def)
  ultimately show ?thesis using c by blast
qed

lemma dispatch_answers:
  assumes "ok s" "fine e s" "google_dispatch bk auth x e lib r cache s = (resp, cache', s')"
  shows "\<exists>rep. resp = Ok rep"
  using served_answers [OF assms(1,2) served_dispatch [OF assms(3)]] by blast

end

section \<open>Nothing is routed before authorization\<close>

lemma authorizeD:
  assumes "authorize (Some auth) x header resource cache = (Inr u, cache')"
  shows "\<exists>ctx. authenticate_bearer auth x header cache = (Inr ctx, cache') \<and>
    authorize_resource ctx resource = Inr ()"
  using assms by (auto simp: authorize_def split: prod.splits sum.splits)

lemma dispatch_changed:
  assumes "google_dispatch bk (Some auth) x e lib r cache s = (resp, cache', s')" "s' \<noteq> s"
  obtains body ctx where
    "(if hi_body r = [] then Inr (JObject []) else e_json e (hi_body r)) = Inr body"
    "authenticate_bearer auth x (hi_authorization r) cache = (Inr ctx, cache')"
    "authorize_resource ctx (auth_resource_for_path (trim_start_matches ''/v1/'' (hi_path r)) body) = Inr ()"
    "(resp, s') = route bk e lib (hi_method r) (trim_start_matches ''/v1/'' (hi_path r))
       (or_default [] (hi_query r)) body s"
proof -
  obtain body where v: "(if hi_body r = [] then Inr (JObject []) else e_json e (hi_body r)) = Inr body"
    using assms by (cases "if hi_body r = [] then Inr (JObject []) else e_json e (hi_body r)")
      (auto simp: google_dispatch_def)
  obtain a c1 where a: "authorize (Some auth) x (hi_authorization r)
      (auth_resource_for_path (trim_start_matches ''/v1/'' (hi_path r)) body) cache = (a, c1)"
    by (metis surj_pair)
  then have "a = Inr () \<and> c1 = cache' \<and> (resp, s') = route bk e lib (hi_method r) (trim_start_matches ''/v1/'' (hi_path r))
       (or_default [] (hi_query r)) body s"
    using assms v by (cases a) (auto simp: google_dispatch_def Let_def simp del: if_split split: prod.splits)
  then show ?thesis using that [OF v] authorizeD a by blast
qed

text \<open>The project that is authorized is the path's, when the body names no resource.\<close>

lemma split_on_first: "c \<notin> set q \<Longrightarrow> hd (split_on c (q @ c # t)) = q"
  by (simp add: split_on_append)

lemma split_once_Some: "split_once c s = Some (a, b) \<Longrightarrow> s = a @ c # b \<and> c \<notin> set a"
  by (induction s arbitrary: a) (auto split: if_splits)

lemma split_once_append: "c \<notin> set p \<Longrightarrow> split_once c (p @ s) = map_option (\<lambda>(a, b). (p @ a, b)) (split_once c s)"
  by (induction p) (auto split: option.splits simp: option.map_comp comp_def, (cases "split_once c s"; auto)+)

lemma split_once_None: "split_once c s = None \<longleftrightarrow> c \<notin> set s"
  by (induction s) auto

lemma auth_resource_project:
  assumes path: "path = ''projects/'' @ q @ CHR ''/'' # t"
    and q: "CHR ''/'' \<notin> set q" "CHR '':'' \<notin> set q" and body: "get_str value ''resource'' = None"
  shows "project_of (auth_resource_for_path path value) = Some (''projects/'' @ q)"
proof -
  have of_prefix: "project_of (''projects/'' @ q @ CHR ''/'' # u) = Some (''projects/'' @ q)" for u
    unfolding project_of_Some using q(1)
    by (intro exI [of _ q]) (auto simp: belongs_to_project_def starts_with_iff)
  have self: "project_of (''projects/'' @ q) = Some (''projects/'' @ q)"
    unfolding project_of_Some using q(1) by blast
  show ?thesis
  proof (cases "split_once (CHR '':'') path")
    case (Some p)
    obtain a b where p: "p = (a, b)" by (cases p)
    have "path = (''projects/'' @ q @ ''/'') @ t" by (simp add: path)
    moreover have "CHR '':'' \<notin> set (''projects/'' @ q @ ''/'')" using q(2) by simp
    ultimately obtain u where "a = (''projects/'' @ q @ ''/'') @ u"
      using split_once_append [of "CHR '':''" "''projects/'' @ q @ ''/''" t] Some p by auto
    then have "a = ''projects/'' @ q @ CHR ''/'' # u" by simp
    then show ?thesis using of_prefix Some p by (simp add: auth_resource_for_path_def)
  next
    case None
    have strip: "strip_prefix ''projects/'' path = Some (q @ CHR ''/'' # t)"
      unfolding strip_prefix_Some using path by simp
    have hd: "hd (split_on (CHR '':'') path) = path"
      using None by (simp add: split_once_None split_on_no_sep)
    show ?thesis
      using None strip hd split_on_first [OF q(1)] self of_prefix [of t] body path
      by (auto simp: auth_resource_for_path_def Let_def)
  qed
qed

end
