(* ===== verification/Grpc_Stream.thy ===== *)
theory Grpc_Stream
  imports Grpc_Api Rest_Correct
begin

text \<open>
  \<open>streaming_pull\<close> of \<open>src/grpc.rs\<close>: the task that reads the frames of one client, makes the
  calls they ask for and pulls every 250 milliseconds. A step of the task ends at each call
  of the backend, so that the requests of other clients (\<open>Elsewhere\<close>) may come between any two
  of its calls; a frame leaves the calls it asks for as pending ones. An event that the task
  cannot take is no step.
\<close>

section \<open>Frames and the state of the task\<close>

record stream_frame =
  fr_subscription :: string
  fr_ack_ids :: "string list"
  fr_modify_deadline_seconds :: "int list"
  fr_modify_deadline_ack_ids :: "string list"
  fr_max_outstanding_messages :: int

record stream =
  sp_running :: bool
  sp_subscription :: string
  sp_batch_size :: u32
  sp_authorized :: bool
  sp_pending :: "request list"
  sp_sent :: "(grpc_status + received_message list) list"

definition stream_new :: stream where
  "stream_new = \<lparr>sp_running = True, sp_subscription = [], sp_batch_size = 100, sp_authorized = False,
     sp_pending = [], sp_sent = []\<rparr>"

text \<open>The call itself: the caller is authenticated, then the task is started.\<close>

definition stream_open :: "('key, 's) rpc_ctx \<Rightarrow> (grpc_status + auth_context option) \<times> jwks_cache" where
  "stream_open c =
     (case gx_auth c of
        None \<Rightarrow> (Inr None, gx_cache c)
      | Some auth \<Rightarrow>
          (case authenticate_bearer auth (gx_oidc c) (gx_header c) (gx_cache c) of
             (Inl message, cache') \<Rightarrow> (Inl (status Code_Unauthenticated message), cache')
           | (Inr ctx, cache') \<Rightarrow> (Inr (Some ctx), cache')))"

definition stream_stop :: "stream \<Rightarrow> stream" where
  "stream_stop st = st\<lparr>sp_running := False, sp_pending := []\<rparr>"

definition stream_fail :: "grpc_status \<Rightarrow> stream \<Rightarrow> stream" where
  "stream_fail e st = stream_stop (st\<lparr>sp_sent := sp_sent st @ [Inl e]\<rparr>)"

section \<open>The branches of the loop\<close>

definition frame_calls :: "string \<Rightarrow> stream_frame \<Rightarrow> request list" where
  "frame_calls subscription f =
     (if fr_ack_ids f = [] then [] else [Acknowledge subscription (fr_ack_ids f)])
     @ map (\<lambda>(ack_id, deadline). ModifyAckDeadline subscription [ack_id] (as_u32 (max deadline 0)))
         (zip (fr_modify_deadline_ack_ids f) (fr_modify_deadline_seconds f))"

definition take_frame :: "auth_context option \<Rightarrow> stream_frame \<Rightarrow> stream \<Rightarrow> stream" where
  "take_frame auth_ctx f st =
     (let subscription = (if fr_subscription f \<noteq> [] then fr_subscription f else sp_subscription st);
          batch_size = (if 0 < fr_max_outstanding_messages f
                        then as_u32 (min (fr_max_outstanding_messages f) 1000) else sp_batch_size st);
          st' = st\<lparr>sp_subscription := subscription, sp_batch_size := batch_size\<rparr>
      in if subscription = [] then st'
         else
           (case (if sp_authorized st then Inr ()
                  else (case auth_ctx of None \<Rightarrow> Inr () | Some ctx \<Rightarrow> authorize_resource ctx subscription)) of
              Inl message \<Rightarrow> stream_fail (status Code_PermissionDenied message) st'
            | Inr _ \<Rightarrow> st'\<lparr>sp_authorized := True, sp_pending := frame_calls subscription f\<rparr>))"

definition make_call :: "'s relay_backend \<Rightarrow> env \<Rightarrow> stream \<Rightarrow> 's \<Rightarrow> stream \<times> 's" where
  "make_call bk e st s =
     (case sp_pending st of
        [] \<Rightarrow> (st, s)
      | r # rs \<Rightarrow>
          (let (q, s') = bk_perform bk e r s in
           (case q of
              Ok _ \<Rightarrow> st\<lparr>sp_pending := rs\<rparr>
            | Err err \<Rightarrow> stream_fail (backend_status err) st
            | Panic \<Rightarrow> stream_stop st, s')))"

text \<open>The timer's branch; the last argument says whether the client still listens.\<close>

definition pull_tick :: "'s relay_backend \<Rightarrow> env \<Rightarrow> bool \<Rightarrow> stream \<Rightarrow> 's \<Rightarrow> stream \<times> 's" where
  "pull_tick bk e listening st s =
     (let (q, s') = b_pull bk e (sp_subscription st) (sp_batch_size st) s in
      (case q of
         Ok deliveries \<Rightarrow>
           if deliveries = [] then st
           else if listening then st\<lparr>sp_sent := sp_sent st @ [Inr (map delivery_to_proto deliveries)]\<rparr>
           else stream_stop st
       | Err err \<Rightarrow> stream_fail (backend_status err) st
       | Panic \<Rightarrow> stream_stop st, s'))"

section \<open>Runs\<close>

datatype 's stream_event =
    Incoming stream_frame
  | InputEnd
  | InputError grpc_status
  | Call env
  | Tick env bool
  | Elsewhere 's

definition enabled :: "'s stream_event \<Rightarrow> stream \<Rightarrow> bool" where
  "enabled ev st =
     (case ev of
        Elsewhere _ \<Rightarrow> True
      | Call _ \<Rightarrow> sp_running st \<and> sp_pending st \<noteq> []
      | Tick _ _ \<Rightarrow> sp_running st \<and> sp_pending st = [] \<and> sp_subscription st \<noteq> [] \<and> sp_authorized st
      | _ \<Rightarrow> sp_running st \<and> sp_pending st = [])"

definition stream_step ::
  "'s relay_backend \<Rightarrow> auth_context option \<Rightarrow> 's stream_event \<Rightarrow> stream \<times> 's \<Rightarrow> (stream \<times> 's) option" where
  "stream_step bk auth_ctx ev x =
     (let (st, s) = x in
      if \<not> enabled ev st then None
      else Some
        (case ev of
           Incoming f \<Rightarrow> (take_frame auth_ctx f st, s)
         | InputEnd \<Rightarrow> (stream_stop st, s)
         | InputError e \<Rightarrow> (stream_fail e st, s)
         | Call e \<Rightarrow> make_call bk e st s
         | Tick e listening \<Rightarrow> pull_tick bk e listening st s
         | Elsewhere s' \<Rightarrow> (st, s')))"

fun stream_run ::
  "'s relay_backend \<Rightarrow> auth_context option \<Rightarrow> 's stream_event list \<Rightarrow> stream \<times> 's \<Rightarrow> (stream \<times> 's) option" where
  "stream_run bk auth_ctx [] x = Some x"
| "stream_run bk auth_ctx (ev # evs) x = Option.bind (stream_step bk auth_ctx ev x) (stream_run bk auth_ctx evs)"

lemma stream_run_append:
  "stream_run bk a (xs @ ys) x = Option.bind (stream_run bk a xs x) (stream_run bk a ys)"
  by (induction xs arbitrary: x) (auto simp: bind_eq_None_conv split: bind_split)

section \<open>What a run asks of the backend\<close>

text \<open>The name a request acts on, the call a step makes, and the subscriptions frames name.\<close>

primrec subject :: "request \<Rightarrow> string" where
  "subject (CreateTopic t) = t_name t"
| "subject (UpdateTopic t upd) = t_name t"
| "subject (DeleteTopic n) = n"
| "subject (CreateSubscription x) = s_name x"
| "subject (UpdateSubscription x upd) = s_name x"
| "subject (DeleteSubscription n) = n"
| "subject (ModifyPushConfig n ep a) = n"
| "subject (Publish topic ms) = topic"
| "subject (Pull n k) = n"
| "subject (Acknowledge n ks) = n"
| "subject (ModifyAckDeadline n ks secs) = n"
| "subject (SeekToTime n t) = n"
| "subject (SeekToSnapshot n x) = n"
| "subject (CreateSnapshot n x labels) = n"
| "subject (UpdateSnapshot x upd) = sn_name x"
| "subject (DeleteSnapshot n) = n"
| "subject (SetIamPolicy n p) = n"
| "subject (CreateSchema x) = sc_name x"
| "subject (DeleteSchema n) = n"

definition stream_call :: "stream \<Rightarrow> 's stream_event \<Rightarrow> (env \<times> request) option" where
  "stream_call st ev =
     (case ev of
        Call e \<Rightarrow> Some (e, hd (sp_pending st))
      | Tick e _ \<Rightarrow> Some (e, Pull (sp_subscription st) (sp_batch_size st))
      | _ \<Rightarrow> None)"

definition named :: "'s stream_event list \<Rightarrow> string list" where
  "named evs = filter (\<lambda>n. n \<noteq> []) (map (\<lambda>ev. case ev of Incoming f \<Rightarrow> fr_subscription f | _ \<Rightarrow> []) evs)"

lemma named_simps [simp]:
  "named [] = []"
  "named (evs @ [Incoming f]) = named evs @ (if fr_subscription f = [] then [] else [fr_subscription f])"
  "named (evs @ [InputEnd]) = named evs" "named (evs @ [InputError e]) = named evs"
  "named (evs @ [Call v]) = named evs" "named (evs @ [Tick v b]) = named evs"
  "named (evs @ [Elsewhere s]) = named evs"
  by (simp_all add: named_def)

text \<open>
  The invariant: the current subscription is the one named last; once the stream is
  authorized, the one named first may be touched; pending calls are about the current one.
\<close>

definition stream_inv :: "auth_context option \<Rightarrow> string list \<Rightarrow> stream \<Rightarrow> bool" where
  "stream_inv auth_ctx names st =
     (sp_subscription st = (if names = [] then [] else last names) \<and>
      (\<not> sp_authorized st \<longrightarrow> sp_pending st = []) \<and>
      (sp_running st \<and> \<not> sp_authorized st \<longrightarrow> names = []) \<and>
      (sp_authorized st \<longrightarrow> names \<noteq> [] \<and>
         (\<forall>ctx. auth_ctx = Some ctx \<longrightarrow> authorize_resource ctx (hd names) = Inr ())) \<and>
      (\<forall>r \<in> set (sp_pending st). subject r = sp_subscription st))"

lemma stream_inv_new: "stream_inv a [] stream_new"
  by (simp add: stream_inv_def stream_new_def)

lemma frame_calls_subject: "r \<in> set (frame_calls n f) \<Longrightarrow> subject r = n"
  by (auto simp: frame_calls_def split: if_splits)

lemma stream_stop_sel [simp]:
  "sp_running (stream_stop st) = False" "sp_pending (stream_stop st) = []"
  "sp_subscription (stream_stop st) = sp_subscription st" "sp_authorized (stream_stop st) = sp_authorized st"
  "sp_sent (stream_stop st) = sp_sent st"
  by (simp_all add: stream_stop_def)

lemma stream_fail_sel [simp]:
  "sp_running (stream_fail e st) = False" "sp_pending (stream_fail e st) = []"
  "sp_subscription (stream_fail e st) = sp_subscription st" "sp_authorized (stream_fail e st) = sp_authorized st"
  "sp_sent (stream_fail e st) = sp_sent st @ [Inl e]"
  by (simp_all add: stream_fail_def)

lemma stream_inv_stop: "stream_inv a names st \<Longrightarrow> stream_inv a names (stream_stop st)"
  by (auto simp: stream_inv_def)

lemma stream_inv_fail: "stream_inv a names st \<Longrightarrow> stream_inv a names (stream_fail e st)"
  by (auto simp: stream_inv_def)

lemma stream_inv_frame:
  assumes "stream_inv a names st" "sp_running st" "sp_pending st = []"
  shows "stream_inv a (names @ (if fr_subscription f = [] then [] else [fr_subscription f])) (take_frame a f st)"
  using assms frame_calls_subject
  by (auto simp: stream_inv_def take_frame_def Let_def hd_append split: sum.split option.splits)

lemma stream_inv_call: "stream_inv a names st \<Longrightarrow> stream_inv a names (fst (make_call bk e st s))"
  using stream_inv_stop [of a names st] stream_inv_fail [of a names st]
  by (auto simp: make_call_def stream_inv_def split: list.split prod.split res.split)

lemma stream_inv_tick: "stream_inv a names st \<Longrightarrow> stream_inv a names (fst (pull_tick bk e b st s))"
  using stream_inv_stop [of a names st] stream_inv_fail [of a names st]
  by (auto simp: pull_tick_def stream_inv_def split: prod.split res.split)

lemma stream_inv_step:
  assumes "stream_inv a (named evs) st" "stream_step bk a ev (st, s) = Some (st', s')"
  shows "stream_inv a (named (evs @ [ev])) st'"
proof (cases ev)
  case (Incoming f)
  then show ?thesis
    using assms(2) stream_inv_frame [OF assms(1), of f]
    by (auto simp: stream_step_def enabled_def simp del: if_split split: if_split_asm)
next
  case (Call e)
  then have "st' = fst (make_call bk e st s)" using assms(2) by (auto simp: stream_step_def split: if_splits)
  then show ?thesis using stream_inv_call [OF assms(1)] Call by simp
next
  case (Tick e b)
  then have "st' = fst (pull_tick bk e b st s)" using assms(2) by (auto simp: stream_step_def split: if_splits)
  then show ?thesis using stream_inv_tick [OF assms(1)] Tick by simp
qed (use assms stream_inv_stop stream_inv_fail in \<open>auto simp: stream_step_def split: if_splits\<close>)

lemma stream_inv_run:
  "stream_run bk a evs (stream_new, s0) = Some (st, s) \<Longrightarrow> stream_inv a (named evs) st"
proof (induction evs arbitrary: st s rule: rev_induct)
  case Nil
  then show ?case using stream_inv_new by simp
next
  case (snoc ev evs)
  then obtain st1 s1 where "stream_run bk a evs (stream_new, s0) = Some (st1, s1)"
    "stream_step bk a ev (st1, s1) = Some (st, s)"
    by (auto simp: stream_run_append split: bind_splits)
  then show ?case using snoc.IH by (blast intro: stream_inv_step)
qed

text \<open>The effect of one step on the backend and on what the client is sent.\<close>

lemma stream_step_calls:
  assumes "stream_step bk a ev (st, s) = Some (st', s')" "\<And>t. ev \<noteq> Elsewhere t"
  shows "case stream_call st ev of
      None \<Rightarrow> s' = s
    | Some (e, r) \<Rightarrow> s' = snd (bk_perform bk e r s) \<and>
        (case fst (bk_perform bk e r s) of
           Ok _ \<Rightarrow> True
         | Err err \<Rightarrow> \<not> sp_running st' \<and> sp_sent st' = sp_sent st @ [Inl (backend_status err)]
         | Panic \<Rightarrow> \<not> sp_running st')"
proof (cases ev)
  case (Call e)
  then obtain r rs where "sp_pending st = r # rs"
    using assms(1) by (auto simp: stream_step_def enabled_def neq_Nil_conv split: if_splits)
  then show ?thesis using assms(1) Call
    by (cases "fst (bk_perform bk e r s)")
      (auto simp: stream_step_def stream_call_def make_call_def split: if_splits prod.splits)
next
  case (Tick e b)
  then show ?thesis using assms(1)
    by (cases "fst (b_pull bk e (sp_subscription st) (sp_batch_size st) s)")
      (auto simp: stream_step_def stream_call_def pull_tick_def forget_def split: if_splits prod.splits)
qed (use assms in \<open>auto simp: stream_step_def stream_call_def split: if_splits\<close>)

end
