(* ===== verification/Grpc_Correct.thy ===== *)
theory Grpc_Correct
  imports Grpc_Stream
begin

text \<open>
  The unary calls as one function of a request message, what each message means for the
  backend, and that the handlers do just that once the caller is admitted.
\<close>

section \<open>All calls\<close>

datatype grpc_request =
    RpcCreateTopic proto_topic
  | RpcUpdateTopic "proto_topic option" "string list option"
  | RpcGetTopic string
  | RpcListTopics string int string
  | RpcListTopicSubscriptions string int string
  | RpcDeleteTopic string
  | RpcPublish string "pubsub_message list"
  | RpcGetIamPolicy string
  | RpcSetIamPolicy string "proto_policy option"
  | RpcTestIamPermissions string "string list"
  | RpcCreateSubscription proto_subscription
  | RpcUpdateSubscription "proto_subscription option" "string list option"
  | RpcGetSubscription string
  | RpcListSubscriptions string int string
  | RpcDeleteSubscription string
  | RpcModifyPushConfig string "push_config option"
  | RpcPull string int
  | RpcAcknowledge string "string list"
  | RpcModifyAckDeadline string "string list" int
  | RpcSeek string "seek_target option"
  | RpcCreateSnapshot string string attrs
  | RpcUpdateSnapshot "proto_snapshot option" "string list option"
  | RpcGetSnapshot string
  | RpcListSnapshots string int string
  | RpcDeleteSnapshot string
  | RpcCreateSchema string "proto_schema option" string
  | RpcGetSchema string
  | RpcListSchemas string int string
  | RpcDeleteSchema string
  | RpcValidateSchema string "proto_schema option"
  | RpcValidateMessage string "message_schema option" bytes

datatype grpc_response =
    R_Empty unit | R_Strings "string list" | R_Names "string page" | R_Policy proto_policy
  | R_Topic proto_topic | R_Topics "proto_topic page"
  | R_Subscription proto_subscription | R_Subscriptions "proto_subscription page"
  | R_Messages "received_message list"
  | R_Snapshot proto_snapshot | R_Snapshots "proto_snapshot page"
  | R_Schema proto_schema | R_Schemas "proto_schema page"

definition rpc_map :: "('a \<Rightarrow> 'b) \<Rightarrow> ('a, 's) outcome \<Rightarrow> ('b, 's) outcome" where
  "rpc_map f x = (map_rpc f (fst x), snd x)"

primrec grpc_call :: "('key, 's) rpc_ctx \<Rightarrow> grpc_request \<Rightarrow> 's \<Rightarrow> (grpc_response, 's) outcome" where
  "grpc_call c (RpcCreateTopic t) s = rpc_map R_Topic (rpc_create_topic c t s)"
| "grpc_call c (RpcUpdateTopic t upd) s = rpc_map R_Topic (rpc_update_topic c t upd s)"
| "grpc_call c (RpcGetTopic n) s = rpc_map R_Topic (rpc_get_topic c n s)"
| "grpc_call c (RpcListTopics n k tok) s = rpc_map R_Topics (rpc_list_topics c n k tok s)"
| "grpc_call c (RpcListTopicSubscriptions n k tok) s = rpc_map R_Names (rpc_list_topic_subscriptions c n k tok s)"
| "grpc_call c (RpcDeleteTopic n) s = rpc_map R_Empty (rpc_delete_topic c n s)"
| "grpc_call c (RpcPublish n ms) s = rpc_map R_Strings (rpc_publish c n ms s)"
| "grpc_call c (RpcGetIamPolicy n) s = rpc_map R_Policy (rpc_get_iam_policy c n s)"
| "grpc_call c (RpcSetIamPolicy n p) s = rpc_map R_Policy (rpc_set_iam_policy c n p s)"
| "grpc_call c (RpcTestIamPermissions n ps) s = rpc_map R_Strings (rpc_test_iam_permissions c n ps s)"
| "grpc_call c (RpcCreateSubscription x) s = rpc_map R_Subscription (rpc_create_subscription c x s)"
| "grpc_call c (RpcUpdateSubscription x upd) s = rpc_map R_Subscription (rpc_update_subscription c x upd s)"
| "grpc_call c (RpcGetSubscription n) s = rpc_map R_Subscription (rpc_get_subscription c n s)"
| "grpc_call c (RpcListSubscriptions n k tok) s = rpc_map R_Subscriptions (rpc_list_subscriptions c n k tok s)"
| "grpc_call c (RpcDeleteSubscription n) s = rpc_map R_Empty (rpc_delete_subscription c n s)"
| "grpc_call c (RpcModifyPushConfig n cfg) s = rpc_map R_Empty (rpc_modify_push_config c n cfg s)"
| "grpc_call c (RpcPull n k) s = rpc_map R_Messages (rpc_pull c n k s)"
| "grpc_call c (RpcAcknowledge n ks) s = rpc_map R_Empty (rpc_acknowledge c n ks s)"
| "grpc_call c (RpcModifyAckDeadline n ks d) s = rpc_map R_Empty (rpc_modify_ack_deadline c n ks d s)"
| "grpc_call c (RpcSeek n target) s = rpc_map R_Empty (rpc_seek c n target s)"
| "grpc_call c (RpcCreateSnapshot n sub labels) s = rpc_map R_Snapshot (rpc_create_snapshot c n sub labels s)"
| "grpc_call c (RpcUpdateSnapshot x upd) s = rpc_map R_Snapshot (rpc_update_snapshot c x upd s)"
| "grpc_call c (RpcGetSnapshot n) s = rpc_map R_Snapshot (rpc_get_snapshot c n s)"
| "grpc_call c (RpcListSnapshots n k tok) s = rpc_map R_Snapshots (rpc_list_snapshots c n k tok s)"
| "grpc_call c (RpcDeleteSnapshot n) s = rpc_map R_Empty (rpc_delete_snapshot c n s)"
| "grpc_call c (RpcCreateSchema p x i) s = rpc_map R_Schema (rpc_create_schema c p x i s)"
| "grpc_call c (RpcGetSchema n) s = rpc_map R_Schema (rpc_get_schema c n s)"
| "grpc_call c (RpcListSchemas n k tok) s = rpc_map R_Schemas (rpc_list_schemas c n k tok s)"
| "grpc_call c (RpcDeleteSchema n) s = rpc_map R_Empty (rpc_delete_schema c n s)"
| "grpc_call c (RpcValidateSchema p x) s = rpc_map R_Empty (rpc_validate_schema c p x s)"
| "grpc_call c (RpcValidateMessage p x m) s = rpc_map R_Empty (rpc_validate_message c p x m s)"

section \<open>Meaning\<close>

text \<open>The resource a message asks to be authorized for; a missing one asks for nothing.\<close>

primrec rpc_resource :: "grpc_request \<Rightarrow> string option" where
  "rpc_resource (RpcCreateTopic t) = Some (gt_name t)"
| "rpc_resource (RpcUpdateTopic t upd) = map_option gt_name t"
| "rpc_resource (RpcGetTopic n) = Some n"
| "rpc_resource (RpcListTopics n k tok) = Some n"
| "rpc_resource (RpcListTopicSubscriptions n k tok) = Some n"
| "rpc_resource (RpcDeleteTopic n) = Some n"
| "rpc_resource (RpcPublish n ms) = Some n"
| "rpc_resource (RpcGetIamPolicy n) = Some n"
| "rpc_resource (RpcSetIamPolicy n p) = Some n"
| "rpc_resource (RpcTestIamPermissions n ps) = Some n"
| "rpc_resource (RpcCreateSubscription x) = Some (gb_name x)"
| "rpc_resource (RpcUpdateSubscription x upd) = map_option gb_name x"
| "rpc_resource (RpcGetSubscription n) = Some n"
| "rpc_resource (RpcListSubscriptions n k tok) = Some n"
| "rpc_resource (RpcDeleteSubscription n) = Some n"
| "rpc_resource (RpcModifyPushConfig n cfg) = Some n"
| "rpc_resource (RpcPull n k) = Some n"
| "rpc_resource (RpcAcknowledge n ks) = Some n"
| "rpc_resource (RpcModifyAckDeadline n ks d) = Some n"
| "rpc_resource (RpcSeek n target) = Some n"
| "rpc_resource (RpcCreateSnapshot n sub labels) = Some n"
| "rpc_resource (RpcUpdateSnapshot x upd) = map_option gn_name x"
| "rpc_resource (RpcGetSnapshot n) = Some n"
| "rpc_resource (RpcListSnapshots n k tok) = Some n"
| "rpc_resource (RpcDeleteSnapshot n) = Some n"
| "rpc_resource (RpcCreateSchema p x i) = Some p"
| "rpc_resource (RpcGetSchema n) = Some n"
| "rpc_resource (RpcListSchemas n k tok) = Some n"
| "rpc_resource (RpcDeleteSchema n) = Some n"
| "rpc_resource (RpcValidateSchema p x) = Some p"
| "rpc_resource (RpcValidateMessage p x m) = Some p"

text \<open>The operation of the backend that a message stands for; none for a malformed message.\<close>

definition good :: "('a \<Rightarrow> operation) \<Rightarrow> grpc_status + 'a \<Rightarrow> operation option" where
  "good f r = (case r of Inl st \<Rightarrow> None | Inr x \<Rightarrow> Some (f x))"

definition schema_named :: "string \<Rightarrow> string \<Rightarrow> proto_schema \<Rightarrow> proto_schema" where
  "schema_named parent schema_id x =
     (if gc_name x \<noteq> [] then x
      else x\<lparr>gc_name := (if schema_id = [] then [] else trim_end_matches ''/'' parent @ ''/schemas/'' @ schema_id)\<rparr>)"

definition rpc_meaning :: "('key, 's) rpc_ctx \<Rightarrow> grpc_request \<Rightarrow> operation option" where
  "rpc_meaning c req =
     (case req of
        RpcCreateTopic t \<Rightarrow> good (\<lambda>x. Do (CreateTopic x)) (topic_from_proto t)
      | RpcUpdateTopic t upd \<Rightarrow>
          Option.bind t (\<lambda>t. good (\<lambda>x. Do (UpdateTopic x (field_mask_paths upd))) (topic_from_proto t))
      | RpcGetTopic n \<Rightarrow> Some (Ask (GetTopic n))
      | RpcListTopics n k tok \<Rightarrow> Some (Ask (ListTopics n k tok))
      | RpcListTopicSubscriptions n k tok \<Rightarrow> Some (Ask (ListTopicSubscriptions n k tok))
      | RpcDeleteTopic n \<Rightarrow> Some (Do (DeleteTopic n))
      | RpcPublish n ms \<Rightarrow> if ms = [] then None else Some (Do (Publish n (map message_from_proto ms)))
      | RpcGetIamPolicy n \<Rightarrow> Some (Ask (GetIamPolicy n))
      | RpcSetIamPolicy n p \<Rightarrow> map_option (\<lambda>p. Do (SetIamPolicy n (policy_from_proto p))) p
      | RpcTestIamPermissions n ps \<Rightarrow> Some (Ask (TestIamPermissions n ps))
      | RpcCreateSubscription x \<Rightarrow> good (\<lambda>y. Do (CreateSubscription y)) (subscription_from_proto x)
      | RpcUpdateSubscription x upd \<Rightarrow>
          Option.bind x (\<lambda>x. good (\<lambda>y. Do (UpdateSubscription y (field_mask_paths upd))) (subscription_from_proto x))
      | RpcGetSubscription n \<Rightarrow> Some (Ask (GetSubscription n))
      | RpcListSubscriptions n k tok \<Rightarrow> Some (Ask (ListSubscriptions n k tok))
      | RpcDeleteSubscription n \<Rightarrow> Some (Do (DeleteSubscription n))
      | RpcModifyPushConfig n cfg \<Rightarrow>
          Some (Do (ModifyPushConfig n (fst (push_config_parts cfg)) (snd (push_config_parts cfg))))
      | RpcPull n k \<Rightarrow> Some (Do (Pull n (as_u32 (max k 1))))
      | RpcAcknowledge n ks \<Rightarrow> Some (Do (Acknowledge n ks))
      | RpcModifyAckDeadline n ks d \<Rightarrow>
          if 0 \<le> d \<and> d \<le> 600 then Some (Do (ModifyAckDeadline n ks (as_u32 d))) else None
      | RpcSeek n target \<Rightarrow>
          Option.bind target (\<lambda>t. case t of
              Target_Time ts \<Rightarrow> good (\<lambda>x. Do (SeekToTime n x)) (timestamp_to_datetime (gx_in_range c) ts)
            | Target_Snapshot x \<Rightarrow> Some (Do (SeekToSnapshot n x)))
      | RpcCreateSnapshot n sub labels \<Rightarrow> Some (Do (CreateSnapshot n sub labels))
      | RpcUpdateSnapshot x upd \<Rightarrow>
          Option.bind x (\<lambda>x. good (\<lambda>y. Do (UpdateSnapshot y (field_mask_paths upd)))
            (snapshot_from_proto (gx_in_range c) (e_now (gx_env c)) x))
      | RpcGetSnapshot n \<Rightarrow> Some (Ask (GetSnapshot n))
      | RpcListSnapshots n k tok \<Rightarrow> Some (Ask (ListSnapshots n k tok))
      | RpcDeleteSnapshot n \<Rightarrow> Some (Do (DeleteSnapshot n))
      | RpcCreateSchema p x i \<Rightarrow>
          Option.bind x (\<lambda>x. good (\<lambda>y. Do (CreateSchema y)) (schema_from_proto (schema_named p i x)))
      | RpcGetSchema n \<Rightarrow> Some (Ask (GetSchema n))
      | RpcListSchemas n k tok \<Rightarrow> Some (Ask (ListSchemas n k tok))
      | RpcDeleteSchema n \<Rightarrow> Some (Do (DeleteSchema n))
      | RpcValidateSchema p x \<Rightarrow> Option.bind x (\<lambda>x. good (\<lambda>y. Ask (ValidateSchema y)) (schema_from_proto x))
      | RpcValidateMessage p x m \<Rightarrow>
          Option.bind x (\<lambda>x. case x of
              Spec_Name n \<Rightarrow> Some (Ask (ValidateMessage (Some n) None m))
            | Spec_Schema sc \<Rightarrow> good (\<lambda>y. Ask (ValidateMessage None (Some y) m)) (schema_from_proto sc)))"

text \<open>A request concerns the resource that is authorized, but for \<open>CreateSchema\<close>.\<close>

lemma from_proto_name:
  "topic_from_proto t = Inr t' \<Longrightarrow> t_name t' = gt_name t"
  "subscription_from_proto x = Inr x' \<Longrightarrow> s_name x' = gb_name x"
  "snapshot_from_proto ir now y = Inr y' \<Longrightarrow> sn_name y' = gn_name y"
  by (auto simp: topic_from_proto_def subscription_from_proto_def snapshot_from_proto_def
      split: if_splits sum.splits prod.splits)

lemma rpc_meaning_subject:
  assumes "rpc_meaning c req = Some (Do r)" "\<And>x. r \<noteq> CreateSchema x"
  shows "rpc_resource req = Some (subject r)"
  using assms
  by (cases req) (auto simp: rpc_meaning_def good_def from_proto_name
      split: sum.splits if_splits seek_target.splits message_schema.splits bind_splits)

section \<open>The handlers do what the messages mean\<close>

definition performed :: "'s relay_backend \<Rightarrow> env \<Rightarrow> operation option \<Rightarrow> 's \<Rightarrow> 'a rpc \<times> 's \<Rightarrow> bool" where
  "performed bk e m s out =
     (case m of
        None \<Rightarrow> (\<exists>st. fst out = RpcErr st) \<and> snd out = s
      | Some op \<Rightarrow> snd out = snd (bk_run bk e op s) \<and>
          (case fst (bk_run bk e op s) of
             Ok _ \<Rightarrow> \<exists>x. fst out = RpcOk x
           | Err err \<Rightarrow> fst out = RpcErr (backend_status err)
           | Panic \<Rightarrow> fst out = RpcPanic))"

definition handled ::
  "('key, 's) rpc_ctx \<Rightarrow> string option \<Rightarrow> operation option \<Rightarrow> 's \<Rightarrow> ('a, 's) outcome \<Rightarrow> bool" where
  "handled c resource m s out =
     (case resource of
        None \<Rightarrow> m = None \<and> (\<exists>st. out = (RpcErr st, gx_cache c, s))
      | Some n \<Rightarrow> \<exists>rest. out = authorized c n rest s \<and> performed (gx_backend c) (gx_env c) m s rest)"

lemma performed_map: "performed bk e m s rest \<Longrightarrow> performed bk e m s (map_rpc f (fst rest), snd rest)"
  by (cases "fst rest") (auto simp: performed_def split: option.splits res.splits)

lemma rpc_map_authorized:
  "rpc_map f (authorized c n rest s) = authorized c n (map_rpc f (fst rest), snd rest) s"
  by (auto simp: rpc_map_def authorized_def split: prod.split sum.split)

lemma handled_map: "handled c n m s out \<Longrightarrow> handled c n m s (rpc_map f out)"
  using performed_map [of "gx_backend c" "gx_env c" m s _ f]
  by (auto simp: handled_def rpc_map_authorized split: option.splits) (auto simp: rpc_map_def)

lemma handledI: "performed (gx_backend c) (gx_env c) m s rest \<Longrightarrow> handled c (Some n) m s (authorized c n rest s)"
  unfolding handled_def option.case by blast

lemma performed_operation: "bk_run bk e op s = forget q \<Longrightarrow> performed bk e (Some op) s (finish f q)"
  by (cases "fst q") (auto simp: performed_def finish_def forget_def)

lemma performed_refuse: "performed bk e None s (refuse m s)"
  by (simp add: performed_def refuse_def)

lemma performed_converted:
  assumes "\<And>x. r = Inr x \<Longrightarrow> performed bk e (Some (g x)) s (k x)"
  shows "performed bk e (good g r) s (converted r k s)"
  using assms by (cases r) (auto simp: good_def converted_def performed_def)

lemma performed_operations:
  "performed bk e (Some (Do (CreateTopic t))) s (finish f0 (b_create_topic bk e t s))"
  "performed bk e (Some (Do (UpdateTopic t u))) s (finish f1 (b_update_topic bk e t u s))"
  "performed bk e (Some (Do (DeleteTopic n))) s (finish f2 (b_delete_topic bk e n s))"
  "performed bk e (Some (Do (CreateSubscription x))) s (finish f3 (b_create_subscription bk e x s))"
  "performed bk e (Some (Do (UpdateSubscription x u))) s (finish f4 (b_update_subscription bk e x u s))"
  "performed bk e (Some (Do (DeleteSubscription n))) s (finish f5 (b_delete_subscription bk e n s))"
  "performed bk e (Some (Do (ModifyPushConfig n ep a))) s (finish f6 (b_modify_push_config bk e n ep a s))"
  "performed bk e (Some (Do (Publish n ms))) s (finish f7 (b_publish bk e n ms s))"
  "performed bk e (Some (Do (Pull n m))) s (finish f8 (b_pull bk e n m s))"
  "performed bk e (Some (Do (Acknowledge n ks))) s (finish f9 (b_acknowledge bk e n ks s))"
  "performed bk e (Some (Do (ModifyAckDeadline n ks m))) s (finish f10 (b_modify_ack_deadline bk e n ks m s))"
  "performed bk e (Some (Do (SeekToTime n i))) s (finish f11 (b_seek_to_time bk e n i s))"
  "performed bk e (Some (Do (SeekToSnapshot n n'))) s (finish f12 (b_seek_to_snapshot bk e n n' s))"
  "performed bk e (Some (Do (CreateSnapshot n n' a))) s (finish f13 (b_create_snapshot bk e n n' a s))"
  "performed bk e (Some (Do (UpdateSnapshot z u))) s (finish f14 (b_update_snapshot bk e z u s))"
  "performed bk e (Some (Do (DeleteSnapshot n))) s (finish f15 (b_delete_snapshot bk e n s))"
  "performed bk e (Some (Do (SetIamPolicy n p))) s (finish f16 (b_set_iam_policy bk e n p s))"
  "performed bk e (Some (Do (CreateSchema c))) s (finish f17 (b_create_schema bk e c s))"
  "performed bk e (Some (Do (DeleteSchema n))) s (finish f18 (b_delete_schema bk e n s))"
  "performed bk e (Some (Ask (GetTopic n))) s (finish f19 (b_get_topic bk e n s))"
  "performed bk e (Some (Ask (ListTopics n k tok))) s (finish f20 (b_list_topics bk e n k tok s))"
  "performed bk e (Some (Ask (ListTopicSubscriptions n k tok))) s (finish f21 (b_list_topic_subscriptions bk e n k tok s))"
  "performed bk e (Some (Ask (GetSubscription n))) s (finish f22 (b_get_subscription bk e n s))"
  "performed bk e (Some (Ask (ListSubscriptions n k tok))) s (finish f23 (b_list_subscriptions bk e n k tok s))"
  "performed bk e (Some (Ask (GetSnapshot n))) s (finish f24 (b_get_snapshot bk e n s))"
  "performed bk e (Some (Ask (ListSnapshots n k tok))) s (finish f25 (b_list_snapshots bk e n k tok s))"
  "performed bk e (Some (Ask (GetIamPolicy n))) s (finish f26 (b_get_iam_policy bk e n s))"
  "performed bk e (Some (Ask (TestIamPermissions n u))) s (finish f27 (b_test_iam_permissions bk e n u s))"
  "performed bk e (Some (Ask (GetSchema n))) s (finish f28 (b_get_schema bk e n s))"
  "performed bk e (Some (Ask (ListSchemas n k tok))) s (finish f29 (b_list_schemas bk e n k tok s))"
  "performed bk e (Some (Ask (ValidateSchema c))) s (finish f30 (b_validate_schema bk e c s))"
  "performed bk e (Some (Ask (ValidateMessage o1 o2 n))) s (finish f31 (b_validate_message bk e o1 o2 n s))"
  by (rule performed_operation, simp)+

lemmas performed_intros = handled_map handledI performed_converted performed_refuse performed_operations

lemma handled_missing: "handled c None None s (RpcErr st, gx_cache c, s)"
  by (simp add: handled_def)

lemma publisher_handled:
  "handled c (rpc_resource (RpcCreateTopic t)) (rpc_meaning c (RpcCreateTopic t)) s (rpc_create_topic c t s)"
  "handled c (rpc_resource (RpcUpdateTopic ot upd)) (rpc_meaning c (RpcUpdateTopic ot upd)) s (rpc_update_topic c ot upd s)"
  "handled c (rpc_resource (RpcGetTopic n)) (rpc_meaning c (RpcGetTopic n)) s (rpc_get_topic c n s)"
  "handled c (rpc_resource (RpcListTopics n k tok)) (rpc_meaning c (RpcListTopics n k tok)) s (rpc_list_topics c n k tok s)"
  "handled c (rpc_resource (RpcListTopicSubscriptions n k tok)) (rpc_meaning c (RpcListTopicSubscriptions n k tok)) s (rpc_list_topic_subscriptions c n k tok s)"
  "handled c (rpc_resource (RpcDeleteTopic n)) (rpc_meaning c (RpcDeleteTopic n)) s (rpc_delete_topic c n s)"
  "handled c (rpc_resource (RpcPublish n ms)) (rpc_meaning c (RpcPublish n ms)) s (rpc_publish c n ms s)"
  "handled c (rpc_resource (RpcGetIamPolicy n)) (rpc_meaning c (RpcGetIamPolicy n)) s (rpc_get_iam_policy c n s)"
  "handled c (rpc_resource (RpcSetIamPolicy n pol)) (rpc_meaning c (RpcSetIamPolicy n pol)) s (rpc_set_iam_policy c n pol s)"
  "handled c (rpc_resource (RpcTestIamPermissions n ps)) (rpc_meaning c (RpcTestIamPermissions n ps)) s (rpc_test_iam_permissions c n ps s)"
  by (auto simp: rpc_meaning_def rpc_create_topic_def rpc_update_topic_def rpc_get_topic_def rpc_list_topics_def rpc_list_topic_subscriptions_def rpc_delete_topic_def rpc_publish_def rpc_get_iam_policy_def rpc_set_iam_policy_def rpc_test_iam_permissions_def
      intro!: performed_intros handled_missing split: option.split)

lemma subscriber_handled:
  "handled c (rpc_resource (RpcCreateSubscription x)) (rpc_meaning c (RpcCreateSubscription x)) s (rpc_create_subscription c x s)"
  "handled c (rpc_resource (RpcUpdateSubscription ox upd)) (rpc_meaning c (RpcUpdateSubscription ox upd)) s (rpc_update_subscription c ox upd s)"
  "handled c (rpc_resource (RpcGetSubscription n)) (rpc_meaning c (RpcGetSubscription n)) s (rpc_get_subscription c n s)"
  "handled c (rpc_resource (RpcListSubscriptions n k tok)) (rpc_meaning c (RpcListSubscriptions n k tok)) s (rpc_list_subscriptions c n k tok s)"
  "handled c (rpc_resource (RpcDeleteSubscription n)) (rpc_meaning c (RpcDeleteSubscription n)) s (rpc_delete_subscription c n s)"
  "handled c (rpc_resource (RpcModifyPushConfig n cfg)) (rpc_meaning c (RpcModifyPushConfig n cfg)) s (rpc_modify_push_config c n cfg s)"
  "handled c (rpc_resource (RpcPull n k)) (rpc_meaning c (RpcPull n k)) s (rpc_pull c n k s)"
  "handled c (rpc_resource (RpcAcknowledge n ks)) (rpc_meaning c (RpcAcknowledge n ks)) s (rpc_acknowledge c n ks s)"
  "handled c (rpc_resource (RpcModifyAckDeadline n ks d)) (rpc_meaning c (RpcModifyAckDeadline n ks d)) s (rpc_modify_ack_deadline c n ks d s)"
  by (auto simp: rpc_meaning_def rpc_create_subscription_def rpc_update_subscription_def rpc_get_subscription_def rpc_list_subscriptions_def rpc_delete_subscription_def rpc_modify_push_config_def rpc_pull_def rpc_acknowledge_def rpc_modify_ack_deadline_def Let_def
      intro!: performed_intros handled_missing split: option.split prod.split)

lemma snapshot_handled:
  "handled c (rpc_resource (RpcSeek n target)) (rpc_meaning c (RpcSeek n target)) s (rpc_seek c n target s)"
  "handled c (rpc_resource (RpcCreateSnapshot n sub labels)) (rpc_meaning c (RpcCreateSnapshot n sub labels)) s (rpc_create_snapshot c n sub labels s)"
  "handled c (rpc_resource (RpcUpdateSnapshot oy upd)) (rpc_meaning c (RpcUpdateSnapshot oy upd)) s (rpc_update_snapshot c oy upd s)"
  "handled c (rpc_resource (RpcGetSnapshot n)) (rpc_meaning c (RpcGetSnapshot n)) s (rpc_get_snapshot c n s)"
  "handled c (rpc_resource (RpcListSnapshots n k tok)) (rpc_meaning c (RpcListSnapshots n k tok)) s (rpc_list_snapshots c n k tok s)"
  "handled c (rpc_resource (RpcDeleteSnapshot n)) (rpc_meaning c (RpcDeleteSnapshot n)) s (rpc_delete_snapshot c n s)"
  by (auto simp: rpc_meaning_def rpc_seek_def rpc_create_snapshot_def rpc_update_snapshot_def rpc_get_snapshot_def rpc_list_snapshots_def rpc_delete_snapshot_def
      intro!: performed_intros handled_missing split: option.split seek_target.split)

lemma schema_handled:
  "handled c (rpc_resource (RpcGetSchema n)) (rpc_meaning c (RpcGetSchema n)) s (rpc_get_schema c n s)"
  "handled c (rpc_resource (RpcListSchemas n k tok)) (rpc_meaning c (RpcListSchemas n k tok)) s (rpc_list_schemas c n k tok s)"
  "handled c (rpc_resource (RpcDeleteSchema n)) (rpc_meaning c (RpcDeleteSchema n)) s (rpc_delete_schema c n s)"
  "handled c (rpc_resource (RpcValidateSchema p oz)) (rpc_meaning c (RpcValidateSchema p oz)) s (rpc_validate_schema c p oz s)"
  "handled c (rpc_resource (RpcValidateMessage p os m)) (rpc_meaning c (RpcValidateMessage p os m)) s (rpc_validate_message c p os m s)"
  by (auto simp: rpc_meaning_def rpc_get_schema_def rpc_list_schemas_def rpc_delete_schema_def rpc_validate_schema_def rpc_validate_message_def
      intro!: performed_intros handled_missing split: option.split message_schema.split)

lemma create_schema_handled:
  "handled c (rpc_resource (RpcCreateSchema p ox i)) (rpc_meaning c (RpcCreateSchema p ox i)) s (rpc_create_schema c p ox i s)"
proof -
  have missing: "good f (schema_from_proto (schema_named p [] x)) = None" if "gc_name x = []" for f x
    using that by (simp add: schema_named_def schema_from_proto_def good_def)
  have named: "schema_named p i x = (if gc_name x = []
      then x\<lparr>gc_name := trim_end_matches ''/'' p @ ''/schemas/'' @ i\<rparr> else x)" if "gc_name x = [] \<longrightarrow> i \<noteq> []" for x
    using that by (simp add: schema_named_def)
  show ?thesis
    by (auto simp: rpc_create_schema_def rpc_meaning_def Let_def missing named
        intro!: performed_intros split: option.split)
qed

lemma call_handled: "handled c (rpc_resource req) (rpc_meaning c req) s (grpc_call c req s)"
  by (cases req) (simp_all only: grpc_call.simps handled_map publisher_handled subscriber_handled snapshot_handled
      schema_handled create_schema_handled)

end
