(* ===== verification/Surfaces.thy ===== *)
theory Surfaces
  imports Grpc_Correct
begin

text \<open>
  The two surfaces of the gateway compared: the custom methods of the HTTP surface
  (\<open>POST .../topic:publish\<close> and the like) and the gRPC calls of the same meaning, from the
  reading of the request through authorization to the answer.
\<close>

section \<open>The same request on both surfaces\<close>

definition message_value :: "rest_lib \<Rightarrow> pubsub_message \<Rightarrow> json" where
  "message_value lib m = JObject
     [(''data'', JString (rl_encode lib (gm_data m))), (''attributes'', json_map (gm_attributes m)),
      (''orderingKey'', JString (gm_ordering_key m)), (''messageId'', JString (gm_message_id m))]"

definition is_i32 :: "int \<Rightarrow> bool" where
  "is_i32 k = (- (2 ^ 31) \<le> k \<and> k < 2 ^ 31)"

text \<open>The resource, the method's suffix and the body of a gRPC request written for HTTP.\<close>

definition rest_form :: "rest_lib \<Rightarrow> grpc_request \<Rightarrow> (string \<times> string \<times> json) option" where
  "rest_form lib req =
     (case req of
        RpcPublish n ms \<Rightarrow> Some (n, '':publish'', JObject [(''messages'', JArray (map (message_value lib) ms))])
      | RpcPull n k \<Rightarrow>
          if is_i32 k then Some (n, '':pull'', JObject [(''maxMessages'', json_i32 k)]) else None
      | RpcAcknowledge n ks \<Rightarrow> Some (n, '':acknowledge'', JObject [(''ackIds'', JArray (map JString ks))])
      | RpcModifyAckDeadline n ks d \<Rightarrow>
          if is_i32 d \<and> 0 \<le> d then Some (n, '':modifyAckDeadline'', JObject
            [(''ackIds'', JArray (map JString ks)), (''ackDeadlineSeconds'', json_i32 d)]) else None
      | RpcSeek n (Some (Target_Snapshot x)) \<Rightarrow> Some (n, '':seek'', JObject [(''snapshot'', JString x)])
      | RpcModifyPushConfig n (Some cfg) \<Rightarrow> Some (n, '':modifyPushConfig'', JObject [(''pushConfig'', JObject
          [(''pushEndpoint'', JString (gp_push_endpoint cfg)), (''attributes'', json_map (gp_attributes cfg))])])
      | RpcGetIamPolicy n \<Rightarrow> Some (n, '':getIamPolicy'', JObject [])
      | RpcSetIamPolicy n (Some p) \<Rightarrow>
          if is_i32 (gl_version p)
          then Some (n, '':setIamPolicy'', JObject [(''policy'', policy_json (policy_from_proto p))]) else None
      | RpcTestIamPermissions n ps \<Rightarrow>
          Some (n, '':testIamPermissions'', JObject [(''permissions'', JArray (map JString ps))])
      | _ \<Rightarrow> None)"

section \<open>The same answer on both surfaces\<close>

primrec http_code :: "grpc_code \<Rightarrow> nat" where
  "http_code Code_InvalidArgument = 400"
| "http_code Code_Unauthenticated = 401"
| "http_code Code_PermissionDenied = 403"
| "http_code Code_NotFound = 404"
| "http_code Code_AlreadyExists = 409"
| "http_code Code_FailedPrecondition = 412"
| "http_code Code_Internal = 500"
| "http_code Code_Unavailable = 503"

definition alike :: "http_reply res \<Rightarrow> 'a rpc \<Rightarrow> bool" where
  "alike h g =
     (case g of
        RpcOk _ \<Rightarrow> \<exists>v. h = Ok (json_reply 200 v)
      | RpcErr st \<Rightarrow> \<exists>v. h = Ok (json_reply (http_code (gs_code st)) v)
      | RpcPanic \<Rightarrow> h = Panic)"

definition agree :: "http_reply res \<times> 's \<Rightarrow> 'a rpc \<times> 's \<Rightarrow> bool" where
  "agree h g = (alike (fst h) (fst g) \<and> snd h = snd g)"

lemma error_codes_agree: "fst (error_status e) = http_code (gs_code (backend_status e))"
  by (cases e) (simp_all add: status_def)

lemma agree_answer: "agree (answer f q) (finish g q)"
proof (cases "fst q")
  case (Err e)
  then show ?thesis
    using error_codes_agree [of e]
    by (auto simp: agree_def alike_def answer_def finish_def backend_error_reply_def error_reply_def
        split: prod.split)
qed (auto simp: agree_def alike_def answer_def finish_def)

lemma agree_refuse: "agree (Ok (bad_request m), s) (refuse m' s)"
  by (auto simp: agree_def alike_def bad_request_def error_reply_def refuse_def status_def)

lemma alike_map: "alike h (map_rpc f g) \<longleftrightarrow> alike h g"
  by (cases g) (auto simp: alike_def)

section \<open>Paths\<close>

lemma strip_any_once: "w \<noteq> [] \<Longrightarrow> strip_any [w] (w @ s) = strip_any [w] s"
  by (subst strip_any.simps) simp

lemma trim_suffix:
  assumes "CHR '':'' \<notin> set n"
  shows "trim_end_matches (CHR '':'' # p) (n @ CHR '':'' # p) = n"
proof -
  let ?w = "rev p @ [CHR '':'']"
  have stop: "strip_any [?w] (rev n) = rev n"
  proof (rule strip_any_id)
    fix w
    assume "w \<in> set [?w]"
    then have "CHR '':'' \<in> set w" by auto
    then show "\<not> starts_with (rev n) w"
      using assms by (metis in_set_conv_decomp in_set_takeD set_rev starts_with_def)
  qed
  have "rev (n @ CHR '':'' # p) = ?w @ rev n" by simp
  moreover have "strip_any [?w] (?w @ rev n) = strip_any [?w] (rev n)"
    by (rule strip_any_once) simp
  ultimately show ?thesis using stop by (simp add: trim_end_matches_def)
qed

lemma trim_version:
  assumes "starts_with n ''projects/''"
  shows "trim_start_matches ''/v1/'' (''/v1/'' @ n @ p) = n @ p"
proof -
  obtain t where n: "n = ''projects/'' @ t" using assms by (auto simp: starts_with_iff)
  have "strip_any [''/v1/''] (''/v1/'' @ n @ p) = strip_any [''/v1/''] (n @ p)"
    by (rule strip_any_once) simp
  also have "\<dots> = n @ p" by (rule strip_any_id) (simp add: n)
  finally show ?thesis by (simp add: trim_start_matches_def)
qed

lemma resource_of_method:
  assumes "CHR '':'' \<notin> set n"
  shows "auth_resource_for_path (n @ CHR '':'' # p) v = n"
  using assms by (simp add: auth_resource_for_path_def split_once_append)

section \<open>Bodies\<close>

lemma u64_of_i32:
  assumes "is_i32 k" "0 \<le> k"
  shows "as_u64 (json_i32 k) = Some (word_of_int k)" "unat (word_of_int k :: u64) = nat k"
    "unat (as_u32 k) = nat k" "(ucast (word_of_int k :: u64) :: u32) = as_u32 k"
  using assms
  by (simp_all add: is_i32_def as_u64_def json_i32_def as_u32_def unsigned_of_int take_bit_int_eq_self
      unsigned_ucast_eq)

lemma clamp_messages:
  assumes "is_i32 k"
  shows "clamp (max_messages_of (JObject [(''maxMessages'', json_i32 k)])) 1 1000 = clamp (as_u32 (max k 1)) 1 1000"
proof (cases "0 \<le> k")
  case False
  then have "max_messages_of (JObject [(''maxMessages'', json_i32 k)]) = 1" "as_u32 (max k 1) = 1"
    by (simp_all add: max_messages_of_def json_get_def json_i32_def as_u64_def or_default_def clamp_def as_u32_def max_def)
  then show ?thesis by simp
next
  case True
  note w = u64_of_i32 [OF assms True]
  let ?k = "word_of_int k :: u64"
  have m: "max_messages_of (JObject [(''maxMessages'', json_i32 k)]) = ucast (clamp ?k 1 1000)"
    using w(1) by (simp add: max_messages_of_def json_get_def or_default_def)
  consider "k = 0" | "1 \<le> k" "k \<le> 1000" | "1000 < k" using True by linarith
  then show ?thesis
  proof cases
    case 1
    then show ?thesis unfolding m by (simp add: clamp_def as_u32_def)
  next
    case 2
    then have "clamp ?k 1 1000 = ?k" using w(2) by (intro clamp_id) (simp_all add: word_le_nat_alt)
    then show ?thesis using w(4) m 2 by (simp add: max_def)
  next
    case 3
    then have "1000 < ?k" "1000 < as_u32 k" using w(2,3) by (simp_all add: word_less_nat_alt)
    then have "clamp ?k 1 1000 = 1000" "clamp (as_u32 k) 1 1000 = 1000"
      by (auto simp: clamp_def dest: order.strict_trans)
    moreover have "max k 1 = k" using 3 by simp
    ultimately show ?thesis by (simp only: m) (simp add: clamp_def)
  qed
qed

text \<open>
  The HTTP surface cuts the number of messages to pull to 1000, the gRPC one leaves that to
  the backend. They agree over a backend that cuts it itself, as the memory store does.
\<close>

locale clamping_backend =
  fixes bk :: "'s relay_backend"
  assumes pull_clamped: "clamp a 1 1000 = clamp b 1 1000 \<Longrightarrow> b_pull bk e n a s = b_pull bk e n b s"

interpretation memory_clamps: clamping_backend memory_backend
proof
  fix a b :: u32 and e n s
  assume c: "clamp a 1 1000 = clamp b 1 1000"
  show "b_pull memory_backend e n a s = b_pull memory_backend e n b s"
    unfolding memory_sel pull_def c by (rule refl)
qed

lemma messages_back:
  assumes "\<And>x. rl_decode lib (rl_encode lib x) = Some x"
  shows "parse_messages lib (JObject [(''messages'', JArray (map (message_value lib) ms))]) =
    (if ms = [] then Inl ''at least one message is required'' else Inr (map message_from_proto ms))"
proof -
  have "message_of lib (message_value lib m) = Inr (message_from_proto m)" for m
    using assms by (simp add: message_of_def message_value_def message_from_proto_def from_json)
  then have "collect_result (message_of lib) (map (message_value lib) ms) = Inr (map message_from_proto ms)"
    by (induction ms) simp_all
  then show ?thesis by (simp add: parse_messages_def json_get_def as_array_def)
qed

section \<open>Every method\<close>

lemmas route_eval = route_def ends_with_def

lemma route_publish:
  assumes "CHR '':'' \<notin> set n" "\<And>x. rl_decode lib (rl_encode lib x) = Some x"
  shows "agree (route bk e lib POST (n @ '':publish'') q (JObject [(''messages'', JArray (map (message_value lib) ms))]) s)
    (if ms = [] then refuse ''at least one message is required'' s
     else finish (\<lambda>ids. ids) (b_publish bk e n (map message_from_proto ms) s))"
  using trim_suffix [OF assms(1), of "''publish''"] messages_back [OF assms(2)]
  by (simp add: agree_answer agree_refuse route_eval handle_publish_def Let_def)

lemma route_pull:
  assumes "clamping_backend bk" "CHR '':'' \<notin> set n" "is_i32 k"
  shows "agree (route bk e lib POST (n @ '':pull'') q (JObject [(''maxMessages'', json_i32 k)]) s)
    (finish f (b_pull bk e n (as_u32 (max k 1)) s))"
  using trim_suffix [OF assms(2), of "''pull''"]
    clamping_backend.pull_clamped [OF assms(1) clamp_messages [OF assms(3)]]
  by (simp add: agree_answer route_eval handle_pull_def Let_def)

lemma route_acknowledge:
  assumes "CHR '':'' \<notin> set n"
  shows "agree (route bk e lib POST (n @ '':acknowledge'') q (JObject [(''ackIds'', JArray (map JString ks))]) s)
    (finish f (b_acknowledge bk e n ks s))"
  using trim_suffix [OF assms, of "''acknowledge''"]
  by (simp add: agree_answer route_eval handle_acknowledge_def ack_ids_of_def json_get_def or_default_def)

lemma route_deadline:
  assumes "CHR '':'' \<notin> set n" "is_i32 d" "0 \<le> d"
  shows "agree (route bk e lib POST (n @ '':modifyAckDeadline'') q
      (JObject [(''ackIds'', JArray (map JString ks)), (''ackDeadlineSeconds'', json_i32 d)]) s)
    (if \<not> (0 \<le> d \<and> d \<le> 600) then refuse m s else finish f (b_modify_ack_deadline bk e n ks (as_u32 d) s))"
proof -
  note w = u64_of_i32 [OF assms(2,3)]
  have "600 < (word_of_int d :: u64) \<longleftrightarrow> 600 < d" using w(2) by (auto simp: word_less_nat_alt)
  then show ?thesis
    using trim_suffix [OF assms(1), of "''modifyAckDeadline''"] w(1,4) assms(3)
    by (simp add: agree_answer agree_refuse route_eval handle_modify_ack_deadline_def ack_ids_of_def json_get_def or_default_def Let_def not_le)
qed

lemma route_seek:
  assumes "CHR '':'' \<notin> set n"
  shows "agree (route bk e lib POST (n @ '':seek'') q (JObject [(''snapshot'', JString x)]) s)
    (finish f (b_seek_to_snapshot bk e n x s))"
  using trim_suffix [OF assms, of "''seek''"]
  by (simp add: agree_answer route_eval handle_seek_def Let_def get_str_def json_get_def as_str_def)

lemma route_push_config:
  assumes "CHR '':'' \<notin> set n"
  shows "agree (route bk e lib POST (n @ '':modifyPushConfig'') q (JObject [(''pushConfig'', JObject
      [(''pushEndpoint'', JString (gp_push_endpoint cfg)), (''attributes'', json_map (gp_attributes cfg))])]) s)
    (let (push_endpoint, push_attributes) = push_config_parts (Some cfg) in
     finish f (b_modify_push_config bk e n push_endpoint push_attributes s))"
  using trim_suffix [OF assms, of "''modifyPushConfig''"]
  by (simp add: agree_answer route_eval handle_modify_push_config_def parse_push_config_def push_config_parts_def from_json Let_def)

lemma route_policies:
  assumes "CHR '':'' \<notin> set n"
  shows "agree (route bk e lib POST (n @ '':getIamPolicy'') q v s) (finish f (b_get_iam_policy bk e n s))"
    "is_i32 (p_version p) \<Longrightarrow> agree (route bk e lib POST (n @ '':setIamPolicy'') q (JObject [(''policy'', policy_json p)]) s)
       (finish g (b_set_iam_policy bk e n p s))"
    "agree (route bk e lib POST (n @ '':testIamPermissions'') q (JObject [(''permissions'', JArray (map JString ps))]) s)
       (finish h (b_test_iam_permissions bk e n ps s))"
  using trim_suffix [OF assms, of "''getIamPolicy''"] trim_suffix [OF assms, of "''setIamPolicy''"]
    trim_suffix [OF assms, of "''testIamPermissions''"] policy_json_back [of p]
  by (simp_all add: agree_answer route_eval handle_get_iam_policy_def handle_set_iam_policy_def handle_test_iam_permissions_def
      Let_def json_get_def or_default_def is_i32_def)

text \<open>The handler of each call, and the route of its form over HTTP.\<close>

lemma found:
  assumes "out = rpc_map f (authorized c n rest s)" "agree h rest"
  shows "\<exists>rest. out = authorized c n rest s \<and> agree h rest"
proof -
  have "agree h (map_rpc f (fst rest), snd rest)" using assms(2) by (simp add: agree_def alike_map)
  then show ?thesis unfolding assms(1) rpc_map_authorized by blast
qed

lemma call_and_route:
  assumes bk: "clamping_backend (gx_backend c)" and form: "rest_form lib req = Some (n, p, v)" and n: "CHR '':'' \<notin> set n"
    and codec: "\<And>x. rl_decode lib (rl_encode lib x) = Some x"
  obtains p' rest where "p = CHR '':'' # p'" "grpc_call c req s = authorized c n rest s"
    "agree (route (gx_backend c) (gx_env c) lib POST (n @ p) q v s) rest"
proof -
  let ?rest = "\<exists>rest. grpc_call c req s = authorized c n rest s \<and>
      agree (route (gx_backend c) (gx_env c) lib POST (n @ p) q v s) rest"
  have "(\<exists>p'. p = CHR '':'' # p') \<and> ?rest"
  proof (cases req)
    case (RpcPublish n' ms)
    then have f: "n' = n" "p = '':publish''" "v = JObject [(''messages'', JArray (map (message_value lib) ms))]"
      using form by (auto simp: rest_form_def)
    have "?rest" unfolding f(2,3)
      by (rule found [OF _ route_publish [OF n codec]]) (simp only: RpcPublish f(1) grpc_call.simps rpc_publish_def)
    then show ?thesis using f(2) by simp
  next
    case (RpcPull n' k)
    then show ?thesis using form
      by (auto simp: rest_form_def rpc_pull_def simp del: split_paired_Ex intro!: found [OF _ route_pull [OF bk n]] split: if_splits)
  next
    case (RpcAcknowledge n' ks)
    then show ?thesis using form
      by (auto simp: rest_form_def rpc_acknowledge_def simp del: split_paired_Ex intro!: found [OF _ route_acknowledge [OF n]])
  next
    case (RpcModifyAckDeadline n' ks d)
    then have f: "n' = n" "p = '':modifyAckDeadline''" "is_i32 d" "0 \<le> d" "v = JObject
        [(''ackIds'', JArray (map JString ks)), (''ackDeadlineSeconds'', json_i32 d)]"
      using form by (auto simp: rest_form_def split: if_splits)
    have "?rest" unfolding f(2,5)
      by (rule found [OF _ route_deadline [OF n f(3,4)]]) (simp only: RpcModifyAckDeadline f(1) grpc_call.simps rpc_modify_ack_deadline_def)
    then show ?thesis using f(2) by simp
  next
    case (RpcSeek n' target)
    then show ?thesis using form
      by (auto simp: rest_form_def rpc_seek_def simp del: split_paired_Ex intro!: found [OF _ route_seek [OF n]]
          split: option.splits seek_target.splits)
  next
    case (RpcModifyPushConfig n' cfg)
    then obtain k where f: "cfg = Some k" "n' = n" "p = '':modifyPushConfig''" "v = JObject [(''pushConfig'', JObject
        [(''pushEndpoint'', JString (gp_push_endpoint k)), (''attributes'', json_map (gp_attributes k))])]"
      using form by (auto simp: rest_form_def split: option.splits)
    have "?rest" unfolding f(3,4)
      by (rule found [OF _ route_push_config [OF n]]) (simp only: RpcModifyPushConfig f(1,2) grpc_call.simps rpc_modify_push_config_def)
    then show ?thesis using f(3) by simp
  next
    case (RpcGetIamPolicy n')
    then show ?thesis using form
      by (auto simp: rest_form_def rpc_get_iam_policy_def simp del: split_paired_Ex intro!: found [OF _ route_policies(1) [OF n]])
  next
    case (RpcSetIamPolicy n' pol)
    then show ?thesis using form
      by (auto simp: rest_form_def rpc_set_iam_policy_def policy_from_proto_def simp del: split_paired_Ex
          intro!: found [OF _ route_policies(2) [OF n]] split: option.splits if_splits)
  next
    case (RpcTestIamPermissions n' ps)
    then show ?thesis using form
      by (auto simp: rest_form_def rpc_test_iam_permissions_def simp del: split_paired_Ex intro!: found [OF _ route_policies(3) [OF n]])
  qed (use form in \<open>auto simp: rest_form_def\<close>)
  then show ?thesis using that by blast
qed

section \<open>Authorization\<close>

text \<open>Both surfaces ask for the same resource, and refuse alike.\<close>

lemma authorize_alike:
  assumes "gx_header c = header"
  shows "(case fst (authorize (gx_auth c) (gx_oidc c) header n (gx_cache c)) of
      Inl reply \<Rightarrow> (\<exists>st. fst (grpc_authorize c n) = Inl st \<and> alike (Ok reply) (RpcErr st :: unit rpc))
    | Inr _ \<Rightarrow> fst (grpc_authorize c n) = Inr ()) \<and>
    snd (authorize (gx_auth c) (gx_oidc c) header n (gx_cache c)) = snd (grpc_authorize c n)"
  using assms
  by (auto simp: authorize_def grpc_authorize_def alike_def error_reply_def status_def
      split: option.split prod.split sum.split)

end
