(* ===== verification/Backends.thy ===== *)
theory Backends
  imports Http_Relay Action_Gateway Store_Persist Surfaces
begin

text \<open>
  The other objects of the trait: \<open>RelayEventsBackend\<close> of \<open>src/relay_events_backend.rs\<close>, an
  inner memory store whose publishes go to Relay but for those to the actions topic, and
  \<open>GrpcRelayBackend\<close> of \<open>src/grpc_backend.rs\<close>, a stub. Both meet the contract of a backend;
  the first is a memory store all along, so what is shown of reachable states holds for it.
\<close>

section \<open>The relay-events backend\<close>

record relay_lib =
  re_sha :: "bytes \<Rightarrow> bytes"
  re_base64 :: "bytes \<Rightarrow> string"
  re_post :: "env \<Rightarrow> nat \<Rightarrow> http_request \<Rightarrow> http_outcome"

text \<open>Its state: the inner store, and the requests that were sent to Relay.\<close>

type_synonym relay_state = "state \<times> http_request list"

definition delegate :: "(state \<Rightarrow> 'a res \<times> state) \<Rightarrow> relay_state \<Rightarrow> 'a res \<times> relay_state" where
  "delegate f x = (let (r, s) = f (fst x) in (r, s, snd x))"

definition forward_publish ::
  "relay_config \<Rightarrow> relay_lib \<Rightarrow> env \<Rightarrow> string \<Rightarrow> new_message list \<Rightarrow> relay_state \<Rightarrow> string list res \<times> relay_state" where
  "forward_publish cfg lib e topic messages x =
     (let (r, s, reqs) = re_publish cfg (re_sha lib) (re_base64 lib) (re_post lib e) e topic messages (fst x)
      in (r, s, snd x @ reqs))"

definition relay_events_backend :: "relay_config \<Rightarrow> relay_lib \<Rightarrow> relay_state relay_backend" where
  "relay_events_backend cfg lib =
     \<lparr>b_create_topic = (\<lambda>e t. delegate (create_topic e t)),
      b_update_topic = (\<lambda>e t upd. delegate (update_topic e t upd)),
      b_get_topic = (\<lambda>e n. delegate (read1 get_topic e n)),
      b_list_topics = (\<lambda>e p k tok. delegate (read3 list_topics e p k tok)),
      b_list_topic_subscriptions = (\<lambda>e n k tok. delegate (read3 list_topic_subscriptions e n k tok)),
      b_delete_topic = (\<lambda>e n. delegate (delete_topic e n)),
      b_create_subscription = (\<lambda>e x. delegate (create_subscription e x)),
      b_update_subscription = (\<lambda>e x upd. delegate (update_subscription e x upd)),
      b_get_subscription = (\<lambda>e n. delegate (read1 get_subscription e n)),
      b_list_subscriptions = (\<lambda>e p k tok. delegate (read3 list_subscriptions e p k tok)),
      b_delete_subscription = (\<lambda>e n. delegate (delete_subscription e n)),
      b_modify_push_config = (\<lambda>e n ep a. delegate (modify_push_config e n ep a)),
      b_publish = forward_publish cfg lib,
      b_pull = (\<lambda>e n k. delegate (pull e n k)),
      b_acknowledge = (\<lambda>e n ks. delegate (acknowledge e n ks)),
      b_modify_ack_deadline = (\<lambda>e n ks secs. delegate (modify_ack_deadline e n ks secs)),
      b_seek_to_time = (\<lambda>e n t. delegate (seek_to_time e n t)),
      b_seek_to_snapshot = (\<lambda>e n x. delegate (seek_to_snapshot e n x)),
      b_create_snapshot = (\<lambda>e n x a. delegate (create_snapshot e n x a)),
      b_update_snapshot = (\<lambda>e x upd. delegate (update_snapshot e x upd)),
      b_get_snapshot = (\<lambda>e n. delegate (read1 get_snapshot e n)),
      b_list_snapshots = (\<lambda>e p k tok. delegate (read3 list_snapshots e p k tok)),
      b_delete_snapshot = (\<lambda>e n. delegate (delete_snapshot e n)),
      b_get_iam_policy = (\<lambda>e n. delegate (read1 get_iam_policy e n)),
      b_set_iam_policy = (\<lambda>e n p. delegate (set_iam_policy e n p)),
      b_test_iam_permissions = (\<lambda>e n ps. delegate (read2 test_iam_permissions e n ps)),
      b_create_schema = (\<lambda>e x. delegate (create_schema e x)),
      b_get_schema = (\<lambda>e n. delegate (read1 get_schema e n)),
      b_list_schemas = (\<lambda>e p k tok. delegate (read3 list_schemas e p k tok)),
      b_delete_schema = (\<lambda>e n. delegate (delete_schema e n)),
      b_validate_schema = (\<lambda>e x. delegate (check_schema e x)),
      b_validate_message = (\<lambda>e n x m. delegate (check_message e n x m)),
      b_list_push_subscriptions = (\<lambda>e. delegate (push_listing e)),
      b_inventory = (\<lambda>e p. delegate (read1 inventory e p))\<rparr>"

text \<open>
  Opening it: the client's failure, if it cannot be built; the inner store is a new one, or
  the one a file holds.
\<close>

definition relay_events_inner ::
  "string option \<Rightarrow> state \<Rightarrow> string \<Rightarrow> string option \<Rightarrow> string \<Rightarrow> (relay_config \<times> relay_state) res" where
  "relay_events_inner client_failure inner base_url token actions_topic =
     (case client_failure of
        Some m \<Rightarrow> Err (Internal m)
      | None \<Rightarrow>
          Ok (\<lparr>rc_base_url = trim_end_matches ''/'' base_url, rc_token = token,
               rc_actions_topic = actions_topic\<rparr>, inner, []))"

definition relay_events_new ::
  "string option \<Rightarrow> string \<Rightarrow> string option \<Rightarrow> string \<Rightarrow> (relay_config \<times> relay_state) res" where
  "relay_events_new client_failure = relay_events_inner client_failure empty_state"

definition relay_events_with_persistence ::
  "persist_lib \<Rightarrow> string option \<Rightarrow> (string + bytes) option \<Rightarrow> string option \<Rightarrow> string \<Rightarrow> string option \<Rightarrow>
   string \<Rightarrow> (relay_config \<times> relay_state) res" where
  "relay_events_with_persistence lib dir raw client_failure base_url token actions_topic =
     res_bind (with_persistence lib dir raw)
       (\<lambda>inner. relay_events_inner client_failure inner base_url token actions_topic)"

text \<open>Whether the client accepts invalid certificates, by the variable \<open>RELAY_TLS_INSECURE\<close>.\<close>

definition relay_tls_insecure :: "string option \<Rightarrow> bool" where
  "relay_tls_insecure v =
     (case v of Some x \<Rightarrow> x \<in> {''1'', ''true'', ''TRUE'', ''yes'', ''YES''} | None \<Rightarrow> False)"

text \<open>The probe; \<open>get\<close> answers a request to a URL with a bearer token by an error or a status.\<close>

definition relay_reachable :: "relay_config \<Rightarrow> (string \<Rightarrow> string option \<Rightarrow> string + nat) \<Rightarrow> bool" where
  "relay_reachable cfg get =
     (case get (rc_base_url cfg @ ''/healthz'')
         (case rc_token cfg of Some token \<Rightarrow> if token \<noteq> ''demo-token'' then Some token else None | None \<Rightarrow> None) of
        Inr code \<Rightarrow> success_status code \<or> code = 404
      | Inl _ \<Rightarrow> (case get (rc_base_url cfg) None of Inr code \<Rightarrow> code < 500 | Inl _ \<Rightarrow> False))"

section \<open>It is a memory store\<close>

lemma delegate_sel [simp]: "fst (delegate f x) = fst (f (fst x))" "fst (snd (delegate f x)) = snd (f (fst x))"
  "snd (snd (delegate f x)) = snd x"
  by (simp_all add: delegate_def split_beta)

lemma prepare_publish_returns [simp]: "prepare_publish jp topic ms s \<noteq> Panic"
proof -
  have "prepare_all jp topic schema ms \<noteq> Panic" for schema
    by (induction jp topic schema ms rule: prepare_all.induct)
      (auto simp: Let_def res_bind_def split: res.splits option.splits)
  then show ?thesis
    by (auto simp: prepare_publish_def prepare_schema_def res_bind_def split: res.splits if_splits)
qed

lemma re_publish_inner:
  assumes "re_publish cfg sha b64 post e topic ms s = (r, s', reqs)"
  shows "s' = s \<and> r \<noteq> Panic \<or>
    topic = rc_actions_topic cfg \<and> reqs = [] \<and> publish e topic (map (enrich_message (e_json e) topic) ms) s = (r, s')"
proof (cases "prepare_publish (e_json e) topic ms s")
  case (Ok ms')
  then have "ms' = map (enrich_message (e_json e) topic) ms"
    using prepare_all_Ok by (auto simp: prepare_publish_def res_bind_def split: res.splits)
  then show ?thesis
    using assms Ok forward_all_spec by (auto simp: re_publish_def split: if_splits prod.splits)
qed (use assms prepare_publish_returns in \<open>auto simp: re_publish_def\<close>)

text \<open>
  Every operation but a publish is the memory store's. A publish leaves the inner store
  alone, or does what the publish of the enriched messages does to it.
\<close>

lemma relay_events_operation:
  "(\<forall>topic ms. op \<noteq> Do (Publish topic ms)) \<Longrightarrow>
    bk_run (relay_events_backend cfg lib) e op x = delegate (bk_run memory_backend e op) x"
  "b_publish (relay_events_backend cfg lib) e topic ms x = (r, y) \<Longrightarrow>
    fst y = fst x \<and> r \<noteq> Panic \<or>
    topic = rc_actions_topic cfg \<and> snd y = snd x \<and>
      publish e topic (map (enrich_message (e_json e) topic) ms) (fst x) = (r, fst y)"
proof -
  assume "\<forall>topic ms. op \<noteq> Do (Publish topic ms)"
  then show "bk_run (relay_events_backend cfg lib) e op x = delegate (bk_run memory_backend e op) x"
  proof (cases op)
    case (Do r)
    then show ?thesis using \<open>\<forall>topic ms. op \<noteq> Do (Publish topic ms)\<close>
      by (cases r) (simp_all add: relay_events_backend_def delegate_def forget_def split_beta)
  next
    case (Ask q)
    then show ?thesis
      by (cases q) (simp_all add: relay_events_backend_def delegate_def forget_def split_beta
          read1_def read2_def read3_def push_listing_def check_schema_def check_message_def)
  qed
next
  assume a: "b_publish (relay_events_backend cfg lib) e topic ms x = (r, y)"
  obtain r1 s1 reqs where p: "re_publish cfg (re_sha lib) (re_base64 lib) (re_post lib e) e topic ms (fst x) = (r1, s1, reqs)"
    by (metis surj_pair)
  have "r = r1" "y = (s1, snd x @ reqs)"
    using a p by (simp_all add: relay_events_backend_def forward_publish_def)
  then show "fst y = fst x \<and> r \<noteq> Panic \<or>
    topic = rc_actions_topic cfg \<and> snd y = snd x \<and>
      publish e topic (map (enrich_message (e_json e) topic) ms) (fst x) = (r, fst y)"
    using re_publish_inner [OF p] by auto
qed

text \<open>So an operation answers, and takes the inner store where the memory store could go.\<close>

lemma relay_events_step:
  assumes s: "reachable (fst x)" "env_ok e (fst x)"
  shows "fst (bk_run (relay_events_backend cfg lib) e op x) \<noteq> Panic"
    and "store_allows op (fst x) \<Longrightarrow> reachable (fst (snd (bk_run (relay_events_backend cfg lib) e op x)))"
proof -
  have "fst (bk_run (relay_events_backend cfg lib) e op x) \<noteq> Panic \<and>
    (store_allows op (fst x) \<longrightarrow> reachable (fst (snd (bk_run (relay_events_backend cfg lib) e op x))))"
  proof (cases "\<exists>topic ms. op = Do (Publish topic ms)")
    case False
    then show ?thesis
      using relay_events_operation(1) [of op cfg lib e x] memory_store.answers [OF s, of op] memory_store.keeps [OF s, of op]
      by simp
  next
    case True
    then obtain topic ms where op: "op = Do (Publish topic ms)" by blast
    obtain r y where y: "b_publish (relay_events_backend cfg lib) e topic ms x = (r, y)" by (metis surj_pair)
    let ?op = "Do (Publish topic (map (enrich_message (e_json e) topic) ms))"
    have m: "fst (bk_run memory_backend e ?op (fst x)) \<noteq> Panic" "reachable (snd (bk_run memory_backend e ?op (fst x)))"
      using memory_store.answers [OF s, of ?op] memory_store.keeps [OF s, of ?op]
      by (simp_all add: store_allows_def admissible_def)
    show ?thesis
      using relay_events_operation(2) [OF y] m s by (auto simp: op y)
  qed
  then show "fst (bk_run (relay_events_backend cfg lib) e op x) \<noteq> Panic"
    "store_allows op (fst x) \<Longrightarrow> reachable (fst (snd (bk_run (relay_events_backend cfg lib) e op x)))"
    by simp_all
qed

interpretation relay_events: answering_backend "relay_events_backend cfg lib" "\<lambda>x. reachable (fst x)"
    "\<lambda>e x. env_ok e (fst x)" "\<lambda>op x. store_allows op (fst x)" for cfg lib
  by unfold_locales (simp_all add: relay_events_step)

interpretation relay_clamps: clamping_backend "relay_events_backend cfg lib" for cfg lib
proof
  fix a b :: u32 and e n x
  assume c: "clamp a 1 1000 = clamp b 1 1000"
  have "pull e n a = pull e n b" using memory_clamps.pull_clamped [OF c] by (intro ext) simp
  then show "b_pull (relay_events_backend cfg lib) e n a x = b_pull (relay_events_backend cfg lib) e n b x"
    by (simp add: relay_events_backend_def)
qed

text \<open>The action gateway over it: what reaches the inner store is the gateway's publish.\<close>

lemma forward_actions:
  obtains (refused) r where "b_publish (relay_events_backend cfg lib) e (rc_actions_topic cfg) ms x = (r, x)" "\<not> is_ok r"
  | (stored) "b_publish (relay_events_backend cfg lib) e (rc_actions_topic cfg) ms x =
      delegate (publish e (rc_actions_topic cfg) (map (enrich_message (e_json e) (rc_actions_topic cfg)) ms)) x"
proof (cases "prepare_publish (e_json e) (rc_actions_topic cfg) ms (fst x)")
  case (Ok ms')
  then have "ms' = map (enrich_message (e_json e) (rc_actions_topic cfg)) ms"
    using prepare_all_Ok by (auto simp: prepare_publish_def res_bind_def split: res.splits)
  then show ?thesis using stored Ok
    by (simp add: relay_events_backend_def forward_publish_def re_publish_def delegate_def split_beta)
qed (use refused in \<open>simp_all add: relay_events_backend_def forward_publish_def re_publish_def\<close>)

interpretation relay: idempotent_publisher "b_publish (relay_events_backend cfg lib)" "rc_actions_topic cfg"
    "\<lambda>x. store_ok (fst x)" "\<lambda>c x. seen_at (rc_actions_topic cfg) c (fst x)"
    "\<lambda>x y. meanwhile (rc_actions_topic cfg) (fst x) (fst y)" for cfg lib
proof unfold_locales
  fix e and x :: relay_state and ms c
  let ?t = "rc_actions_topic cfg"
  show "store_ok (fst x) \<Longrightarrow> store_ok (fst (snd (b_publish (relay_events_backend cfg lib) e ?t ms x)))"
    by (rule forward_actions [of cfg lib e ms x]) (simp_all add: store_ok_publish)
  show "store_ok (fst x) \<Longrightarrow> seen_at ?t c (fst x) \<Longrightarrow>
      seen_at ?t c (fst (snd (b_publish (relay_events_backend cfg lib) e ?t ms x)))"
    by (rule forward_actions [of cfg lib e ms x]) (simp_all add: memory.pub_seen)
next
  fix e and x y :: relay_state and m ids
  let ?t = "rc_actions_topic cfg"
  show "store_ok (fst x) \<Longrightarrow> b_publish (relay_events_backend cfg lib) e ?t [m] x = (Ok ids, y) \<Longrightarrow>
      client_id_of m \<noteq> [] \<Longrightarrow> seen_at ?t (client_id_of m) (fst y)"
    by (rule forward_actions [of cfg lib e "[m]" x])
      (use publish_records [of "fst x" e ?t "enrich_message (e_json e) ?t m" ids "fst y"] in
        \<open>auto simp: delegate_def split: prod.splits\<close>)
next
  fix e and x :: relay_state and m
  let ?t = "rc_actions_topic cfg"
  show "store_ok (fst x) \<Longrightarrow> client_id_of m \<noteq> [] \<Longrightarrow> seen_at ?t (client_id_of m) (fst x) \<Longrightarrow>
      snd (b_publish (relay_events_backend cfg lib) e ?t [m] x) = x"
    by (rule forward_actions [of cfg lib e "[m]" x])
      (use publish_seen_again [of "fst x" "enrich_message (e_json e) ?t m" ?t e] in
        \<open>simp_all add: delegate_def split_beta prod_eq_iff\<close>)
qed (auto intro: memory.other_inv memory.other_seen)

section \<open>The gRPC backend\<close>

text \<open>Every operation of it fails in the same way; what it was opened with is not used.\<close>

definition stub :: "'a res" where
  "stub = Err (FailedPrecondition
     (''native gRPC Relay backend is not fully implemented ''
      @ ''(no Relay gRPC proto in-repo); use --backend relay-events or http''))"

definition stub1 :: "env \<Rightarrow> 'x \<Rightarrow> 's \<Rightarrow> 'a res \<times> 's" where
  "stub1 e x s = (stub, s)"

definition stub2 :: "env \<Rightarrow> 'x \<Rightarrow> 'y \<Rightarrow> 's \<Rightarrow> 'a res \<times> 's" where
  "stub2 e x y s = (stub, s)"

definition stub3 :: "env \<Rightarrow> 'x \<Rightarrow> 'y \<Rightarrow> 'z \<Rightarrow> 's \<Rightarrow> 'a res \<times> 's" where
  "stub3 e x y z s = (stub, s)"

definition stub_listing :: "env \<Rightarrow> 's \<Rightarrow> 'a res \<times> 's" where
  "stub_listing e s = (stub, s)"

definition grpc_relay_backend :: "http_relay relay_backend" where
  "grpc_relay_backend =
     \<lparr>b_create_topic = stub1, b_update_topic = stub2, b_get_topic = stub1, b_list_topics = stub3,
      b_list_topic_subscriptions = stub3, b_delete_topic = stub1,
      b_create_subscription = stub1, b_update_subscription = stub2, b_get_subscription = stub1,
      b_list_subscriptions = stub3, b_delete_subscription = stub1, b_modify_push_config = stub3,
      b_publish = stub2, b_pull = stub2, b_acknowledge = stub2, b_modify_ack_deadline = stub3,
      b_seek_to_time = stub2, b_seek_to_snapshot = stub2,
      b_create_snapshot = stub3, b_update_snapshot = stub2, b_get_snapshot = stub1,
      b_list_snapshots = stub3, b_delete_snapshot = stub1,
      b_get_iam_policy = stub1, b_set_iam_policy = stub2, b_test_iam_permissions = stub2,
      b_create_schema = stub1, b_get_schema = stub1, b_list_schemas = stub3, b_delete_schema = stub1,
      b_validate_schema = stub1, b_validate_message = stub3,
      b_list_push_subscriptions = stub_listing,
      b_inventory = (\<lambda>e. default_inventory (stub3 e) (stub3 e))\<rparr>"

lemma grpc_relay_operation: "bk_run grpc_relay_backend e op s = (stub, s)"
proof (cases op)
  case (Do r)
  then show ?thesis
    by (cases r) (simp_all add: grpc_relay_backend_def stub1_def stub2_def stub3_def stub_def forget_def)
next
  case (Ask q)
  then show ?thesis
    by (cases q) (simp_all add: grpc_relay_backend_def stub1_def stub2_def stub3_def stub_listing_def stub_def
        forget_def default_inventory_def)
qed

interpretation grpc_relay: answering_backend grpc_relay_backend "\<lambda>s. True" "\<lambda>e s. True" "\<lambda>op s. True"
  by unfold_locales (simp_all add: grpc_relay_operation stub_def)

interpretation grpc_clamps: clamping_backend grpc_relay_backend
  by unfold_locales (simp add: grpc_relay_backend_def stub2_def)

text \<open>The probe for readiness tooling.\<close>

definition probe_http_health :: "http_relay \<Rightarrow> 'w far_end \<Rightarrow> 'w \<Rightarrow> unit res \<times> 'w" where
  "probe_http_health h send w =
     (let (out, w') = send (relay_request_of h GET ''/healthz'' [] None) w in
      (case out of
         Response code shown text \<Rightarrow>
           if success_status code \<or> code = 404 then Ok ()
           else Err (Unavailable (''Relay HTTP health returned '' @ shown))
       | SendFailed err \<Rightarrow> Err (Unavailable err), w'))"

end
