(* ===== verification/Push_Dispatch.thy ===== *)
theory Push_Dispatch
  imports Backend Relay_Events
begin

text \<open>
  \<open>src/push.rs\<close>: the dispatcher, which in each tick pulls for every push subscription, posts
  each delivery and acknowledges it when the endpoint answers with success. It works with
  any backend. A tick talks to the outside many times; \<open>k\<close> numbers these calls. Requests of
  other clients may come between any two of them. What it counts is in theory \<open>Metrics\<close>, the log is left out;
  what is posted and asked is returned as a trace.
\<close>

record push_lib =
  pu_base64 :: "bytes \<Rightarrow> string"
  pu_rfc3339 :: "time \<Rightarrow> string"

definition push_body :: "push_lib \<Rightarrow> string \<Rightarrow> delivery \<Rightarrow> json" where
  "push_body lib sub d =
     JObject [(''message'', JObject
         [(''data'', JString (pu_base64 lib (m_data (dv_message d)))),
          (''attributes'', JObject (map (\<lambda>(k, v). (k, JString v)) (m_attributes (dv_message d)))),
          (''messageId'', JString (m_id (dv_message d))),
          (''publishTime'', JString (pu_rfc3339 lib (m_published_at (dv_message d)))),
          (''orderingKey'', JString (m_ordering_key (dv_message d)))]),
       (''subscription'', JString sub)]"

text \<open>
  What is outside the tick at its k-th call: the environment of a call of the backend, what
  other clients have done to the backend since the call before, and an endpoint's answer.
\<close>

record 's outside =
  ou_env :: "nat \<Rightarrow> env"
  ou_others :: "nat \<Rightarrow> 's \<Rightarrow> 's"
  ou_post :: "nat \<Rightarrow> string \<Rightarrow> json \<Rightarrow> http_outcome"

datatype push_event =
    Asked nat operation
  | Posted string string delivery http_outcome

definition accepted_post :: "http_outcome \<Rightarrow> bool" where
  "accepted_post out = (case out of Response status _ _ \<Rightarrow> success_status status | SendFailed _ \<Rightarrow> False)"

fun push_deliveries ::
  "'s relay_backend \<Rightarrow> push_lib \<Rightarrow> 's outside \<Rightarrow> string \<Rightarrow> string \<Rightarrow>
   delivery list \<Rightarrow> nat \<Rightarrow> 's \<Rightarrow> unit res \<times> push_event list \<times> nat \<times> 's" where
  "push_deliveries bk lib out sub endpoint [] k s = (Ok (), [], k, s)"
| "push_deliveries bk lib out sub endpoint (d # ds) k s =
     (let answer = ou_post out k endpoint (push_body lib sub d) in
      if accepted_post answer then
        (let (a, s1) = b_acknowledge bk (ou_env out (Suc k)) sub [dv_ack_id d] (ou_others out (Suc k) s);
             evs = [Posted sub endpoint d answer, Asked (Suc k) (Do (Acknowledge sub [dv_ack_id d]))]
         in (case a of
               Panic \<Rightarrow> (Panic, evs, Suc (Suc k), s1)
             | _ \<Rightarrow>
                 (let (r, evs', k', s') = push_deliveries bk lib out sub endpoint ds (Suc (Suc k)) s1
                  in (r, evs @ evs', k', s'))))
      else
        (let (r, evs', k', s') = push_deliveries bk lib out sub endpoint ds (Suc k) s
         in (r, Posted sub endpoint d answer # evs', k', s')))"

fun push_subscriptions ::
  "'s relay_backend \<Rightarrow> push_lib \<Rightarrow> 's outside \<Rightarrow>
   subscription_spec list \<Rightarrow> nat \<Rightarrow> 's \<Rightarrow> unit res \<times> push_event list \<times> nat \<times> 's" where
  "push_subscriptions bk lib out [] k s = (Ok (), [], k, s)"
| "push_subscriptions bk lib out (sub # subs) k s =
     (case s_push_endpoint sub of
        None \<Rightarrow> push_subscriptions bk lib out subs k s
      | Some endpoint \<Rightarrow>
          (let (p, s1) = b_pull bk (ou_env out k) (s_name sub) 20 (ou_others out k s);
               ev = Asked k (Do (Pull (s_name sub) 20))
           in
           case p of
             Panic \<Rightarrow> (Panic, [ev], Suc k, s1)
           | Err _ \<Rightarrow>
               (let (r, evs, k', s') = push_subscriptions bk lib out subs (Suc k) s1
                in (r, ev # evs, k', s'))
           | Ok deliveries \<Rightarrow>
               (let (r1, evs1, k1, s2) =
                      push_deliveries bk lib out (s_name sub) endpoint deliveries (Suc k) s1
                in case r1 of
                     Ok _ \<Rightarrow>
                       (let (r, evs, k', s') = push_subscriptions bk lib out subs k1 s2
                        in (r, ev # evs1 @ evs, k', s'))
                   | _ \<Rightarrow> (r1, ev # evs1, k1, s2))))"

definition tick ::
  "'s relay_backend \<Rightarrow> push_lib \<Rightarrow> 's outside \<Rightarrow> 's \<Rightarrow> unit res \<times> push_event list \<times> nat \<times> 's" where
  "tick bk lib out s =
     (let (p, s1) = b_list_push_subscriptions bk (ou_env out 0) (ou_others out 0 s);
          ev = Asked 0 (Ask ListPushSubscriptions)
      in case p of
           Ok subs \<Rightarrow>
             (let (r, evs, k, s') = push_subscriptions bk lib out subs 1 s1 in (r, ev # evs, k, s'))
         | Err err \<Rightarrow> (Err err, [ev], 1, s1)
         | Panic \<Rightarrow> (Panic, [ev], 1, s1))"

text \<open>
  The task that \<open>spawn\<close> starts: one tick after another, each with an outside of its own, for
  as long as the process lives. A tick that fails is logged and the next one comes; a panic
  ends the task, and so does an HTTP client that cannot be built, before the first tick.
\<close>

fun push_loop ::
  "'s relay_backend \<Rightarrow> push_lib \<Rightarrow> 's outside list \<Rightarrow> 's \<Rightarrow> push_event list list \<times> 's" where
  "push_loop bk lib [] s = ([], s)"
| "push_loop bk lib (out # outs) s =
     (let (r, evs, k, s1) = tick bk lib out s in
      case r of
        Panic \<Rightarrow> ([evs], s1)
      | _ \<Rightarrow> (let (evss, s') = push_loop bk lib outs s1 in (evs # evss, s')))"

definition push_spawn ::
  "bool \<Rightarrow> 's relay_backend \<Rightarrow> push_lib \<Rightarrow> 's outside list \<Rightarrow> 's \<Rightarrow> push_event list list \<times> 's" where
  "push_spawn client_built bk lib outs s = (if client_built then push_loop bk lib outs s else ([], s))"

text \<open>Whether that client accepts invalid certificates, by the variable \<open>PUBSUB_PUSH_TLS_INSECURE\<close>.\<close>

definition push_tls_insecure :: "string option \<Rightarrow> bool" where
  "push_tls_insecure v = (case v of Some x \<Rightarrow> x \<in> {''1'', ''true'', ''TRUE''} | None \<Rightarrow> False)"

section \<open>A tick is a run of operations\<close>

text \<open>The operations of a trace, each after what others did before it.\<close>

fun replay :: "'s relay_backend \<Rightarrow> 's outside \<Rightarrow> push_event list \<Rightarrow> 's \<Rightarrow> 's" where
  "replay bk out [] s = s"
| "replay bk out (Asked k op # evs) s = replay bk out evs (snd (bk_run bk (ou_env out k) op (ou_others out k s)))"
| "replay bk out (Posted _ _ _ _ # evs) s = replay bk out evs s"

lemma replay_append [simp]: "replay bk out (xs @ ys) s = replay bk out ys (replay bk out xs s)"
  by (induction bk out xs s rule: replay.induct) simp_all

lemma push_deliveries_replay:
  "push_deliveries bk lib out sub endpoint ds k s = (r, evs, k', s') \<Longrightarrow> s' = replay bk out evs s"
proof (induction ds arbitrary: k s r evs k' s')
  case Nil
  then show ?case by simp
next
  case (Cons d ds)
  let ?out = "ou_post out k endpoint (push_body lib sub d)"
  obtain a s1 where a: "b_acknowledge bk (ou_env out (Suc k)) sub [dv_ack_id d] (ou_others out (Suc k) s) = (a, s1)"
    by (metis surj_pair)
  obtain r1 e1 k1 t1 where x: "push_deliveries bk lib out sub endpoint ds (Suc (Suc k)) s1 = (r1, e1, k1, t1)"
    by (metis surj_pair)
  obtain r2 e2 k2 t2 where y: "push_deliveries bk lib out sub endpoint ds (Suc k) s = (r2, e2, k2, t2)"
    by (metis surj_pair)
  show ?case
    using Cons.prems Cons.IH [OF x] Cons.IH [OF y] a x y
    by (cases "accepted_post ?out") (auto simp: Let_def split: res.splits)
qed

lemma push_subscriptions_replay:
  "push_subscriptions bk lib out subs k s = (r, evs, k', s') \<Longrightarrow> s' = replay bk out evs s"
proof (induction subs arbitrary: k s r evs k' s')
  case Nil
  then show ?case by simp
next
  case (Cons sub subs)
  show ?case
  proof (cases "s_push_endpoint sub")
    case None
    then show ?thesis using Cons by simp
  next
    case (Some endpoint)
    obtain p s1 where p: "b_pull bk (ou_env out k) (s_name sub) 20 (ou_others out k s) = (p, s1)" by (metis surj_pair)
    show ?thesis
    proof (cases p)
      case (Ok ds)
      obtain r1 e1 k1 s2 where d: "push_deliveries bk lib out (s_name sub) endpoint ds (Suc k) s1 = (r1, e1, k1, s2)"
        by (metis surj_pair)
      obtain r2 e2 k2 s3 where t: "push_subscriptions bk lib out subs k1 s2 = (r2, e2, k2, s3)"
        by (metis surj_pair)
      show ?thesis
        using Cons.prems Cons.IH [OF t] push_deliveries_replay [OF d] Some p Ok d t
        by (auto simp: Let_def split: res.splits)
    next
      case (Err err)
      obtain r2 e2 k2 s3 where t: "push_subscriptions bk lib out subs (Suc k) s1 = (r2, e2, k2, s3)"
        by (metis surj_pair)
      show ?thesis using Cons.prems Cons.IH [OF t] Some p Err t by auto
    next
      case Panic
      then show ?thesis using Cons.prems Some p by auto
    qed
  qed
qed

lemma tick_replay:
  assumes "tick bk lib out s = (r, evs, k', s')"
  shows "s' = replay bk out evs s"
proof -
  obtain p s1 where p: "b_list_push_subscriptions bk (ou_env out 0) (ou_others out 0 s) = (p, s1)" by (metis surj_pair)
  show ?thesis
    using assms p by (auto simp: tick_def Let_def dest: push_subscriptions_replay split: res.splits prod.splits)
qed

section \<open>What a tick asks\<close>

text \<open>
  A trace is orderly when every acknowledgement comes directly after the successful post
  of the delivery it names, every successful post is followed by one, and all else that is
  asked is a pull of twenty.
\<close>

fun orderly :: "push_event list \<Rightarrow> bool" where
  "orderly [] = True"
| "orderly (Posted sub endpoint d out # evs) =
     (if accepted_post out then
        (case evs of
           Asked k op # evs' \<Rightarrow> op = Do (Acknowledge sub [dv_ack_id d]) \<and> orderly evs'
         | _ \<Rightarrow> False)
      else orderly evs)"
| "orderly (Asked k op # evs) = ((\<exists>sub. op = Do (Pull sub 20)) \<and> orderly evs)"

lemma orderly_append: "orderly xs \<Longrightarrow> orderly ys \<Longrightarrow> orderly (xs @ ys)"
proof (induction xs rule: orderly.induct)
  case (2 sub endpoint d out evs)
  then show ?case by (auto split: list.splits push_event.splits if_splits)
qed auto

lemma push_deliveries_orderly:
  "push_deliveries bk lib out sub endpoint ds k s = (r, evs, k', s') \<Longrightarrow> orderly evs"
proof (induction ds arbitrary: k s r evs k' s')
  case Nil
  then show ?case by simp
next
  case (Cons d ds)
  let ?out = "ou_post out k endpoint (push_body lib sub d)"
  obtain a s1 where a: "b_acknowledge bk (ou_env out (Suc k)) sub [dv_ack_id d] (ou_others out (Suc k) s) = (a, s1)"
    by (metis surj_pair)
  obtain r1 e1 k1 t1 where x: "push_deliveries bk lib out sub endpoint ds (Suc (Suc k)) s1 = (r1, e1, k1, t1)"
    by (metis surj_pair)
  obtain r2 e2 k2 t2 where y: "push_deliveries bk lib out sub endpoint ds (Suc k) s = (r2, e2, k2, t2)"
    by (metis surj_pair)
  show ?case
    using Cons.prems Cons.IH [OF x] Cons.IH [OF y] a x y
    by (cases "accepted_post ?out") (auto simp: Let_def split: res.splits)
qed

lemma push_subscriptions_orderly:
  "push_subscriptions bk lib out subs k s = (r, evs, k', s') \<Longrightarrow> orderly evs"
proof (induction subs arbitrary: k s r evs k' s')
  case Nil
  then show ?case by simp
next
  case (Cons sub subs)
  show ?case
  proof (cases "s_push_endpoint sub")
    case None
    then show ?thesis using Cons by simp
  next
    case (Some endpoint)
    obtain p s1 where p: "b_pull bk (ou_env out k) (s_name sub) 20 (ou_others out k s) = (p, s1)" by (metis surj_pair)
    show ?thesis
    proof (cases p)
      case (Ok ds)
      obtain r1 e1 k1 s2 where d: "push_deliveries bk lib out (s_name sub) endpoint ds (Suc k) s1 = (r1, e1, k1, s2)"
        by (metis surj_pair)
      obtain r2 e2 k2 s3 where t: "push_subscriptions bk lib out subs k1 s2 = (r2, e2, k2, s3)"
        by (metis surj_pair)
      show ?thesis
        using Cons.prems Cons.IH [OF t] push_deliveries_orderly [OF d] Some p Ok d t
        by (auto simp: Let_def intro: orderly_append split: res.splits)
    next
      case (Err err)
      obtain r2 e2 k2 s3 where t: "push_subscriptions bk lib out subs (Suc k) s1 = (r2, e2, k2, s3)"
        by (metis surj_pair)
      show ?thesis using Cons.prems Cons.IH [OF t] Some p Err t by auto
    next
      case Panic
      then show ?thesis using Cons.prems Some p by auto
    qed
  qed
qed

lemma tick_orderly:
  assumes "tick bk lib out s = (r, evs, k', s')"
  obtains evs' where "evs = Asked 0 (Ask ListPushSubscriptions) # evs'" "orderly evs'"
proof -
  obtain p s1 where p: "b_list_push_subscriptions bk (ou_env out 0) (ou_others out 0 s) = (p, s1)" by (metis surj_pair)
  show ?thesis
  proof (cases p)
    case (Ok subs)
    then show ?thesis using assms p that
      by (auto simp: tick_def Let_def dest: push_subscriptions_orderly split: prod.splits)
  qed (use assms p that in \<open>auto simp: tick_def Let_def\<close>)
qed

text \<open>The deliveries posted, in order: all that were pulled, when nothing panics.\<close>

fun posted :: "push_event list \<Rightarrow> delivery list" where
  "posted [] = []"
| "posted (Posted _ _ d _ # evs) = d # posted evs"
| "posted (Asked _ _ # evs) = posted evs"

lemma push_deliveries_posted:
  "push_deliveries bk lib out sub endpoint ds k s = (Ok u, evs, k', s') \<Longrightarrow> posted evs = ds"
proof (induction ds arbitrary: k s evs k' s')
  case Nil
  then show ?case by simp
next
  case (Cons d ds)
  let ?out = "ou_post out k endpoint (push_body lib sub d)"
  obtain a s1 where a: "b_acknowledge bk (ou_env out (Suc k)) sub [dv_ack_id d] (ou_others out (Suc k) s) = (a, s1)"
    by (metis surj_pair)
  obtain r1 e1 k1 t1 where x: "push_deliveries bk lib out sub endpoint ds (Suc (Suc k)) s1 = (r1, e1, k1, t1)"
    by (metis surj_pair)
  obtain r2 e2 k2 t2 where y: "push_deliveries bk lib out sub endpoint ds (Suc k) s = (r2, e2, k2, t2)"
    by (metis surj_pair)
  have "r1 = Ok u \<Longrightarrow> posted e1 = ds" "r2 = Ok u \<Longrightarrow> posted e2 = ds"
    using Cons.IH x y by blast+
  then show ?case
    using Cons.prems a x y
    by (cases "accepted_post ?out") (auto simp: Let_def split: res.splits)
qed

end
