(* ===== verification/Tls_Files.thy ===== *)
theory Tls_Files
  imports Relay_Model
begin

text \<open>
  \<open>src/tls.rs\<close>: the certificate and key of the listeners, read from two files or generated
  once and kept there. What the file system and the generator answer is a parameter; the two
  files are the state, with who may read the key's.
\<close>

record tls_disk =
  td_cert :: "bytes option"
  td_key :: "bytes option"
  td_key_private :: bool

record tls_material =
  tm_cert_pem :: bytes
  tm_key_pem :: bytes

text \<open>
  What can go wrong, as the error it gives: reading either file, generating, creating the
  certificate's directory, writing either file (which then holds what was written so far),
  and restricting the key's permissions.
\<close>

record tls_outside =
  to_read_cert :: "string option"
  to_read_key :: "string option"
  to_generated :: "string + bytes \<times> bytes"
  to_create_dir :: "string option"
  to_write_cert :: "(string \<times> bytes option) option"
  to_write_key :: "(string \<times> bytes option) option"
  to_set_permissions :: "string option"

text \<open>A file that is written keeps its permissions when it was there, else everyone may read it.\<close>

definition write_key :: "bytes option \<Rightarrow> tls_disk \<Rightarrow> tls_disk" where
  "write_key content d =
     d\<lparr>td_key := content, td_key_private := (td_key d \<noteq> None \<and> td_key_private d)\<rparr>"

definition load_or_generate_self_signed :: "tls_outside \<Rightarrow> tls_disk \<Rightarrow> (string + tls_material) \<times> tls_disk" where
  "load_or_generate_self_signed out d =
     (case (td_cert d, td_key d) of
        (Some cert, Some key) \<Rightarrow>
          ((case to_read_cert out of
              Some m \<Rightarrow> Inl m
            | None \<Rightarrow>
                (case to_read_key out of
                   Some m \<Rightarrow> Inl m
                 | None \<Rightarrow> Inr \<lparr>tm_cert_pem = cert, tm_key_pem = key\<rparr>)), d)
      | _ \<Rightarrow>
          (case to_generated out of
             Inl m \<Rightarrow> (Inl m, d)
           | Inr (cert_pem, key_pem) \<Rightarrow>
               (case to_create_dir out of
                  Some m \<Rightarrow> (Inl m, d)
                | None \<Rightarrow>
                    (case to_write_cert out of
                       Some (m, partial) \<Rightarrow> (Inl m, d\<lparr>td_cert := partial\<rparr>)
                     | None \<Rightarrow>
                         (let d1 = d\<lparr>td_cert := Some cert_pem\<rparr> in
                          case to_write_key out of
                            Some (m, partial) \<Rightarrow> (Inl m, write_key partial d1)
                          | None \<Rightarrow>
                              (let d2 = write_key (Some key_pem) d1 in
                               case to_set_permissions out of
                                 Some m \<Rightarrow> (Inl m, d2)
                               | None \<Rightarrow>
                                   (Inr \<lparr>tm_cert_pem = cert_pem, tm_key_pem = key_pem\<rparr>,
                                    d2\<lparr>td_key_private := True\<rparr>)))))))"

section \<open>The same certificate at every start\<close>

text \<open>
  What a start served is on disk, and every later start serves it, or fails to read it.
\<close>

lemma tls_kept:
  assumes "load_or_generate_self_signed out d = (Inr m, d')"
  shows "td_cert d' = Some (tm_cert_pem m)" "td_key d' = Some (tm_key_pem m)"
    "snd (load_or_generate_self_signed out' d') = d'"
    "fst (load_or_generate_self_signed out' d') = Inr m' \<Longrightarrow> m' = m"
    "to_read_cert out' = None \<Longrightarrow> to_read_key out' = None \<Longrightarrow>
      load_or_generate_self_signed out' d' = (Inr m, d')"
proof -
  show c: "td_cert d' = Some (tm_cert_pem m)" and k: "td_key d' = Some (tm_key_pem m)"
    using assms by (auto simp: load_or_generate_self_signed_def write_key_def Let_def
        split: option.splits sum.splits prod.splits)
  show "snd (load_or_generate_self_signed out' d') = d'"
    by (simp add: load_or_generate_self_signed_def c k)
  show "fst (load_or_generate_self_signed out' d') = Inr m' \<Longrightarrow> m' = m"
    by (auto simp: load_or_generate_self_signed_def c k split: option.splits)
  show "to_read_cert out' = None \<Longrightarrow> to_read_key out' = None \<Longrightarrow>
      load_or_generate_self_signed out' d' = (Inr m, d')"
    by (simp add: load_or_generate_self_signed_def c k)
qed

text \<open>A generated key is its owner's to read once the start succeeds.\<close>

lemma tls_generated_private:
  assumes "load_or_generate_self_signed out d = (Inr m, d')" "td_cert d = None \<or> td_key d = None"
  shows "td_key_private d'"
  using assms by (auto simp: load_or_generate_self_signed_def Let_def
      split: option.splits sum.splits prod.splits)

text \<open>
  When restricting the permissions fails, so does the start; but the files are there, and the
  next start serves with a key that everyone may read.
\<close>

lemma tls_open_key:
  assumes "td_key d = None" "to_generated out = Inr (cert, key)" "to_create_dir out = None"
    and "to_write_cert out = None" "to_write_key out = None" "to_set_permissions out = Some m"
    and "to_read_cert out' = None" "to_read_key out' = None"
  shows "fst (load_or_generate_self_signed out d) = Inl m"
    "load_or_generate_self_signed out' (snd (load_or_generate_self_signed out d)) =
      (Inr \<lparr>tm_cert_pem = cert, tm_key_pem = key\<rparr>, d\<lparr>td_cert := Some cert, td_key := Some key, td_key_private := False\<rparr>)"
  using assms by (simp_all add: load_or_generate_self_signed_def write_key_def split: option.split)

end
