(* ===== verification/Startup.thy ===== *)
theory Startup
  imports Backends Push_Dispatch Tls_Files
begin

text \<open>
  Configuration and start-up: \<open>src/config.rs\<close>, \<open>AuthConfig::from_env\<close> of \<open>src/auth.rs\<close>, and
  \<open>main\<close> of \<open>src/main.rs\<close> up to the point where the two listeners serve. The command line
  parser is a library: a configuration is what it returns, \<open>config_default\<close> what it returns
  when nothing is given. File system, HTTP client and environment variables are parameters.
\<close>

section \<open>Configuration\<close>

datatype backend_kind = Memory | Http | RelayEvents | Grpc

definition fasal_catalog :: "string list" where
  "fasal_catalog =
     [''irrigation.required'', ''soil.moisture.critical'', ''fertigation.required'',
      ''disease.risk.critical'', ''device.control.required'', ''crop.advisory'',
      ''weather.advisory'', ''spray.advisory'', ''frost.alert'', ''pest.advisory'']"

definition edge_catalog :: "string list" where
  "edge_catalog =
     [''firewater.tank.low'', ''firewater.pressure.low'', ''firewater.demand.active'',
      ''firewater.pump.fail'', ''firewater.valve.closed'', ''firewater.flow.detected'',
      ''firewater.freeze.risk'', ''firewater.hydrant.tamper'', ''firewater.leak.acoustic'',
      ''firewater.pump.vibration'', ''edge.vision.fire'', ''edge.comms.down'',
      ''edge.power.fail'', ''edge.gas.alarm'', ''edge.control.fault'', ''edge.access.breach'',
      ''edge.runtime.down'', ''telemetry.sample'']"

definition remote_edge_catalog :: "string list" where
  "remote_edge_catalog =
     [''remote-edge.link.starlink.degraded'', ''remote-edge.link.offline'',
      ''remote-edge.galleon.thermal'', ''remote-edge.vision.intrusion'',
      ''remote-edge.iot.flood'', ''remote-edge.uav.rtb'']"

definition fleet_catalog :: "string list" where
  "fleet_catalog =
     [''fleet.power.island'', ''fleet.robot.lost'', ''fleet.ot.ids'',
      ''fleet.env.exceedance'', ''fleet.dc.thermal'', ''fleet.access.fault'']"

definition relay_events_catalog :: "string list" where
  "relay_events_catalog = fasal_catalog @ edge_catalog @ remote_edge_catalog @ fleet_catalog"

text \<open>\<open>quote\<close> renders a string with \<open>Debug\<close>.\<close>

definition parse_env_bool :: "(string \<Rightarrow> string) \<Rightarrow> string \<Rightarrow> string + bool" where
  "parse_env_bool quote s =
     (if s \<in> {''1'', ''true'', ''TRUE'', ''yes'', ''YES''} then Inr True
      else if s \<in> {''0'', ''false'', ''FALSE'', ''no'', ''NO''} then Inr False
      else Inl (''invalid boolean '' @ quote s @ '', expected 0/1/true/false''))"

record config =
  cf_grpc_addr :: string
  cf_http_addr :: string
  cf_tls_cert :: string
  cf_tls_key :: string
  cf_tls_san :: "string list"
  cf_backend :: backend_kind
  cf_relay_base_url :: string
  cf_relay_auth_token :: "string option"
  cf_gateway_auth_token :: "string option"
  cf_relay_http_timeout_seconds :: u64
  cf_fasal_gcp_project :: string
  cf_fasal_actions_topic :: string
  cf_fasal_actions_subscription :: string
  cf_data_dir :: string
  cf_persist :: bool
  cf_allowed_projects :: "string list"
  cf_identity_project_map :: string
  cf_push_interval_seconds :: u64

definition config_default :: config where
  "config_default =
     \<lparr>cf_grpc_addr = ''0.0.0.0:50051'', cf_http_addr = ''0.0.0.0:8080'',
      cf_tls_cert = ''/var/lib/relay-pubsub/tls/cert.pem'',
      cf_tls_key = ''/var/lib/relay-pubsub/tls/key.pem'',
      cf_tls_san = [''localhost'', ''relay-pubsub''], cf_backend = Memory,
      cf_relay_base_url = ''http://relay:9090'', cf_relay_auth_token = None,
      cf_gateway_auth_token = None, cf_relay_http_timeout_seconds = 15,
      cf_fasal_gcp_project = ''fasal-onprem'', cf_fasal_actions_topic = ''farm-actions'',
      cf_fasal_actions_subscription = ''farm-actions-sub'',
      cf_data_dir = ''/var/lib/relay-pubsub/data'', cf_persist = False,
      cf_allowed_projects = [], cf_identity_project_map = [], cf_push_interval_seconds = 2\<rparr>"

text \<open>\<open>filter(|s| !s.is_empty())\<close>, and the two tokens it is applied to.\<close>

definition nonempty :: "string option \<Rightarrow> string option" where
  "nonempty v = (case v of Some s \<Rightarrow> if s = [] then None else Some s | None \<Rightarrow> None)"

definition without_empty_tokens :: "config \<Rightarrow> config" where
  "without_empty_tokens cfg =
     cfg\<lparr>cf_relay_auth_token := nonempty (cf_relay_auth_token cfg),
         cf_gateway_auth_token := nonempty (cf_gateway_auth_token cfg)\<rparr>"

definition actions_topic_of :: "config \<Rightarrow> string" where
  "actions_topic_of cfg = ''projects/'' @ cf_fasal_gcp_project cfg @ ''/topics/'' @ cf_fasal_actions_topic cfg"

definition actions_subscription_of :: "config \<Rightarrow> string" where
  "actions_subscription_of cfg =
     ''projects/'' @ cf_fasal_gcp_project cfg @ ''/subscriptions/'' @ cf_fasal_actions_subscription cfg"

section \<open>Authentication\<close>

definition auth_from_env ::
  "(string \<Rightarrow> string option) \<Rightarrow> string option \<Rightarrow> string list \<Rightarrow> (string, string) hmap \<Rightarrow> auth_config" where
  "auth_from_env var static_token allowed_projects identity_project_map =
     \<lparr>a_static_token = static_token,
      a_oidc_jwks_url = nonempty (var ''PUBSUB_OIDC_JWKS_URL''),
      a_oidc_audience = nonempty (var ''PUBSUB_OIDC_AUDIENCE''),
      a_oidc_issuer = nonempty (var ''PUBSUB_OIDC_ISSUER''),
      a_allowed_projects = allowed_projects,
      a_identity_project_map = identity_project_map\<rparr>"

definition authenticator_of :: "(string \<Rightarrow> string option) \<Rightarrow> config \<Rightarrow> auth_config option" where
  "authenticator_of var cfg =
     (let auth = auth_from_env var (cf_gateway_auth_token cfg) (cf_allowed_projects cfg)
            (parse_identity_project_map (cf_identity_project_map cfg))
      in if auth_required auth \<or> a_allowed_projects auth \<noteq> [] then Some auth else None)"

section \<open>The backend\<close>

text \<open>What is created at a start with the relay-events backend, whatever comes of it.\<close>

definition catalog_topic :: "config \<Rightarrow> string \<Rightarrow> topic_spec" where
  "catalog_topic cfg name =
     topic_default\<lparr>t_name := ''projects/'' @ cf_fasal_gcp_project cfg @ ''/topics/'' @ name\<rparr>"

definition actions_queue :: "config \<Rightarrow> subscription_spec" where
  "actions_queue cfg =
     subscription_default\<lparr>s_name := actions_subscription_of cfg, s_topic := actions_topic_of cfg,
       s_ack_deadline_seconds := 30\<rparr>"

definition seeds :: "config \<Rightarrow> request list" where
  "seeds cfg =
     map (\<lambda>name. CreateTopic (catalog_topic cfg name)) relay_events_catalog
     @ [CreateTopic (topic_default\<lparr>t_name := actions_topic_of cfg\<rparr>), CreateSubscription (actions_queue cfg)]"

fun seed :: "'s relay_backend \<Rightarrow> (nat \<Rightarrow> env) \<Rightarrow> nat \<Rightarrow> request list \<Rightarrow> 's \<Rightarrow> unit res \<times> 's" where
  "seed bk envs k [] s = (Ok (), s)"
| "seed bk envs k (r # rs) s =
     (case bk_perform bk (envs k) r s of
        (Panic, s') \<Rightarrow> (Panic, s')
      | (_, s') \<Rightarrow> seed bk envs (Suc k) rs s')"

text \<open>
  What is outside at the start: the file of the state (its directory's and its reading's
  failure, and how it is read), whether an HTTP client can be built, the libraries of the
  relay-events backend, the environments of the calls, the far end of the HTTP backend.
\<close>

record 'w start_outside =
  so_lib :: persist_lib
  so_dir :: "string option"
  so_raw :: "(string + bytes) option"
  so_client :: "string option"
  so_relay :: relay_lib
  so_envs :: "nat \<Rightarrow> env"
  so_far :: 'w

text \<open>A backend with what it was opened with, and its state.\<close>

datatype 'w opened =
    Opened_Memory state
  | Opened_Http http_relay "'w \<times> state"
  | Opened_Relay_Events relay_config relay_state
  | Opened_Grpc http_relay

definition open_memory :: "'w start_outside \<Rightarrow> config \<Rightarrow> state res" where
  "open_memory out cfg =
     (if cf_persist cfg then with_persistence (so_lib out) (so_dir out) (so_raw out) else Ok empty_state)"

definition open_client :: "'w start_outside \<Rightarrow> config \<Rightarrow> http_relay res" where
  "open_client out cfg =
     (case so_client out of
        Some m \<Rightarrow> Err (Internal m)
      | None \<Rightarrow> Ok (http_relay_new (cf_relay_base_url cfg) (cf_relay_auth_token cfg)))"

definition open_relay_events :: "'w start_outside \<Rightarrow> config \<Rightarrow> (relay_config \<times> relay_state) res" where
  "open_relay_events out cfg =
     (case (if cf_persist cfg
            then relay_events_with_persistence (so_lib out) (so_dir out) (so_raw out) (so_client out)
              (cf_relay_base_url cfg) (cf_relay_auth_token cfg) (actions_topic_of cfg)
            else relay_events_new (so_client out) (cf_relay_base_url cfg) (cf_relay_auth_token cfg)
              (actions_topic_of cfg)) of
        Ok (rc, x) \<Rightarrow>
          (case seed (relay_events_backend rc (so_relay out)) (so_envs out) 0 (seeds cfg) x of
             (Panic, x') \<Rightarrow> Panic
           | (_, x') \<Rightarrow> Ok (rc, x'))
      | Err err \<Rightarrow> Err err
      | Panic \<Rightarrow> Panic)"

definition open_backend :: "'w start_outside \<Rightarrow> config \<Rightarrow> 'w opened res" where
  "open_backend out cfg =
     (case cf_backend cfg of
        Memory \<Rightarrow> res_bind (open_memory out cfg) (\<lambda>s. Ok (Opened_Memory s))
      | Http \<Rightarrow> res_bind (open_client out cfg) (\<lambda>h. Ok (Opened_Http h (so_far out, empty_state)))
      | RelayEvents \<Rightarrow> res_bind (open_relay_events out cfg) (\<lambda>(rc, x). Ok (Opened_Relay_Events rc x))
      | Grpc \<Rightarrow> res_bind (open_client out cfg) (\<lambda>h. Ok (Opened_Grpc h)))"

section \<open>The server\<close>

text \<open>
  What \<open>main\<close> hands to the two services: the authenticator they share, the settings of the
  readiness probe, the log buffer, the state of the action gateway when its route is served,
  the interval of the push dispatcher when it is started, and the certificate.
\<close>

record server =
  sv_authenticator :: "auth_config option"
  sv_check_relay_ready :: bool
  sv_relay_base_url :: string
  sv_relay_token :: "string option"
  sv_logs :: log_buffer
  sv_actions :: "action_gateway option"
  sv_push_interval :: "u64 option"
  sv_tls :: tls_material

datatype start_error = Backend_Failed backend_error | Tls_Failed string | Start_Panicked

definition start_server ::
  "(string \<Rightarrow> string option) \<Rightarrow> 'w start_outside \<Rightarrow> tls_outside \<Rightarrow> config \<Rightarrow> tls_disk \<Rightarrow>
   (start_error + 'w opened \<times> server) \<times> tls_disk" where
  "start_server var out tls_out given disk =
     (let cfg = without_empty_tokens given; is_relay_events = (cf_backend cfg = RelayEvents) in
      case open_backend out cfg of
        Err err \<Rightarrow> (Inl (Backend_Failed err), disk)
      | Panic \<Rightarrow> (Inl Start_Panicked, disk)
      | Ok backend \<Rightarrow>
          (let (tls, disk') = load_or_generate_self_signed tls_out disk in
           case tls of
             Inl m \<Rightarrow> (Inl (Tls_Failed m), disk')
           | Inr material \<Rightarrow>
               (Inr (backend,
                  \<lparr>sv_authenticator = authenticator_of var cfg,
                   sv_check_relay_ready = is_relay_events,
                   sv_relay_base_url = cf_relay_base_url cfg,
                   sv_relay_token = cf_relay_auth_token cfg,
                   sv_logs = log_new 2000,
                   sv_actions = (if is_relay_events then Some (gateway_new (actions_topic_of cfg)) else None),
                   sv_push_interval = (if 0 < cf_push_interval_seconds cfg
                                       then Some (cf_push_interval_seconds cfg) else None),
                   sv_tls = material\<rparr>), disk')))"

section \<open>The end of the process\<close>

text \<open>
  How the task of a listener ends: served to its end, with an error of its own, or as a task
  that panicked or was aborted. \<open>main\<close> waits for the first of three: either task, or a signal.
  A certificate the HTTPS listener cannot use ends it before that.
\<close>

datatype task_end = Served | Task_Failed string | Join_Failed string

datatype process_signal = SIGINT | SIGTERM

datatype first_event = Grpc_Ended task_end | Http_Ended task_end | Signalled process_signal

primrec task_result :: "task_end \<Rightarrow> string + unit" where
  "task_result Served = Inr ()"
| "task_result (Task_Failed m) = Inl m"
| "task_result (Join_Failed m) = Inl m"

text \<open>\<open>SIGTERM\<close> is listened to when its handler could be installed, \<open>SIGINT\<close> always.\<close>

definition shutdown_signal :: "bool \<Rightarrow> process_signal \<Rightarrow> bool" where
  "shutdown_signal term_installed sig = (sig = SIGINT \<or> term_installed)"

text \<open>The result of \<open>main\<close>, once the first event is there; \<open>None\<close> while it still waits.\<close>

definition main_result :: "string option \<Rightarrow> bool \<Rightarrow> first_event \<Rightarrow> (string + unit) option" where
  "main_result tls_unusable term_installed ev =
     (case tls_unusable of
        Some m \<Rightarrow> Some (Inl m)
      | None \<Rightarrow>
          (case ev of
             Grpc_Ended r \<Rightarrow> Some (task_result r)
           | Http_Ended r \<Rightarrow> Some (task_result r)
           | Signalled sig \<Rightarrow> if shutdown_signal term_installed sig then Some (Inr ()) else None))"

section \<open>What the seeds leave\<close>

text \<open>On the relay-events backend they are seeds of the inner store.\<close>

lemma seed_inner:
  assumes "\<forall>r \<in> set rs. \<forall>topic ms. r \<noteq> Publish topic ms"
  shows "seed (relay_events_backend rc lib) envs k rs x =
    (fst (seed memory_backend envs k rs (fst x)), snd (seed memory_backend envs k rs (fst x)), snd x)"
  using assms
proof (induction rs arbitrary: k x)
  case Nil
  then show ?case by simp
next
  case (Cons r rs)
  have "bk_run (relay_events_backend rc lib) (envs k) (Do r) x = delegate (bk_run memory_backend (envs k) (Do r)) x"
    using Cons.prems by (intro relay_events_operation(1)) auto
  then have r: "bk_perform (relay_events_backend rc lib) (envs k) r x = delegate (perform (envs k) r) x" by simp
  obtain q s where p: "perform (envs k) r (fst x) = (q, s)" by (metis surj_pair)
  have d: "delegate (perform (envs k) r) x = (q, s, snd x)" by (simp add: delegate_def p)
  show ?case using Cons by (cases q) (simp_all add: r d p)
qed

text \<open>
  A store is untouched when it has the topics and subscriptions that were created and nothing
  else happened to it.
\<close>

definition untouched :: "state \<Rightarrow> bool" where
  "untouched s =
     (reachable s \<and> st_snapshots s = [] \<and>
      (\<forall>n t. hm_get (st_topics s) n = Some t \<longrightarrow> ts_messages t = [] \<and> ts_seen_ids t = []) \<and>
      (\<forall>n sub. hm_get (st_subscriptions s) n = Some sub \<longrightarrow>
         sub = new_subscription_state (ss_spec sub) 0 \<and> hm_get (st_topics s) (s_topic (ss_spec sub)) \<noteq> None))"

lemma untouched_empty: "untouched empty_state"
  using reachable.start by (simp add: untouched_def empty_state_def)

lemma untouched_leases:
  assumes "untouched s"
  shows "lease_keys s = {}"
proof -
  have "ss_inflight sub = []" if "hm_get (st_subscriptions s) n = Some sub" for n sub
  proof -
    have "sub = new_subscription_state (ss_spec sub) 0" using assms that by (simp add: untouched_def)
    then show ?thesis by (metis new_subscription_state_def subscription_state.select_convs(4))
  qed
  then show ?thesis by (auto simp: lease_keys_def)
qed

lemma untouched_env: "untouched s \<Longrightarrow> env_order_ok e \<Longrightarrow> env_fresh e {} \<Longrightarrow> env_ok e s"
  by (simp add: env_ok_def untouched_leases)

lemma untouched_step:
  assumes "untouched s" "env_order_ok e" "env_fresh e {}"
    and "r = CreateTopic t \<or> r = CreateSubscription x"
  shows "untouched (snd (perform e r s))"
proof -
  have "\<not> dangling s n" for n using assms(1) by (auto simp: untouched_def dangling_def)
  then have "admissible r s" using assms(4) by (auto simp: admissible_def)
  then have reach: "reachable (snd (perform e r s))"
    using assms(1) untouched_env [OF assms(1-3)] by (auto simp: untouched_def intro: next_state step.intros)
  have spec: "ss_spec (new_subscription_state y k) = y" for y k by (simp add: new_subscription_state_def)
  have topic: "s_topic (normalized y) = s_topic y" for y by (simp add: normalized_def)
  show ?thesis
    using assms(4)
  proof
    assume r: "r = CreateTopic t"
    show ?thesis using reach assms(1)
      by (auto simp: r untouched_def create_topic_def Let_def new_topic_state_def split: if_splits)
  next
    assume r: "r = CreateSubscription x"
    show ?thesis using reach assms(1)
      by (auto simp: r untouched_def create_subscription_def Let_def spec topic split: if_splits res.splits option.splits)
  qed
qed

lemma create_topic_keeps:
  "hm_get (st_topics s) n = Some t \<Longrightarrow> hm_get (st_topics (snd (create_topic e x s))) n = Some t"
  "st_subscriptions (snd (create_topic e x s)) = st_subscriptions s"
  "starts_with (t_name x) ''projects/'' \<Longrightarrow> str_contains (t_name x) ''/topics/'' \<Longrightarrow>
    hm_get (st_topics (snd (create_topic e x s))) (t_name x) \<noteq> None"
  by (auto simp: create_topic_def Let_def hm_contains_def split: option.splits)

lemma seed_create_topic:
  "seed memory_backend envs k (CreateTopic x # rs) s =
     seed memory_backend envs (Suc k) rs (snd (create_topic (envs k) x s))"
proof -
  obtain q s1 where p: "create_topic (envs k) x s = (q, s1)" by (metis surj_pair)
  have "q \<noteq> Panic" using admin_no_panic(1) [of "envs k" x s] by (simp add: p)
  then show ?thesis by (cases q) (simp_all add: p forget_def)
qed

text \<open>The store after the topics, and what their creation keeps.\<close>

definition with_topics :: "(nat \<Rightarrow> env) \<Rightarrow> nat \<Rightarrow> topic_spec list \<Rightarrow> state \<Rightarrow> state" where
  "with_topics envs k ts s = snd (seed memory_backend envs k (map CreateTopic ts) s)"

lemma with_topics_simps [simp]:
  "with_topics envs k [] s = s"
  "with_topics envs k (x # ts) s = with_topics envs (Suc k) ts (snd (create_topic (envs k) x s))"
  by (simp_all add: with_topics_def seed_create_topic del: seed.simps(2))

lemma seed_topics:
  "seed memory_backend envs k (map CreateTopic ts @ rs) s =
     seed memory_backend envs (k + length ts) rs (with_topics envs k ts s)"
  by (induction ts arbitrary: k s) (simp_all add: seed_create_topic del: seed.simps(2))

lemma with_topics_keep:
  "st_subscriptions (with_topics envs k ts s) = st_subscriptions s"
  "hm_get (st_topics s) n = Some t \<Longrightarrow> hm_get (st_topics (with_topics envs k ts s)) n = Some t"
  by (induction ts arbitrary: k s) (simp_all add: create_topic_keeps)

lemma with_topics_there:
  "x \<in> set ts \<Longrightarrow> starts_with (t_name x) ''projects/'' \<Longrightarrow> str_contains (t_name x) ''/topics/'' \<Longrightarrow>
    \<exists>t. hm_get (st_topics (with_topics envs k ts s)) (t_name x) = Some t"
proof (induction ts arbitrary: k s)
  case (Cons y ts)
  show ?case
  proof (cases "x = y")
    case True
    then show ?thesis
      using create_topic_keeps(3) [of x "envs k" s] Cons.prems by (auto simp: with_topics_keep(2))
  qed (use Cons in auto)
qed simp

lemma with_topics_untouched:
  assumes "\<And>k. env_order_ok (envs k)" "\<And>k. env_fresh (envs k) {}"
  shows "untouched s \<Longrightarrow> untouched (with_topics envs k ts s)"
proof (induction ts arbitrary: k s)
  case (Cons x ts)
  have "untouched (snd (create_topic (envs k) x s))"
    using untouched_step [OF Cons.prems assms(1,2), of "CreateTopic x" x _ k] by (simp add: forget_state)
  then show ?case using Cons.IH by simp
qed simp

lemma str_contains_append: "str_contains (a @ b @ c) b"
proof (induction a)
  case Nil
  have "starts_with (b @ c) b" by simp
  then show ?case by (cases "b @ c") simp_all
qed simp

lemma actions_names:
  "starts_with (actions_topic_of cfg) ''projects/''"
  "str_contains (actions_topic_of cfg) ''/topics/''"
  "starts_with (actions_subscription_of cfg) ''projects/''"
  "str_contains (actions_subscription_of cfg) ''/subscriptions/''"
proof -
  show "str_contains (actions_topic_of cfg) ''/topics/''"
    using str_contains_append [of "''projects/'' @ cf_fasal_gcp_project cfg" "''/topics/''" "cf_fasal_actions_topic cfg"]
    by (simp add: actions_topic_of_def)
  show "str_contains (actions_subscription_of cfg) ''/subscriptions/''"
    using str_contains_append [of "''projects/'' @ cf_fasal_gcp_project cfg" "''/subscriptions/''" "cf_fasal_actions_subscription cfg"]
    by (simp add: actions_subscription_of_def)
qed (simp_all add: actions_topic_of_def actions_subscription_of_def starts_with_def)

text \<open>
  What the seeds do to the store a start begins with: they keep all that is there, and
  afterwards the actions topic and its subscription are there, the latter as configured
  when it was not there before.
\<close>

definition seeded :: "config \<Rightarrow> state \<Rightarrow> state \<Rightarrow> bool" where
  "seeded cfg s0 s =
     ((\<forall>n t. hm_get (st_topics s0) n = Some t \<longrightarrow> hm_get (st_topics s) n = Some t) \<and>
      (\<forall>n sub. hm_get (st_subscriptions s0) n = Some sub \<longrightarrow> hm_get (st_subscriptions s) n = Some sub) \<and>
      (\<exists>t sub. hm_get (st_topics s) (actions_topic_of cfg) = Some t \<and>
         hm_get (st_subscriptions s) (actions_subscription_of cfg) = Some sub \<and>
         (hm_get (st_subscriptions s0) (actions_subscription_of cfg) = None \<longrightarrow>
            sub = new_subscription_state (normalized (actions_queue cfg)) (length (ts_messages t)))))"

definition seed_specs :: "config \<Rightarrow> topic_spec list" where
  "seed_specs cfg = map (catalog_topic cfg) relay_events_catalog @ [topic_default\<lparr>t_name := actions_topic_of cfg\<rparr>]"

lemma seeds_split: "seeds cfg = map CreateTopic (seed_specs cfg) @ [CreateSubscription (actions_queue cfg)]"
  by (simp add: seeds_def seed_specs_def comp_def)

lemma actions_queue_fields:
  "trim (s_filter (actions_queue cfg)) = []" "s_name (actions_queue cfg) = actions_subscription_of cfg"
  "s_topic (actions_queue cfg) = actions_topic_of cfg"
  by (simp_all add: actions_queue_def subscription_default_def) code_simp

lemma create_actions_queue:
  assumes t: "hm_get (st_topics s) (actions_topic_of cfg) = Some t"
  obtains q where "q \<noteq> Panic"
    "create_subscription e (actions_queue cfg) s =
       (q, if hm_contains (st_subscriptions s) (actions_subscription_of cfg) then s
           else s\<lparr>st_subscriptions := hm_insert (actions_subscription_of cfg)
             (new_subscription_state (normalized (actions_queue cfg)) (length (ts_messages t))) (st_subscriptions s)\<rparr>)"
proof -
  have "fst (create_subscription e (actions_queue cfg) s) \<noteq> Panic"
    by (simp add: create_subscription_def Let_def actions_names actions_queue_fields t)
  moreover have "snd (create_subscription e (actions_queue cfg) s) =
      (if hm_contains (st_subscriptions s) (actions_subscription_of cfg) then s
       else s\<lparr>st_subscriptions := hm_insert (actions_subscription_of cfg)
         (new_subscription_state (normalized (actions_queue cfg)) (length (ts_messages t))) (st_subscriptions s)\<rparr>)"
    by (simp add: create_subscription_def Let_def actions_names actions_queue_fields t)
  ultimately show ?thesis by (intro that) (auto simp: prod_eq_iff)
qed

lemma seeds_run:
  obtains t s where "hm_get (st_topics (with_topics envs 0 (seed_specs cfg) s0)) (actions_topic_of cfg) = Some t"
    "s = (let s1 = with_topics envs 0 (seed_specs cfg) s0 in
          if hm_contains (st_subscriptions s1) (actions_subscription_of cfg) then s1
          else s1\<lparr>st_subscriptions := hm_insert (actions_subscription_of cfg)
             (new_subscription_state (normalized (actions_queue cfg)) (length (ts_messages t))) (st_subscriptions s1)\<rparr>)"
    "seed memory_backend envs 0 (seeds cfg) s0 = (Ok (), s)"
    "s = snd (perform (envs (length (seed_specs cfg))) (CreateSubscription (actions_queue cfg))
          (with_topics envs 0 (seed_specs cfg) s0))"
proof -
  let ?s1 = "with_topics envs 0 (seed_specs cfg) s0" and ?e = "envs (length (seed_specs cfg))"
  have "topic_default\<lparr>t_name := actions_topic_of cfg\<rparr> \<in> set (seed_specs cfg)" by (simp add: seed_specs_def)
  from with_topics_there [OF this, of envs 0 s0]
  obtain t where t: "hm_get (st_topics ?s1) (actions_topic_of cfg) = Some t" by (auto simp: actions_names)
  obtain q where q: "q \<noteq> Panic" "create_subscription ?e (actions_queue cfg) ?s1 =
       (q, if hm_contains (st_subscriptions ?s1) (actions_subscription_of cfg) then ?s1
           else ?s1\<lparr>st_subscriptions := hm_insert (actions_subscription_of cfg)
             (new_subscription_state (normalized (actions_queue cfg)) (length (ts_messages t))) (st_subscriptions ?s1)\<rparr>)"
    by (rule create_actions_queue [OF t])
  have "seed memory_backend envs 0 (seeds cfg) s0 =
      (Ok (), snd (create_subscription ?e (actions_queue cfg) ?s1))"
    unfolding seeds_split seed_topics using q by (cases q) (simp_all add: forget_def)
  then show ?thesis using that [OF t] q(2) by (simp add: forget_state Let_def)
qed

lemma seeds_seeded: "\<exists>s. seed memory_backend envs 0 (seeds cfg) s0 = (Ok (), s) \<and> seeded cfg s0 s"
proof -
  obtain t s where t: "hm_get (st_topics (with_topics envs 0 (seed_specs cfg) s0)) (actions_topic_of cfg) = Some t"
    and s: "s = (let s1 = with_topics envs 0 (seed_specs cfg) s0 in
          if hm_contains (st_subscriptions s1) (actions_subscription_of cfg) then s1
          else s1\<lparr>st_subscriptions := hm_insert (actions_subscription_of cfg)
             (new_subscription_state (normalized (actions_queue cfg)) (length (ts_messages t))) (st_subscriptions s1)\<rparr>)"
    and run: "seed memory_backend envs 0 (seeds cfg) s0 = (Ok (), s)"
    by (rule seeds_run)
  have "seeded cfg s0 s"
    using t by (auto simp: s Let_def seeded_def with_topics_keep hm_contains_def)
  then show ?thesis using run by blast
qed

text \<open>A fresh start.\<close>

lemma seeds_ready:
  assumes ord: "\<And>k. env_order_ok (envs k)" and fresh: "\<And>k. env_fresh (envs k) {}"
  shows "untouched (snd (seed memory_backend envs 0 (seeds cfg) empty_state))"
proof -
  obtain s where run: "seed memory_backend envs 0 (seeds cfg) empty_state = (Ok (), s)"
    and s: "s = snd (perform (envs (length (seed_specs cfg))) (CreateSubscription (actions_queue cfg))
          (with_topics envs 0 (seed_specs cfg) empty_state))"
    by (rule seeds_run)
  have "untouched (with_topics envs 0 (seed_specs cfg) empty_state)"
    by (rule with_topics_untouched [OF ord fresh untouched_empty])
  from untouched_step [OF this ord fresh, of "CreateSubscription (actions_queue cfg)"] show ?thesis
    unfolding run s by simp
qed

section \<open>Opening the relay-events backend\<close>

definition loaded_store :: "'w start_outside \<Rightarrow> config \<Rightarrow> state res" where
  "loaded_store out cfg = (if cf_persist cfg then with_persistence (so_lib out) (so_dir out) (so_raw out) else Ok empty_state)"

text \<open>It opens when the file is read and the client is built; the seeds never fail it.\<close>

lemma open_relay_events_cases:
  "open_relay_events out cfg =
     (case loaded_store out cfg of
        Err err \<Rightarrow> Err err
      | Panic \<Rightarrow> Panic
      | Ok s0 \<Rightarrow>
          (case so_client out of
             Some m \<Rightarrow> Err (Internal m)
           | None \<Rightarrow>
               Ok (\<lparr>rc_base_url = trim_end_matches ''/'' (cf_relay_base_url cfg), rc_token = cf_relay_auth_token cfg,
                    rc_actions_topic = actions_topic_of cfg\<rparr>,
                   snd (seed memory_backend (so_envs out) 0 (seeds cfg) s0), [])))"
proof -
  have no_publish: "\<forall>r \<in> set (seeds cfg). \<forall>topic ms. r \<noteq> Publish topic ms" by (auto simp: seeds_def)
  have opened: "(case seed (relay_events_backend rc (so_relay out)) (so_envs out) 0 (seeds cfg) (s0, []) of
         (Panic, x') \<Rightarrow> Panic
       | (_, x') \<Rightarrow> Ok (rc, x')) = Ok (rc, snd (seed memory_backend (so_envs out) 0 (seeds cfg) s0), [])" for rc s0
    using seeds_seeded [of "so_envs out" cfg s0] by (auto simp: seed_inner [OF no_publish])
  show ?thesis
    unfolding open_relay_events_def loaded_store_def relay_events_new_def relay_events_with_persistence_def
      relay_events_inner_def
    by (cases "so_client out"; cases "cf_persist cfg"; cases "with_persistence (so_lib out) (so_dir out) (so_raw out)")
      (simp_all only: opened if_True if_False option.case res.case prod.case res_bind_def)
qed

end
