(* ===== verification/Http_Server.thy ===== *)
theory Http_Server
  imports Startup Rest_Correct
begin

text \<open>
  The HTTP listener of \<open>src/main.rs\<close>: the routes of \<open>router\<close> in \<open>src/rest.rs\<close>, merged with that of
  \<open>src/action_gateway.rs\<close> when the backend is relay-events, and what a request does to the
  whole state of the server. The framework's part is an argument: how it looks a path up in
  the routes, and the extractors, which decode the query or the body before the handler
  runs or refuse the request with a status of their own. What the code relies on of the
  first is \<open>routes_ok\<close>; \<open>lookup_route\<close>, the documented rule, meets it. \<open>HEAD\<close> and \<open>OPTIONS\<close> requests
  to the fixed paths, which the framework answers itself, are outside the table.
\<close>

section \<open>Routes\<close>

datatype endpoint =
    Healthz | Readyz | Metrics_Page
  | Admin_Topics | Admin_Subscriptions | Admin_Inventory | Admin_Publish | Admin_Pull | Admin_Ack
  | Admin_Push_Config | Admin_Logs
  | Google_Dispatch | Handle_Action

type_synonym routes = "(string \<times> http_method option \<times> endpoint) list"

definition router :: routes where
  "router =
     [(''/healthz'', Some GET, Healthz), (''/readyz'', Some GET, Readyz), (''/metrics'', Some GET, Metrics_Page),
      (''/admin/v1/topics'', Some GET, Admin_Topics),
      (''/admin/v1/subscriptions'', Some GET, Admin_Subscriptions),
      (''/admin/v1/inventory'', Some GET, Admin_Inventory), (''/admin/v1/publish'', Some POST, Admin_Publish),
      (''/admin/v1/pull'', Some POST, Admin_Pull), (''/admin/v1/ack'', Some POST, Admin_Ack),
      (''/admin/v1/push-config'', Some POST, Admin_Push_Config), (''/admin/v1/logs'', Some GET, Admin_Logs),
      (''/v1/*path'', None, Google_Dispatch)]"

definition actions_router :: routes where
  "actions_router = [(''/v1/actions'', Some POST, Handle_Action)]"

text \<open>The second is there when the action gateway is.\<close>

definition http_router :: "bool \<Rightarrow> routes" where
  "http_router is_relay_events = router @ (if is_relay_events then actions_router else [])"

text \<open>
  The look-up of a method and a path: the status of a refusal, or an endpoint. An endpoint is
  that of a route which takes the method, and whose pattern, without a wildcard, is the path.
\<close>

type_synonym route_lookup = "routes \<Rightarrow> http_method \<Rightarrow> string \<Rightarrow> nat + endpoint"

definition routes_ok :: "route_lookup \<Rightarrow> bool" where
  "routes_ok lookup =
     (\<forall>routes verb path endpoint. lookup routes verb path = Inr endpoint \<longrightarrow>
        (\<exists>pattern allowed. (pattern, allowed, endpoint) \<in> set routes \<and>
           (CHR ''*'' \<in> set pattern \<or> pattern = path) \<and> (allowed = None \<or> allowed = Some verb)))"

text \<open>
  The documented rule: a route without a wildcard is preferred, a path without a route is
  answered 404, a method without a handler 405.
\<close>

definition matches :: "string \<Rightarrow> string \<Rightarrow> bool" where
  "matches pattern path =
     (case split_once (CHR ''*'') pattern of
        None \<Rightarrow> path = pattern
      | Some (prefix, _) \<Rightarrow> starts_with path prefix \<and> path \<noteq> prefix)"

definition lookup_route :: route_lookup where
  "lookup_route routes verb path =
     (case (case List.find (\<lambda>(pattern, _). pattern = path) routes of
              Some r \<Rightarrow> Some r
            | None \<Rightarrow> List.find (\<lambda>(pattern, _). matches pattern path) routes) of
        None \<Rightarrow> Inl 404
      | Some (_, allowed, endpoint) \<Rightarrow>
          if allowed = None \<or> allowed = Some verb then Inr endpoint else Inl 405)"

lemma lookup_route_ok: "routes_ok lookup_route"
  unfolding routes_ok_def
proof (intro allI impI)
  fix routes verb path endpoint
  assume l: "lookup_route routes verb path = Inr endpoint"
  define found where "found = (case List.find (\<lambda>(pattern, _). pattern = path) routes of
      Some r \<Rightarrow> Some r | None \<Rightarrow> List.find (\<lambda>(pattern, _). matches pattern path) routes)"
  obtain pattern allowed where f: "found = Some (pattern, allowed, endpoint)" "allowed = None \<or> allowed = Some verb"
    using l unfolding lookup_route_def found_def [symmetric]
    by (auto split: option.splits if_splits)
  have "(pattern, allowed, endpoint) \<in> set routes \<and> (pattern = path \<or> matches pattern path)"
    using f(1) unfolding found_def by (auto simp: find_Some_iff split: option.splits) (metis nth_mem)+
  moreover have "CHR ''*'' \<in> set pattern \<or> pattern = path" if "matches pattern path"
    using that by (auto simp: matches_def split: option.splits dest!: split_once_Some)
  ultimately show "\<exists>pattern allowed. (pattern, allowed, endpoint) \<in> set routes \<and>
      (CHR ''*'' \<in> set pattern \<or> pattern = path) \<and> (allowed = None \<or> allowed = Some verb)"
    using f(2) by blast
qed

section \<open>Requests\<close>

record http_call = http_in +
  hc_content_type :: "string option"
  hc_idempotency_key :: "string option"

text \<open>The extractors: what they decode from a request, or the status of their refusal.\<close>

record extractors =
  xt_project :: "string option \<Rightarrow> nat + string option"
  xt_logs :: "string option \<Rightarrow> nat + logs_query"
  xt_publish :: "string option \<Rightarrow> bytes \<Rightarrow> nat + admin_publish_in"
  xt_pull :: "string option \<Rightarrow> bytes \<Rightarrow> nat + admin_pull_in"
  xt_ack :: "string option \<Rightarrow> bytes \<Rightarrow> nat + admin_ack_in"
  xt_push_config :: "string option \<Rightarrow> bytes \<Rightarrow> nat + admin_push_config_in"

text \<open>The libraries of the handlers, the metrics page and Relay's health endpoint among them.\<close>

record http_lib =
  hl_lookup :: route_lookup
  hl_rest :: rest_lib
  hl_gateway :: gateway_lib
  hl_extract :: extractors
  hl_metrics :: string
  hl_probe :: "string \<Rightarrow> string option \<Rightarrow> string + nat"

datatype response = Framework nat | Rest http_reply | Page string | Action reply

section \<open>The state behind the listener\<close>

text \<open>
  The cache of keys the authenticator has, the log, what the action gateway remembers, and
  the backend.
\<close>

record 's http_state =
  hs_jwks :: jwks_cache
  hs_logs :: log_buffer
  hs_actions :: "action_gateway option"
  hs_backend :: 's

definition http_state_new :: "server \<Rightarrow> 's \<Rightarrow> 's http_state" where
  "http_state_new sv s = \<lparr>hs_jwks = None, hs_logs = sv_logs sv, hs_actions = sv_actions sv, hs_backend = s\<rparr>"

text \<open>An extractor before a handler, and the handlers' use of the state.\<close>

definition extracted :: "nat + 'a \<Rightarrow> 's http_state \<Rightarrow> ('a \<Rightarrow> response res \<times> 's http_state) \<Rightarrow> response res \<times> 's http_state" where
  "extracted d h k = (case d of Inl code \<Rightarrow> (Ok (Framework code), h) | Inr v \<Rightarrow> k v)"

definition on_backend ::
  "(jwks_cache \<Rightarrow> 's \<Rightarrow> http_reply res \<times> jwks_cache \<times> 's) \<Rightarrow> 's http_state \<Rightarrow> response res \<times> 's http_state" where
  "on_backend f h =
     (let (resp, cache, s) = f (hs_jwks h) (hs_backend h)
      in (res_bind resp (\<lambda>r. Ok (Rest r)), h\<lparr>hs_jwks := cache, hs_backend := s\<rparr>))"

definition on_logs ::
  "(jwks_cache \<Rightarrow> log_buffer \<Rightarrow> http_reply res \<times> jwks_cache \<times> log_buffer) \<Rightarrow> 's http_state \<Rightarrow>
   response res \<times> 's http_state" where
  "on_logs f h =
     (let (resp, cache, logs) = f (hs_jwks h) (hs_logs h)
      in (res_bind resp (\<lambda>r. Ok (Rest r)), h\<lparr>hs_jwks := cache, hs_logs := logs\<rparr>))"

definition on_actions ::
  "'s relay_backend \<Rightarrow> gateway_lib \<Rightarrow> env \<Rightarrow> string option \<Rightarrow> bytes \<Rightarrow> 's http_state \<Rightarrow> response res \<times> 's http_state" where
  "on_actions bk lib e key body h =
     (case hs_actions h of
        None \<Rightarrow> (Ok (Framework 404), h)
      | Some g \<Rightarrow>
          (let (resp, g', s) = handle_action lib (b_publish bk e) (e_now e) key body g (hs_backend h)
           in (res_bind resp (\<lambda>r. Ok (Action r)), h\<lparr>hs_actions := Some g', hs_backend := s\<rparr>)))"

text \<open>What is behind each route.\<close>

definition handle_endpoint ::
  "server \<Rightarrow> 's relay_backend \<Rightarrow> 'key oidc \<Rightarrow> http_lib \<Rightarrow> env \<Rightarrow> endpoint \<Rightarrow> http_call \<Rightarrow> 's http_state \<Rightarrow>
   response res \<times> 's http_state" where
  "handle_endpoint sv bk x lib e endpoint r h =
     (let auth = sv_authenticator sv; header = hi_authorization r; rest = hl_rest lib; xt = hl_extract lib;
          content = hc_content_type r; body = hi_body r in
      case endpoint of
        Healthz \<Rightarrow> (Ok (Rest healthz), h)
      | Readyz \<Rightarrow>
          (Ok (Rest (readyz (sv_check_relay_ready sv) (sv_relay_base_url sv) (sv_relay_token sv) (hl_probe lib))), h)
      | Metrics_Page \<Rightarrow> (Ok (Page (hl_metrics lib)), h)
      | Admin_Topics \<Rightarrow>
          extracted (xt_project xt (hi_query r)) h (\<lambda>q. on_backend (admin_topics bk auth x header e q) h)
      | Admin_Subscriptions \<Rightarrow>
          extracted (xt_project xt (hi_query r)) h (\<lambda>q. on_backend (admin_subscriptions bk auth x header e q) h)
      | Admin_Inventory \<Rightarrow>
          extracted (xt_project xt (hi_query r)) h (\<lambda>q. on_backend (admin_inventory bk auth x header e rest q) h)
      | Admin_Publish \<Rightarrow>
          extracted (xt_publish xt content body) h (\<lambda>q. on_backend (admin_publish bk auth x header e q) h)
      | Admin_Pull \<Rightarrow>
          extracted (xt_pull xt content body) h (\<lambda>q. on_backend (admin_pull bk auth x header e rest q) h)
      | Admin_Ack \<Rightarrow>
          extracted (xt_ack xt content body) h (\<lambda>q. on_backend (admin_ack bk auth x header e q) h)
      | Admin_Push_Config \<Rightarrow>
          extracted (xt_push_config xt content body) h (\<lambda>q. on_backend (admin_push_config bk auth x header e q) h)
      | Admin_Logs \<Rightarrow>
          extracted (xt_logs xt (hi_query r)) h (\<lambda>q. on_logs (admin_logs auth x header rest q) h)
      | Google_Dispatch \<Rightarrow> on_backend (google_dispatch bk auth x e rest (http_in.truncate r)) h
      | Handle_Action \<Rightarrow> on_actions bk (hl_gateway lib) e (hc_idempotency_key r) body h)"

definition http_serve ::
  "server \<Rightarrow> 's relay_backend \<Rightarrow> 'key oidc \<Rightarrow> http_lib \<Rightarrow> env \<Rightarrow> http_call \<Rightarrow> 's http_state \<Rightarrow>
   response res \<times> 's http_state" where
  "http_serve sv bk x lib e r h =
     (case hl_lookup lib (http_router (sv_actions sv \<noteq> None)) (hi_method r) (hi_path r) of
        Inl code \<Rightarrow> (Ok (Framework code), h)
      | Inr endpoint \<Rightarrow> handle_endpoint sv bk x lib e endpoint r h)"

section \<open>Every reply of the handlers has a form\<close>

text \<open>
  A value with status 200, the bare 405, an error whose body repeats the status, or the
  readiness probe's 503.
\<close>

definition error_statuses :: "nat set" where
  "error_statuses = {400, 401, 403, 404, 409, 412, 500, 503}"

definition rest_reply_ok :: "http_reply \<Rightarrow> bool" where
  "rest_reply_ok rep =
     (hp_status rep = 200 \<and> hp_body rep \<noteq> None \<or> rep = method_not_allowed \<or>
      hp_status rep \<in> error_statuses \<and>
        (case get_in (get_in (hp_body rep) ''error'') ''code'' of
           Some v \<Rightarrow> v = json_i32 (int (hp_status rep))
         | None \<Rightarrow> False) \<or>
      hp_status rep = 503 \<and> get_in (hp_body rep) ''status'' = Some (JString ''unavailable''))"

definition typed :: "http_reply res \<Rightarrow> bool" where
  "typed q = (case q of Ok rep \<Rightarrow> rest_reply_ok rep | Err _ \<Rightarrow> False | Panic \<Rightarrow> True)"

lemma typed_simps [simp]: "typed (Ok rep) = rest_reply_ok rep" "typed Panic"
  by (simp_all add: typed_def)

lemma rest_reply_ok_json [simp]: "rest_reply_ok (json_reply 200 v)"
  by (simp add: rest_reply_ok_def json_reply_def)

lemma rest_reply_ok_error: "st \<in> error_statuses \<Longrightarrow> rest_reply_ok (error_reply st message code)"
  by (simp add: rest_reply_ok_def json_reply_def error_reply_def get_in_def json_get_def)

lemma rest_reply_ok_simps [simp]:
  "rest_reply_ok (bad_request m)" "rest_reply_ok (not_found m)" "rest_reply_ok method_not_allowed"
  "rest_reply_ok (backend_error_reply err)" "rest_reply_ok healthz"
  subgoal by (simp add: bad_request_def rest_reply_ok_error error_statuses_def)
  subgoal by (simp add: not_found_def rest_reply_ok_error error_statuses_def)
  subgoal by (simp add: rest_reply_ok_def)
  subgoal by (cases err) (simp_all add: backend_error_reply_def rest_reply_ok_error error_statuses_def)
  subgoal by (simp add: healthz_def)
  done

lemma typed_answer [simp]: "typed (fst (answer f q))"
  by (simp add: answer_def split: res.split)

lemma typed_methods:
  "typed (fst (handle_publish bk e lib path value s))" "typed (fst (handle_pull bk e lib path value s))"
  "typed (fst (handle_acknowledge bk e path value s))" "typed (fst (handle_modify_ack_deadline bk e path value s))"
  "typed (fst (handle_seek bk e lib path value s))" "typed (fst (handle_modify_push_config bk e path value s))"
  "typed (fst (handle_get_iam_policy bk e path s))" "typed (fst (handle_set_iam_policy bk e path value s))"
  "typed (fst (handle_test_iam_permissions bk e path value s))" "typed (fst (handle_validate_schema bk e path value s))"
  "typed (fst (handle_validate_message bk e lib path value s))"
  by (auto simp: handle_publish_def handle_pull_def handle_acknowledge_def handle_modify_ack_deadline_def
      handle_seek_def handle_modify_push_config_def handle_get_iam_policy_def handle_set_iam_policy_def
      handle_test_iam_permissions_def handle_validate_schema_def handle_validate_message_def Let_def
      split: sum.split option.split prod.split)

lemma typed_resources:
  "typed (fst (topic_request bk e verb name upd value s))"
  "typed (fst (subscription_request bk e verb name upd value s))"
  "typed (fst (snapshot_request bk e lib verb name upd value s))"
  "typed (fst (schema_request bk e verb name value s))"
  by (auto simp: topic_request_def subscription_request_def snapshot_request_def schema_request_def Let_def
      split: sum.split option.split http_method.split)

lemma typed_route: "typed (fst (route bk e lib verb path query value s))"
  unfolding route_def handle_resource_request_def Let_def by (simp add: typed_methods typed_resources)

lemma authorize_typed: "authorize auth x header resource cache = (Inl rep, cache') \<Longrightarrow> rest_reply_ok rep"
  by (auto simp: authorize_def rest_reply_ok_error error_statuses_def split: option.splits prod.splits sum.splits)

lemma typed_guarded: "typed (fst (k ())) \<Longrightarrow> typed (fst (guarded auth x header resource cache s k))"
  by (auto simp: guarded_def authorize_typed split: prod.split sum.split dest: authorize_typed)

lemma typed_dispatch: "typed (fst (google_dispatch bk auth x e lib r cache s))"
proof (cases "if hi_body r = [] then Inr (JObject []) else e_json e (hi_body r)")
  case (Inl err)
  then show ?thesis by (simp add: google_dispatch_def Let_def)
next
  case (Inr body)
  let ?path = "trim_start_matches ''/v1/'' (hi_path r)"
  obtain a c1 where a: "authorize auth x (hi_authorization r) (auth_resource_for_path ?path body) cache = (a, c1)"
    by (metis surj_pair)
  have "typed (fst (route bk e lib (hi_method r) ?path (or_default [] (hi_query r)) body s))"
    by (rule typed_route)
  then show ?thesis
    using a authorize_typed Inr
    by (cases a) (auto simp: google_dispatch_def Let_def simp del: if_split split: prod.split)
qed

lemma typed_console:
  "typed (fst (admin_topics bk auth x header e query cache s))"
  "typed (fst (admin_subscriptions bk auth x header e query cache s))"
  "typed (fst (admin_publish bk auth x header e ap cache s))"
  "typed (fst (admin_pull bk auth x header e lib al cache s))"
  "typed (fst (admin_ack bk auth x header e aa cache s))"
  "typed (fst (admin_inventory bk auth x header e lib query cache s))"
  "typed (fst (admin_push_config bk auth x header e ac cache s))"
  "typed (fst (admin_logs auth x header lib lq cache logs))"
  unfolding admin_topics_def admin_subscriptions_def admin_publish_def admin_pull_def admin_ack_def
    admin_inventory_def admin_push_config_def admin_logs_def Let_def
  by (rule typed_guarded, simp)+

lemma readyz_typed: "rest_reply_ok (readyz check base token probe)"
  by (auto simp: readyz_def rest_reply_ok_def json_reply_def get_in_def json_get_def healthz_def split: sum.split)

section \<open>What a request does to the server\<close>

definition response_ok :: "response \<Rightarrow> bool" where
  "response_ok resp =
     (case resp of
        Rest rep \<Rightarrow> rest_reply_ok rep
      | Action rep \<Rightarrow> rp_status rep \<in> {200, 400, 502}
      | Framework _ \<Rightarrow> True
      | Page _ \<Rightarrow> True)"

definition response_status :: "response \<Rightarrow> nat" where
  "response_status resp =
     (case resp of
        Framework code \<Rightarrow> code
      | Rest rep \<Rightarrow> hp_status rep
      | Page _ \<Rightarrow> 200
      | Action rep \<Rightarrow> rp_status rep)"

text \<open>The answer that goes with an operation's result.\<close>

definition outcome_reply :: "unit res \<Rightarrow> response res \<Rightarrow> bool" where
  "outcome_reply q resp =
     (case q of
        Ok _ \<Rightarrow> \<exists>rep. resp = Ok rep \<and> response_status rep = 200
      | Err err \<Rightarrow> resp = Ok (Rest (backend_error_reply err)) \<or> resp = Ok (Action (gateway_error 502 (error_text err)))
      | Panic \<Rightarrow> resp = Panic)"

text \<open>
  A request leaves the backend as it is, or is one operation of the backend; its answer is
  well formed and goes with the operation's result.
\<close>

definition effect :: "'s relay_backend \<Rightarrow> env \<Rightarrow> 's http_state \<Rightarrow> response res \<times> 's http_state \<Rightarrow> bool" where
  "effect bk e h out =
     ((\<forall>resp. fst out = Ok resp \<longrightarrow> response_ok resp) \<and>
      ((\<exists>resp. fst out = Ok resp) \<and> hs_backend (snd out) = hs_backend h \<or>
       (\<exists>op. hs_backend (snd out) = snd (bk_run bk e op (hs_backend h)) \<and>
          outcome_reply (fst (bk_run bk e op (hs_backend h))) (fst out))))"

lemma effect_reply [simp]: "response_ok resp \<Longrightarrow> effect bk e h (Ok resp, h)"
  by (simp add: effect_def)

lemma effect_extracted: "(\<And>v. effect bk e h (k v)) \<Longrightarrow> effect bk e h (extracted d h k)"
  by (simp add: extracted_def response_ok_def split: sum.split)

lemma effect_backend:
  assumes "\<And>q c s'. f (hs_jwks h) (hs_backend h) = (q, c, s') \<Longrightarrow> served bk e (hs_backend h) (q, s')"
    and "typed (fst (f (hs_jwks h) (hs_backend h)))"
  shows "effect bk e h (on_backend f h)"
proof -
  obtain q c s' where f: "f (hs_jwks h) (hs_backend h) = (q, c, s')" by (metis surj_pair)
  have out: "on_backend f h = (res_bind q (\<lambda>r. Ok (Rest r)), h\<lparr>hs_jwks := c, hs_backend := s'\<rparr>)"
    by (simp add: on_backend_def f)
  have typed: "typed q" using assms(2) f by simp
  from assms(1) [OF f] show ?thesis unfolding served_def
  proof (elim disjE exE)
    fix r
    assume "(q, s') = (Ok r, hs_backend h)"
    then show ?thesis using typed by (simp add: out effect_def response_ok_def)
  next
    fix op
    assume p: "performs bk e op (hs_backend h) (q, s')"
    have ok: "\<forall>resp. fst (on_backend f h) = Ok resp \<longrightarrow> response_ok resp"
      using typed unfolding out by (cases q) (auto simp: response_ok_def)
    have reply: "outcome_reply (fst (bk_run bk e op (hs_backend h))) (fst (on_backend f h))"
      using p unfolding out performs_def outcome_reply_def
      by (cases "fst (bk_run bk e op (hs_backend h))") (auto simp: response_status_def json_reply_def)
    have "hs_backend (snd (on_backend f h)) = snd (bk_run bk e op (hs_backend h))"
      using p by (simp add: out performs_def)
    then show ?thesis using ok reply unfolding effect_def by blast
  qed
qed

lemma effect_logs: "typed (fst (admin_logs auth x header lib lq (hs_jwks h) (hs_logs h))) \<Longrightarrow>
    effect bk e h (on_logs (admin_logs auth x header lib lq) h)"
  by (auto simp: on_logs_def effect_def response_ok_def admin_logs_def guarded_def Let_def
      split: prod.split sum.split)

lemma effect_actions: "effect bk e h (on_actions bk lib e key body h)"
proof (cases "hs_actions h")
  case None
  then show ?thesis by (simp add: on_actions_def response_ok_def)
next
  case (Some g)
  let ?act = "handle_action lib (b_publish bk e) (e_now e) key body g (hs_backend h)"
  have status: "rp_status r \<in> {200, 400, 502}" if "fst ?act = Ok r" for r
    using that by (auto simp: handle_action_def gateway_error_def result_response_def Let_def
        split: option.splits sum.splits res.splits prod.splits if_splits)
  show ?thesis
  proof (rule handle_action_cases [of lib "b_publish bk e" "e_now e" key body g "hs_backend h"])
    fix r
    assume "?act = (Ok r, g, hs_backend h)"
    then show ?thesis using status Some by (simp add: on_actions_def effect_def response_ok_def)
  next
    fix key' input p s'
    assume pub: "b_publish bk e (gw_actions_topic g) [action_message lib key' input] (hs_backend h) = (p, s')"
      and act: "?act = (case p of
          Err err \<Rightarrow> (Ok (gateway_error 502 (error_text err)), g, s')
        | Panic \<Rightarrow> (Panic, g, s')
        | Ok ids \<Rightarrow> (Ok (result_response lib (accepted (e_now e) key' input) False),
            g\<lparr>gw_by_key := hm_insert key' (accepted (e_now e) key' input) (gw_by_key g)\<rparr>, s'))"
    have run: "bk_run bk e (Do (Publish (gw_actions_topic g) [action_message lib key' input])) (hs_backend h) =
        forget (p, s')" by (simp add: pub)
    have ok: "\<forall>resp. fst (on_actions bk lib e key body h) = Ok resp \<longrightarrow> response_ok resp"
      using status act by (cases p) (auto simp: on_actions_def Some response_ok_def)
    have reply: "outcome_reply (fst (forget (p, s'))) (fst (on_actions bk lib e key body h))"
      using act by (cases p) (auto simp: on_actions_def Some outcome_reply_def forget_def response_status_def
          result_response_def)
    have "hs_backend (snd (on_actions bk lib e key body h)) = snd (forget (p, s'))"
      using act by (cases p) (simp_all add: on_actions_def Some)
    then show ?thesis unfolding effect_def using ok reply run by metis
  qed
qed

lemma effect_endpoint: "effect bk e h (handle_endpoint sv bk x lib e endpoint r h)"
proof -
  have page: "response_ok (Page t)" for t by (simp add: response_ok_def)
  have rest: "rest_reply_ok rep \<Longrightarrow> response_ok (Rest rep)" for rep by (simp add: response_ok_def)
  show ?thesis
    by (cases endpoint)
      (simp_all add: handle_endpoint_def Let_def page rest readyz_typed effect_actions,
        (intro effect_extracted effect_backend effect_logs typed_console typed_dispatch;
          erule served_console served_dispatch)+)
qed

lemma effect_serve: "effect bk e h (http_serve sv bk x lib e r h)"
  by (simp add: http_serve_def effect_endpoint response_ok_def split: sum.split)

section \<open>Who changes the backend\<close>

lemma route_actions:
  assumes "routes_ok lookup" "lookup (http_router b) verb path = Inr Handle_Action"
  shows "b \<and> verb = POST \<and> path = ''/v1/actions''"
proof -
  obtain pattern allowed where r: "(pattern, allowed, Handle_Action) \<in> set (http_router b)"
    "CHR ''*'' \<in> set pattern \<or> pattern = path" "allowed = None \<or> allowed = Some verb"
    using assms unfolding routes_ok_def by blast
  then have "b \<and> pattern = ''/v1/actions'' \<and> allowed = Some POST"
    by (auto simp: http_router_def router_def actions_router_def split: if_splits)
  then show ?thesis using r(2,3) by auto
qed

definition authorized_by :: "auth_config \<Rightarrow> 'key oidc \<Rightarrow> string option \<Rightarrow> string \<Rightarrow> jwks_cache \<Rightarrow> jwks_cache \<Rightarrow> bool" where
  "authorized_by auth x header resource cache cache' =
     (\<exists>ctx. authenticate_bearer auth x header cache = (Inr ctx, cache') \<and> authorize_resource ctx resource = Inr ())"

lemma guarded_changed:
  "guarded (Some auth) x header resource cache s k = (resp, cache', s') \<Longrightarrow> s' \<noteq> s \<Longrightarrow>
    authorized_by auth x header resource cache cache'"
  by (auto simp: guarded_def authorized_by_def dest!: authorizeD split: prod.splits sum.splits)

lemma console_changed:
  "admin_topics bk (Some auth) x header e query cache s = (resp, cache', s') \<Longrightarrow> s' \<noteq> s \<Longrightarrow>
    \<exists>n. authorized_by auth x header n cache cache'"
  "admin_subscriptions bk (Some auth) x header e query cache s = (resp, cache', s') \<Longrightarrow> s' \<noteq> s \<Longrightarrow>
    \<exists>n. authorized_by auth x header n cache cache'"
  "admin_publish bk (Some auth) x header e ap cache s = (resp, cache', s') \<Longrightarrow> s' \<noteq> s \<Longrightarrow>
    \<exists>n. authorized_by auth x header n cache cache'"
  "admin_pull bk (Some auth) x header e lib al cache s = (resp, cache', s') \<Longrightarrow> s' \<noteq> s \<Longrightarrow>
    \<exists>n. authorized_by auth x header n cache cache'"
  "admin_ack bk (Some auth) x header e aa cache s = (resp, cache', s') \<Longrightarrow> s' \<noteq> s \<Longrightarrow>
    \<exists>n. authorized_by auth x header n cache cache'"
  "admin_inventory bk (Some auth) x header e lib query cache s = (resp, cache', s') \<Longrightarrow> s' \<noteq> s \<Longrightarrow>
    \<exists>n. authorized_by auth x header n cache cache'"
  "admin_push_config bk (Some auth) x header e ac cache s = (resp, cache', s') \<Longrightarrow> s' \<noteq> s \<Longrightarrow>
    \<exists>n. authorized_by auth x header n cache cache'"
  unfolding admin_topics_def admin_subscriptions_def admin_publish_def admin_pull_def admin_ack_def
    admin_inventory_def admin_push_config_def Let_def
  by (blast dest: guarded_changed)+

lemma google_changed:
  "google_dispatch bk (Some auth) x e lib r cache s = (resp, cache', s') \<Longrightarrow> s' \<noteq> s \<Longrightarrow>
    \<exists>n. authorized_by auth x (hi_authorization r) n cache cache'"
  unfolding authorized_by_def by (elim dispatch_changed) blast+

lemma on_backend_changed:
  assumes "\<And>q c s'. f (hs_jwks h) (hs_backend h) = (q, c, s') \<Longrightarrow> s' \<noteq> hs_backend h \<Longrightarrow>
      \<exists>n. authorized_by auth x header n (hs_jwks h) c"
    and "hs_backend (snd (on_backend f h)) \<noteq> hs_backend h"
  shows "\<exists>n. authorized_by auth x header n (hs_jwks h) (hs_jwks (snd (on_backend f h)))"
proof -
  obtain q c s' where f: "f (hs_jwks h) (hs_backend h) = (q, c, s')" by (metis surj_pair)
  then show ?thesis using assms by (simp add: on_backend_def)
qed

lemma extracted_changed:
  assumes "\<And>v. hs_backend (snd (k v)) \<noteq> hs_backend h \<Longrightarrow> P (hs_jwks (snd (k v)))"
    and "hs_backend (snd (extracted d h k)) \<noteq> hs_backend h"
  shows "P (hs_jwks (snd (extracted d h k)))"
  using assms by (cases d) (simp_all add: extracted_def)

lemma endpoint_changed:
  assumes auth: "sv_authenticator sv = Some auth" and "endpoint \<noteq> Handle_Action"
    and "hs_backend (snd (handle_endpoint sv bk x lib e endpoint r h)) \<noteq> hs_backend h"
  shows "\<exists>n. authorized_by auth x (hi_authorization r) n (hs_jwks h)
    (hs_jwks (snd (handle_endpoint sv bk x lib e endpoint r h)))"
proof -
  have logs: "hs_backend (snd (on_logs f h)) = hs_backend h" for f
    by (simp add: on_logs_def split_beta)
  have head: "hi_authorization (http_in.truncate r) = hi_authorization r" by (simp add: http_in.truncate_def)
  show ?thesis
  proof (cases endpoint)
    case Google_Dispatch
    have g: "s' \<noteq> hs_backend h \<Longrightarrow> \<exists>n. authorized_by auth x (hi_authorization r) n (hs_jwks h) c"
      if "google_dispatch bk (Some auth) x e (hl_rest lib) (http_in.truncate r) (hs_jwks h) (hs_backend h) = (q, c, s')"
      for q c s'
      using google_changed [OF that] by (simp add: head)
    show ?thesis using assms(3) unfolding Google_Dispatch handle_endpoint_def Let_def auth endpoint.case
      by (rule on_backend_changed [rotated]) (rule g)
  qed (use assms in \<open>simp_all add: handle_endpoint_def Let_def logs\<close>,
      (erule extracted_changed [rotated]; erule on_backend_changed [rotated]; erule (1) console_changed
       | simp add: extracted_def logs split: sum.splits)+)
qed

text \<open>What a request on that route does is the same whatever the authenticator and its header.\<close>

lemma actions_need_no_token:
  assumes "hl_lookup lib (http_router (sv_actions sv \<noteq> None)) (hi_method r) (hi_path r) = Inr Handle_Action"
  shows "http_serve (sv\<lparr>sv_authenticator := auth\<rparr>) bk x lib e (r\<lparr>hi_authorization := header\<rparr>) h =
    http_serve sv bk x lib e r h"
  using assms by (simp add: http_serve_def handle_endpoint_def Let_def)

end
