(* ===== verification/Gateway_Claims.thy ===== *)
theory Gateway_Claims
  imports Store_Samples Auth Log_Buffer Store_Inventory Action_Gateway Push_Dispatch
begin

text \<open>
  The properties of the parts around the store: authorization, the console's log and
  report, forwarding to Relay, the action gateway and the push dispatcher.
\<close>

section \<open>Authentication and authorization\<close>

text \<open>
  A context without a list of projects may touch everything; any other context may
  touch a resource exactly when the resource is a project, or lies below one, that the
  list names or that the list's wildcard covers.
\<close>

theorem project_gate:
  "authorize_resource ctx r = Inr () \<longleftrightarrow>
     ctx_allowed_projects ctx = [] \<or>
     (\<exists>p q. p = ''projects/'' @ q \<and> CHR ''/'' \<notin> set q \<and> (r = p \<or> belongs_to_project r p) \<and>
        (p \<in> set (ctx_allowed_projects ctx) \<or> ''*'' \<in> set (ctx_allowed_projects ctx)))"
proof (cases "project_of r")
  case None
  then have "\<not> (\<exists>q. CHR ''/'' \<notin> set q \<and> (r = ''projects/'' @ q \<or> belongs_to_project r (''projects/'' @ q)))"
    using project_of_Some [of r] by auto
  then show ?thesis using None by (auto simp: authorize_resource_def)
next
  case (Some p)
  let ?A = "\<lambda>p. p \<in> set (ctx_allowed_projects ctx) \<or> ''*'' \<in> set (ctx_allowed_projects ctx)"
  have "(\<exists>p q. p = ''projects/'' @ q \<and> CHR ''/'' \<notin> set q \<and> (r = p \<or> belongs_to_project r p) \<and> ?A p)
      = (\<exists>p. (\<exists>q. CHR ''/'' \<notin> set q \<and> p = ''projects/'' @ q \<and> (r = p \<or> belongs_to_project r p)) \<and> ?A p)"
    by blast
  also have "\<dots> = ?A p" unfolding project_of_Some [symmetric] Some by simp
  finally show ?thesis using Some by (simp add: authorize_resource_def list_ex_iff) blast
qed

text \<open>
  C27: When authentication is on, a caller is let in only with the header \<open>Bearer <token>\<close>
  whose token is the static token, or is a JWT that a key of the current key set verifies
  under the configured audience and issuer. The JWT's subject may touch the configured
  projects and the one the identity map gives it.
\<close>

theorem bearer_sound:
  assumes "authenticate_bearer c x header cache = (Inr ctx, cache')" "auth_required c"
  shows "\<exists>raw. header = Some (''Bearer '' @ raw) \<and>
    (a_static_token c = Some raw \<and> cache' = cache \<and>
       ctx = \<lparr>ctx_subject = ''static-token'', ctx_allowed_projects = a_allowed_projects c\<rparr> \<or>
     (\<exists>keys cl. a_oidc_jwks_url c \<noteq> None \<and> load_jwks c x cache = (Inr keys, cache') \<and>
        verified c x raw keys cl \<and> ctx_subject ctx = subject_of cl \<and>
        set (ctx_allowed_projects ctx) =
          set (a_allowed_projects c) \<union> set_option (hm_get (a_identity_project_map c) (subject_of cl))))"
proof -
  obtain raw where raw: "Option.bind header (strip_prefix ''Bearer '') = Some raw"
    using assms by (auto simp: authenticate_bearer_def split: option.splits)
  then have h: "header = Some (''Bearer '' @ raw)" by (cases header) (auto simp: strip_prefix_Some)
  show ?thesis
  proof (cases "a_static_token c = Some raw")
    case True
    then show ?thesis using assms raw h by (auto simp: authenticate_bearer_def)
  next
    case False
    then have "a_oidc_jwks_url c \<noteq> None" "authenticate_jwt c x raw cache = (Inr ctx, cache')"
      using assms raw by (auto simp: authenticate_bearer_def split: if_splits)
    then show ?thesis using authenticate_jwt_verified [of c x raw cache ctx cache'] h
      by (auto simp: projects_for_set)
  qed
qed

definition sample_auth :: auth_config where
  "sample_auth = \<lparr>a_static_token = Some ''secret'', a_oidc_jwks_url = None, a_oidc_audience = None,
     a_oidc_issuer = None, a_allowed_projects = [''projects/mine''], a_identity_project_map = []\<rparr>"

definition sample_oidc :: "unit oidc" where
  "sample_oidc = \<lparr>x_header = (\<lambda>_. Inl []), x_key = (\<lambda>_ _. Inl []), x_decode = (\<lambda>_ _ _. Inl []),
     x_fetch = (\<lambda>_. Inl []), x_now = 0\<rparr>"

definition sample_ctx :: auth_context where
  "sample_ctx = \<lparr>ctx_subject = ''static-token'', ctx_allowed_projects = [''projects/mine'']\<rparr>"

lemma sample_bearer:
  "authenticate_bearer sample_auth sample_oidc (Some ''Bearer secret'') None = (Inr sample_ctx, None)"
  by code_simp

theorem bearer_sound_witness:
  "\<exists>raw. ''Bearer secret'' = ''Bearer '' @ raw"
  using bearer_sound [OF sample_bearer] by (auto simp: auth_required_def sample_auth_def)

section \<open>The log buffer\<close>





section \<open>The backlog of the report\<close>

text \<open>
  In a well-formed store the backlog that the report gives for a subscription is the
  number of messages of its topic that it has not acknowledged, wherever the subscription
  started, plus once more the number of those that wait in its retry queue.
\<close>

theorem reported_backlog:
  assumes "store_ok s" "hm_get (st_subscriptions s) n = Some sub"
    and "hm_get (st_topics s) (s_topic (ss_spec sub)) = Some t"
  shows "si_backlog (subscription_report s n sub) =
      (length (ts_messages t) - card (ss_acked sub)) + length (ss_retry_queue sub) \<and>
    (\<forall>i \<in> set (queued sub). i < length (ts_messages t) \<and> i \<notin> ss_acked sub)"
proof -
  have ok: "sub_ok n (length (ts_messages t)) sub"
    using sub_fitsD(3) [OF store_okD(5) [OF assms(1,2)] assms(3)] .
  have "set (queued sub) \<subseteq> {..<ss_next_index sub}" using sub_okD(7) [OF ok] by (auto simp: tracked_def live_def)
  then show ?thesis
    using backlog_exact [OF ok] sub_okD(4) [OF ok] assms(3)
    by (fastforce simp: subscription_report_def Let_def)
qed

text \<open>A subscription made after the messages counts them although it never delivers them.\<close>

definition sample_late :: subscription_state where
  "sample_late = new_subscription_state (sample_spec True False) 2"

definition sample_late_state :: state where
  "sample_late_state = (sample_state True False)\<lparr>st_subscriptions := [(sample_sub, sample_late)]\<rparr>"

lemma sample_late_ok: "store_ok sample_late_state"
proof -
  have "sub_ok sample_sub 2 sample_late" unfolding sample_late_def by (rule sub_ok_new)
  moreover have "length (ts_messages sample_topic_state) = 2" by (simp add: sample_topic_state_def)
  moreover have "s_name (sample_spec True False) = sample_sub" "s_topic (sample_spec True False) = sample_topic"
    by (simp_all add: sample_spec_def)
  ultimately show ?thesis using sample_ok [of True False]
    by (simp add: store_ok_def sample_late_state_def sample_state_def sub_fits_def hm_ok_def
        sample_late_def new_subscription_state_def)
qed

theorem reported_backlog_witness: "si_backlog (subscription_report sample_late_state sample_sub sample_late) = 2"
proof -
  have "hm_get (st_subscriptions sample_late_state) sample_sub = Some sample_late"
    "hm_get (st_topics sample_late_state) (s_topic (ss_spec sample_late)) = Some sample_topic_state"
    by code_simp+
  from reported_backlog [OF sample_late_ok this]
  show ?thesis by (simp add: sample_late_def new_subscription_state_def sample_topic_state_def)
qed

section \<open>Forwarding to Relay\<close>







section \<open>The key of a message without one\<close>






definition barred_message :: "string \<Rightarrow> string \<Rightarrow> new_message" where
  "barred_message source severity = \<lparr>n_data = ''x'',
     n_attributes = [(''source'', source), (''severity'', severity)], n_ordering_key = [], n_message_id = []\<rparr>"

lemma barred_sel [simp]:
  "n_message_id (barred_message a b) = []" "n_data (barred_message a b) = ''x''"
  "attr_or_empty (barred_message a b) ''idempotency_key'' = []"
  "attr_or_empty (barred_message a b) ''source'' = a" "attr_or_empty (barred_message a b) ''severity'' = b"
  by (simp_all add: barred_message_def attr_or_empty_def)


text \<open>With a bar, two messages that differ share their key, whatever the hash is.\<close>

lemma bar_shares_key:
  "idempotency_key sha t (barred_message ''a|b'' ''c'') = idempotency_key sha t (barred_message ''a'' ''b|c'')"
  by (simp add: idempotency_key_def barred_message_def attr_or_empty_def hash_input_def)

section \<open>The action gateway\<close>


definition sample_lib :: gateway_lib where
  "sample_lib = \<lparr>gl_from_slice = (\<lambda>_. Inl []), gl_print = (\<lambda>_. ''{}''), gl_rfc3339 = (\<lambda>_. []),
     gl_header_ok = (\<lambda>_. True)\<rparr>"

definition sample_first :: "reply res \<times> action_gateway \<times> state" where
  "sample_first = handle_action sample_lib (publish (sample_env ''g'' 7)) 7 (Some ''k'') []
     (gateway_new sample_topic) (sample_state True False)"

definition sample_reply :: reply where
  "sample_reply = (case fst sample_first of Ok r \<Rightarrow> r | _ \<Rightarrow> gateway_error 0 [])"

lemma sample_first:
  "sample_first = (Ok sample_reply, fst (snd sample_first), snd (snd sample_first))"
  "rp_status sample_reply = 200" "\<not> rp_replay sample_reply"
proof -
  have "is_ok (fst sample_first)" by code_simp
  then show "sample_first = (Ok sample_reply, fst (snd sample_first), snd (snd sample_first))"
    by (cases "fst sample_first") (auto simp: sample_reply_def prod_eq_iff)
  show "rp_status sample_reply = 200" "\<not> rp_replay sample_reply" by code_simp+
qed


text \<open>
  C33: Accepted means stored. When a request is answered 200 and not as a replay, its
  message is published and persisted: the actions topic has a message whose identifier is
  the idempotency key, and every message the topic gained carries the command's payload.
\<close>

theorem action_stored:
  assumes "store_ok s" "handle_action lib (publish e) now header body g s = (Ok r, g', s')"
    and "rp_status r = 200" "\<not> rp_replay r"
  shows "\<exists>key input t t' xs. header = Some key \<and> key \<noteq> [] \<and> e_persist e = None \<and>
    (if body = [] then Inr action_in_default else gl_from_slice lib body) = Inr input \<and>
    hm_get (st_topics s) (gw_actions_topic g) = Some t \<and> hm_get (st_topics s') (gw_actions_topic g) = Some t' \<and>
    ts_messages t' = ts_messages t @ xs \<and> length xs \<le> 1 \<and> key \<in> m_id ` set (ts_messages t') \<and>
    list_all (\<lambda>x. m_data x = n_data (action_message lib key input)) xs"
proof (rule handle_action_cases [of lib "publish e" now header body g s])
  fix r'
  assume "handle_action lib (publish e) now header body g s = (Ok r', g, s)"
    "rp_status r' = 200 \<longrightarrow> rp_replay r' \<and> (\<exists>key. header = Some key \<and> key \<noteq> [] \<and> hm_get (gw_by_key g) key \<noteq> None)"
  then show ?thesis using assms by simp
next
  fix key input p s1
  assume k: "header = Some key" "key \<noteq> []"
    "(if body = [] then Inr action_in_default else gl_from_slice lib body) = Inr input"
    and p: "publish e (gw_actions_topic g) [action_message lib key input] s = (p, s1)"
    and eq: "handle_action lib (publish e) now header body g s =
       (case p of
          Err err \<Rightarrow> (Ok (gateway_error 502 (error_text err)), g, s1)
        | Panic \<Rightarrow> (Panic, g, s1)
        | Ok ids \<Rightarrow> (Ok (result_response lib (accepted now key input) False),
            g\<lparr>gw_by_key := hm_insert key (accepted now key input) (gw_by_key g)\<rparr>, s1))"
  obtain ids where ids: "p = Ok ids" "s1 = s'"
    using eq assms by (cases p) (auto simp: gateway_error_def)
  obtain t t' where t: "hm_get (st_topics s) (gw_actions_topic g) = Some t" "e_persist e = None"
    "s' = s\<lparr>st_topics := hm_insert (gw_actions_topic g) t' (st_topics s)\<rparr>" "key \<in> m_id ` set (ts_messages t')"
    "if seen_at (gw_actions_topic g) key s then t' = t
     else t' = append_message e key (enrich_message (e_json e) (gw_actions_topic g) (action_message lib key input)) t"
    by (rule publish_one [OF assms(1), of e "gw_actions_topic g" "action_message lib key input" ids s'])
      (use p ids k(2) in auto)
  then obtain xs where xs: "ts_messages t' = ts_messages t @ xs" "length xs \<le> 1"
    "list_all (\<lambda>x. m_data x = n_data (action_message lib key input)) xs"
    by (cases "seen_at (gw_actions_topic g) key s") (auto simp: stored_message_def)
  moreover have "hm_get (st_topics s') (gw_actions_topic g) = Some t'" using t(3) by simp
  ultimately show ?thesis using k t(1,2,4) by blast
qed

theorem action_stored_witness:
  "\<exists>t'. hm_get (st_topics (snd (snd sample_first))) sample_topic = Some t' \<and> ''k'' \<in> m_id ` set (ts_messages t')"
proof -
  have "gw_actions_topic (gateway_new sample_topic) = sample_topic" by (simp add: gateway_new_def)
  then show ?thesis
    using action_stored [OF sample_ok sample_first(1) [unfolded sample_first_def] sample_first(2,3)]
    unfolding sample_first_def by auto
qed

section \<open>The push dispatcher\<close>

text \<open>
  C34: With any backend, a tick does to it what the operations it asks for do one after the
  other, with the requests of other clients between them. These are one listing of the push
  subscriptions, pulls of twenty, and acknowledgements of single deliveries, each directly
  after the post of that delivery that the endpoint answered with success; no successful
  post goes unacknowledged, and a delivery whose post failed is not acknowledged by its post.
\<close>

theorem push_tick:
  assumes "tick bk lib out s = (r, evs, k, s')"
  shows "s' = replay bk out evs s \<and>
    (\<exists>evs'. evs = Asked 0 (Ask ListPushSubscriptions) # evs' \<and> orderly evs')"
  using tick_replay [OF assms] tick_orderly [OF assms] by blast

definition sample_push_state :: state where
  "sample_push_state = snd (modify_push_config (sample_env ''p'' 1) sample_sub (Some ''http://x'') [] (sample_state False True))"

definition sample_push_lib :: push_lib where
  "sample_push_lib = \<lparr>pu_base64 = (\<lambda>x. x), pu_rfc3339 = (\<lambda>_. [])\<rparr>"

text \<open>The endpoint takes the first of two messages; nobody else uses the store.\<close>

definition sample_outside :: "state outside" where
  "sample_outside = \<lparr>ou_env = (\<lambda>k. sample_env (''u'' @ show_nat k) 5), ou_others = (\<lambda>k s. s),
     ou_post = (\<lambda>k endpoint body. if k = 2 then Response 204 ''204'' [] else SendFailed ''refused'')\<rparr>"

definition sample_tick :: "unit res \<times> push_event list \<times> nat \<times> state" where
  "sample_tick = tick memory_backend sample_push_lib sample_outside sample_push_state"

lemma sample_tick:
  "fst sample_tick = Ok ()"
  "map (\<lambda>ev. case ev of Posted _ _ d out \<Rightarrow> (m_id (dv_message d), accepted_post out) | Asked k r \<Rightarrow> ([], True))
     (fst (snd sample_tick)) = [([], True), ([], True), (''m0'', True), ([], True), (''m1'', False)]"
  by code_simp+

theorem push_tick_witness:
  "orderly (tl (fst (snd sample_tick))) \<and> length (fst (snd sample_tick)) = 5"
proof -
  have "sample_tick = (fst sample_tick, fst (snd sample_tick), fst (snd (snd sample_tick)), snd (snd (snd sample_tick)))"
    by simp
  then have t: "tick memory_backend sample_push_lib sample_outside sample_push_state =
      (fst sample_tick, fst (snd sample_tick), fst (snd (snd sample_tick)), snd (snd (snd sample_tick)))"
    by (simp add: sample_tick_def)
  have "orderly (tl (fst (snd sample_tick)))" using push_tick [OF t] by auto
  then show ?thesis using arg_cong [OF sample_tick(2), of length] by simp
qed

end
