(* ===== verification/Rest_Claims.thy ===== *)
theory Rest_Claims
  imports Gateway_Claims Rest_Correct
begin

text \<open>The properties of the HTTP surface of \<open>src/rest.rs\<close>.\<close>

section \<open>Authorization\<close>


definition sample_in :: "string \<Rightarrow> bytes \<Rightarrow> http_in" where
  "sample_in path body = \<lparr>hi_method = DELETE, hi_path = path, hi_query = None,
     hi_authorization = Some ''Bearer secret'', hi_body = body\<rparr>"

definition sample_rest :: rest_lib where
  "sample_rest = \<lparr>rl_encode = (\<lambda>x. x), rl_decode = Some, rl_rfc3339 = (\<lambda>_. []), rl_parse_time = (\<lambda>_. None),
     rl_serde_time = (\<lambda>_. []), rl_serde_parse = (\<lambda>_. Some 0)\<rparr>"

definition sample_owner :: auth_config where
  "sample_owner = sample_auth\<lparr>a_allowed_projects := [''projects/p'']\<rparr>"

definition sample_delete :: "http_reply res \<times> jwks_cache \<times> state" where
  "sample_delete = google_dispatch memory_backend (Some sample_owner) sample_oidc (sample_env ''d'' 3) sample_rest
     (sample_in ''/v1/projects/p/topics/t'' []) None (sample_state True False)"



text \<open>
  C36: The body decides whose permission is asked. For a path below a project, without a
  colon and not a collection, a string \<open>resource\<close> in the body replaces the path as the
  resource that is authorized, while the request acts on the path: a caller who may touch
  the named resource deletes the topic of the path, in whatever project.
\<close>

theorem rest_resource_field_decides:
  assumes "authenticate_bearer auth x (hi_authorization r) cache = (Inr ctx, cache')"
    and "trim_start_matches ''/v1/'' (hi_path r) = path" "path = ''projects/'' @ q @ ''/topics/'' @ t"
    and "CHR ''/'' \<notin> set q" "CHR ''/'' \<notin> set t" "CHR '':'' \<notin> set path"
    and "\<not> ends_with path ''/topics''" "\<not> ends_with path ''/subscriptions''" "\<not> ends_with path ''/snapshots''"
    and "\<not> str_contains path ''/schemas''"
    and "hi_method r = DELETE" "hi_body r \<noteq> []" "e_json e (hi_body r) = Inr v"
    and "get_str v ''resource'' = Some named" "authorize_resource ctx named = Inr ()"
  shows "google_dispatch bk (Some auth) x e lib r cache s =
    (fst (answer empty_json (b_delete_topic bk e path s)), cache', snd (b_delete_topic bk e path s))"
proof -
  have "split_once (CHR '':'') path = None" using assms(6) by (simp add: split_once_None)
  then have res: "auth_resource_for_path path v = named"
    using assms(7-10,14) by (simp add: auth_resource_for_path_def Let_def)
  have parts: "split_on (CHR ''/'') path = [''projects'', q, ''topics'', t]"
    using split_on_append [of "CHR ''/''" "''projects''" "q @ ''/topics/'' @ t"]
      split_on_append [OF assms(4), of "''topics/'' @ t"]
      split_on_append [of "CHR ''/''" "''topics''" t] split_on_no_sep [OF assms(5)]
    by (simp add: assms(3))
  have "route bk e lib DELETE path (or_default [] (hi_query r)) v s = answer empty_json (b_delete_topic bk e path s)"
    using parts by (simp add: route_def handle_resource_request_def Let_def topic_request_def)
  then show ?thesis
    using assms(1,2,11-13,15) res
    by (simp add: google_dispatch_def Let_def authorize_def answer_def)
qed

definition sample_field :: json where
  "sample_field = JObject [(''resource'', JString ''projects/mine/x'')]"

definition sample_field_env :: env where
  "sample_field_env = (sample_env ''d'' 3)\<lparr>e_json := (\<lambda>_. Inr sample_field)\<rparr>"

text \<open>The static token may touch \<open>projects/mine\<close> only, and deletes a topic of \<open>projects/p\<close>.\<close>

theorem rest_resource_field_decides_witness:
  "authorize_resource sample_ctx sample_topic \<noteq> Inr () \<and>
   st_topics (snd (snd (google_dispatch memory_backend (Some sample_auth) sample_oidc sample_field_env sample_rest
     (sample_in ''/v1/projects/p/topics/t'' ''{}'') None (sample_state True False)))) = []"
proof -
  let ?r = "sample_in ''/v1/projects/p/topics/t'' ''{}''"
  have auth: "authenticate_bearer sample_auth sample_oidc (hi_authorization ?r) None = (Inr sample_ctx, None)"
    using sample_bearer by (simp add: sample_in_def)
  have path: "trim_start_matches ''/v1/'' (hi_path ?r) = sample_topic" by code_simp
  have "google_dispatch memory_backend (Some sample_auth) sample_oidc sample_field_env sample_rest ?r None (sample_state True False)
      = (fst (answer empty_json (b_delete_topic memory_backend sample_field_env sample_topic (sample_state True False))), None,
         snd (b_delete_topic memory_backend sample_field_env sample_topic (sample_state True False)))"
    by (rule rest_resource_field_decides [OF auth path, where q = "''p''" and t = "''t''" and v = sample_field
          and named = "''projects/mine/x''"]) (code_simp)+
  then have "snd (snd (google_dispatch memory_backend (Some sample_auth) sample_oidc sample_field_env sample_rest ?r None
        (sample_state True False))) = snd (delete_topic sample_field_env sample_topic (sample_state True False))"
    by simp
  moreover have "st_topics (snd (delete_topic sample_field_env sample_topic (sample_state True False))) = []"
    by code_simp
  moreover have "authorize_resource sample_ctx sample_topic \<noteq> Inr ()" by code_simp
  ultimately show ?thesis by simp
qed

section \<open>Conversions\<close>

text \<open>
  C37: Reading back what the surface writes. Schemas and policies come back as they were;
  a topic does but for the encoding of a schema it has not; a subscription does but for an
  empty push endpoint, and its retry policy: one that has none, and so the default backoff
  of 10 to 600 seconds, comes back with a policy of 0 to 0 seconds. A delivered message
  comes back as one to publish under its own identifier.
\<close>

theorem rest_roundtrip:
  assumes "- (2 ^ 31) \<le> p_version p" "p_version p < 2 ^ 31"
    and "rl_decode lib (rl_encode lib (m_data (dv_message d))) = Some (m_data (dv_message d))"
  shows "topic_spec_from_value n (topic_json t) =
      (if t_schema_name t = [] then t\<lparr>t_schema_encoding := []\<rparr> else t) \<and>
    subscription_spec_from_value n (subscription_json sub) =
      Inr (sub\<lparr>s_retry := Some (case s_retry sub of Some r \<Rightarrow> r
                | None \<Rightarrow> \<lparr>r_minimum_backoff_seconds = 0, r_maximum_backoff_seconds = 0\<rparr>),
              s_push_endpoint := (if s_push_endpoint sub = Some [] then None else s_push_endpoint sub)\<rparr>) \<and>
    schema_spec_from_value n (schema_json sc) = Inr sc \<and>
    policy_from_value (policy_json p) = Inr p \<and>
    Option.bind (json_get (delivery_json lib d) ''message'') (\<lambda>v. Some (message_of lib v)) =
      Some (Inr \<lparr>n_data = m_data (dv_message d), n_attributes = m_attributes (dv_message d),
        n_ordering_key = m_ordering_key (dv_message d), n_message_id = m_id (dv_message d)\<rparr>)"
  using topic_json_back subscription_json_back schema_json_back policy_json_back [OF assms(1,2)]
    delivery_json_back [OF assms(3)] by simp

definition sample_policy :: iam_policy where
  "sample_policy = \<lparr>p_version = -1, p_bindings = [\<lparr>b_role = ''r'', b_members = [''m'']\<rparr>], p_etag = ''e''\<rparr>"

theorem rest_roundtrip_witness:
  "policy_from_value (policy_json sample_policy) = Inr sample_policy \<and>
   backoff_bounds (sample_spec True False) = (10, 600) \<and>
   map_option backoff_bounds (case subscription_spec_from_value [] (subscription_json (sample_spec True False)) of
     Inr x \<Rightarrow> Some x | Inl _ \<Rightarrow> None) = Some (0, 0)"
proof -
  let ?d = "\<lparr>dv_ack_id = [], dv_message = sample_stored ''m'' ''x'', dv_delivery_attempt = 1\<rparr>"
  have "rl_decode sample_rest (rl_encode sample_rest (m_data (dv_message ?d))) = Some (m_data (dv_message ?d))"
    by (simp add: sample_rest_def)
  then show ?thesis
    using rest_roundtrip [of sample_policy sample_rest ?d "[]" topic_default "sample_spec True False"
        "\<lparr>sc_name = [], sc_schema_type = [], sc_definition = []\<rparr>"]
    by (simp add: sample_policy_def backoff_bounds_def sample_spec_def subscription_default_def)
qed

section \<open>Refinement of the store's requests\<close>

text \<open>
  Over any backend that answers in the states it gets into (the memory store, and the
  others of theory \<open>Backends\<close>), an HTTP request does not panic; it leaves the backend as it
  is, or does what one operation of the backend does, and answers 200 when that succeeded
  and with the error's status, code and text when it failed.
\<close>

theorem rest_refines:
  assumes "answering_backend bk ok fine allowed" "ok s" "fine e s"
    and "google_dispatch bk auth x e lib r cache s = (resp, cache', s')"
  shows "(\<exists>rep. resp = Ok rep) \<and>
    (s' = s \<or>
     (\<exists>op. s' = snd (bk_run bk e op s) \<and>
       (case fst (bk_run bk e op s) of
          Ok _ \<Rightarrow> \<exists>v. resp = Ok (json_reply 200 v)
        | Err err \<Rightarrow> resp = Ok (backend_error_reply err)
        | Panic \<Rightarrow> False)))"
  by (rule answering_backend.served_answers [OF assms(1-3) served_dispatch [OF assms(4)]])

theorem rest_refines_witness:
  "\<exists>rep. fst sample_delete = Ok rep"
proof -
  have env: "env_ok (sample_env ''d'' 3) (sample_state True False)"
    by (rule sample_env_ok) (simp_all add: sample_keys)
  have "google_dispatch memory_backend (Some sample_owner) sample_oidc (sample_env ''d'' 3) sample_rest
      (sample_in ''/v1/projects/p/topics/t'' []) None (sample_state True False)
      = (fst sample_delete, fst (snd sample_delete), snd (snd sample_delete))"
    by (simp add: sample_delete_def)
  from rest_refines [OF memory_store.answering_backend_axioms sample_reachable env this] show ?thesis by simp
qed

end
