(* ===== verification/Grpc_Claims.thy ===== *)
theory Grpc_Claims
  imports Rest_Claims Surfaces
begin

text \<open>The properties of the gRPC surface of \<open>src/grpc.rs\<close>.\<close>

section \<open>Unary calls\<close>

text \<open>Whether the caller is let through: authentication is off, or it may touch the resource.\<close>

definition admitted :: "('key, 's) rpc_ctx \<Rightarrow> grpc_request \<Rightarrow> bool" where
  "admitted c req =
     (case (gx_auth c, rpc_resource req) of
        (Some auth, Some n) \<Rightarrow>
          (case fst (authenticate_bearer auth (gx_oidc c) (gx_header c) (gx_cache c)) of
             Inl _ \<Rightarrow> False
           | Inr ctx \<Rightarrow> authorize_resource ctx n = Inr ())
      | _ \<Rightarrow> True)"

lemma grpc_authorize_admits:
  assumes "rpc_resource req = Some n"
  shows "admitted c req \<longleftrightarrow> fst (grpc_authorize c n) = Inr ()"
  using assms
  by (auto simp: admitted_def grpc_authorize_def split: option.split sum.split prod.split)

lemma authorized_cases:
  "authorized c n rest s =
     (case fst (grpc_authorize c n) of
        Inl st \<Rightarrow> (RpcErr st, snd (grpc_authorize c n), s)
      | Inr _ \<Rightarrow> (fst rest, snd (grpc_authorize c n), snd rest))"
  by (auto simp: authorized_def split: prod.split sum.split)

text \<open>
  C39: Over any backend that answers in the states it gets into, a unary gRPC call does not
  panic. A caller that is not admitted gets an error and changes nothing. For an admitted
  one the backend does exactly the operation the message stands for (a malformed message is
  refused and does nothing), and the answer is a success just when the backend's was, else
  the status of the backend's error. Except for \<open>CreateSchema\<close>, a request acts on the
  resource that was authorized.
\<close>

theorem grpc_call_refines:
  assumes "answering_backend (gx_backend c) ok fine allowed" "ok s" "fine (gx_env c) s"
    and "grpc_call c req s = (resp, cache', s')"
  shows "resp \<noteq> RpcPanic \<and>
    (if admitted c req then
       (case rpc_meaning c req of
          None \<Rightarrow> s' = s \<and> (\<exists>st. resp = RpcErr st)
        | Some op \<Rightarrow> s' = snd (bk_run (gx_backend c) (gx_env c) op s) \<and>
            (case fst (bk_run (gx_backend c) (gx_env c) op s) of
               Ok _ \<Rightarrow> \<exists>x. resp = RpcOk x
             | Err err \<Rightarrow> resp = RpcErr (backend_status err)
             | Panic \<Rightarrow> False))
     else s' = s \<and> (\<exists>st. resp = RpcErr st)) \<and>
    (\<forall>r. rpc_meaning c req = Some (Do r) \<longrightarrow> (\<exists>x. r = CreateSchema x) \<or> rpc_resource req = Some (subject r))"
proof -
  have np: "fst (bk_run (gx_backend c) (gx_env c) op s) \<noteq> Panic" for op
    by (rule answering_backend.answers [OF assms(1-3)])
  have h: "handled c (rpc_resource req) (rpc_meaning c req) s (resp, cache', s')"
    using call_handled [of c req s] assms(4) by simp
  have subj: "(\<exists>x. r = CreateSchema x) \<or> rpc_resource req = Some (subject r)" if "rpc_meaning c req = Some (Do r)" for r
    using rpc_meaning_subject [OF that] by blast
  show ?thesis
  proof (cases "rpc_resource req")
    case None
    then have "rpc_meaning c req = None" "\<exists>st. resp = RpcErr st" "s' = s" using h by (auto simp: handled_def)
    then show ?thesis by auto
  next
    case (Some n)
    then obtain rest where rest: "(resp, cache', s') = authorized c n rest s"
      "performed (gx_backend c) (gx_env c) (rpc_meaning c req) s rest" using h by (auto simp: handled_def)
    show ?thesis
    proof (cases "fst (grpc_authorize c n)")
      case (Inl st)
      then show ?thesis using rest(1) subj grpc_authorize_admits [OF Some, of c] by (auto simp: authorized_cases)
    next
      case (Inr u)
      then have "resp = fst rest" "s' = snd rest" "admitted c req"
        using rest(1) grpc_authorize_admits [OF Some, of c] by (auto simp: authorized_cases)
      then show ?thesis
        using rest(2) subj np by (fastforce simp: performed_def split: option.splits res.splits)
    qed
  qed
qed

definition sample_call :: "env \<Rightarrow> (unit, state) rpc_ctx" where
  "sample_call e = \<lparr>gx_backend = memory_backend, gx_auth = Some sample_owner, gx_oidc = sample_oidc, gx_header = Some ''Bearer secret'',
     gx_cache = None, gx_env = e, gx_in_range = (\<lambda>_. True)\<rparr>"

text \<open>The owner of \<open>projects/p\<close> publishes there; elsewhere it is refused.\<close>

theorem grpc_call_refines_witness:
  "length (ts_messages (snd (hd (st_topics (snd (snd (grpc_call (sample_call (sample_env ''d'' 3))
     (RpcPublish sample_topic [\<lparr>gm_data = ''z'', gm_attributes = [], gm_message_id = [],
        gm_publish_time = None, gm_ordering_key = []\<rparr>]) (sample_state True False))))))))
     = 3 \<and>
   \<not> admitted (sample_call (sample_env ''d'' 3)) (RpcDeleteTopic ''projects/q/topics/t'') \<and>
   snd (snd (grpc_call (sample_call (sample_env ''d'' 3)) (RpcDeleteTopic ''projects/q/topics/t'')
     (sample_state True False))) = sample_state True False"
proof -
  define c where "c = sample_call (sample_env ''d'' 3)"
  define s where "s = sample_state True False"
  let ?m = "\<lparr>gm_data = ''z'', gm_attributes = [], gm_message_id = [], gm_publish_time = None, gm_ordering_key = []\<rparr>"
  define pub where "pub = RpcPublish sample_topic [?m]"
  define del where "del = RpcDeleteTopic ''projects/q/topics/t''"
  have env: "env_ok (gx_env c) s"
    unfolding c_def s_def sample_call_def rpc_ctx.simps by (rule sample_env_ok) (simp_all add: sample_keys)
  have reach: "reachable s" unfolding s_def by (rule sample_reachable)
  have adm: "admitted c pub" "\<not> admitted c del" unfolding c_def pub_def del_def by code_simp+
  have bk: "gx_backend c = memory_backend" unfolding c_def sample_call_def rpc_ctx.simps ..
  note ans = memory_store.answering_backend_axioms [folded bk]
  have m: "rpc_meaning c pub = Some (Do (Publish sample_topic [message_from_proto ?m]))"
    by (simp add: rpc_meaning_def pub_def)
  have len: "length (ts_messages (snd (hd (st_topics (snd (perform (gx_env c)
      (Publish sample_topic [message_from_proto ?m]) s)))))) = 3" unfolding c_def s_def by code_simp
  obtain resp cache s1 where out: "grpc_call c pub s = (resp, cache, s1)" by (cases "grpc_call c pub s")
  have "s1 = snd (perform (gx_env c) (Publish sample_topic [message_from_proto ?m]) s)"
    using grpc_call_refines [OF ans reach env out]
    by (simp only: adm m if_True option.case bk bk_run.simps memory_perform)
  then have 1: "length (ts_messages (snd (hd (st_topics (snd (snd (grpc_call c pub s))))))) = 3"
    using len out by simp
  obtain resp cache s2 where out: "grpc_call c del s = (resp, cache, s2)" by (cases "grpc_call c del s")
  have "s2 = s" using grpc_call_refines [OF ans reach env out] by (simp only: adm if_False)
  then have "snd (snd (grpc_call c del s)) = s" using out by simp
  then show ?thesis using 1 adm(2) unfolding c_def s_def pub_def del_def by blast
qed

section \<open>Streaming pull\<close>






section \<open>Both surfaces\<close>




end
