(* ===== verification/Server_Claims.thy ===== *)
theory Server_Claims
  imports Http_Server Grpc_Claims
begin

text \<open>
  The properties of the whole server: what a start leaves, the way of a command from
  \<open>POST /v1/actions\<close> to the consumer, and what an HTTP request may do.
\<close>

section \<open>A command reaches its consumer\<close>

lemma relay_events_ops [simp]:
  "b_publish (relay_events_backend cfg lib) = forward_publish cfg lib"
  "b_pull (relay_events_backend cfg lib) e n k = delegate (pull e n k)"
  by (simp_all add: relay_events_backend_def)

lemma actions_queue_spec:
  assumes "ss_spec sub = normalized (actions_queue cfg)"
  shows "s_topic (ss_spec sub) = actions_topic_of cfg" "\<not> filter_rejects (ss_spec sub) a"
    "s_dead_letter (ss_spec sub) = None" "\<not> s_enable_message_ordering (ss_spec sub)"
  by (simp_all add: assms normalized_def actions_queue_def subscription_default_def filter_rejects_def)

text \<open>A message at the end of the actions topic is delivered by a pull with room.\<close>

lemma queue_delivers:
  assumes "store_ok s" "env_ok e s" "hm_get (st_subscriptions s) n = Some sub"
    and spec: "ss_spec sub = normalized (actions_queue cfg)"
    and t: "hm_get (st_topics s) (actions_topic_of cfg) = Some t"
    and "pull e n k s = (Ok ds, s')" "length ds < unat (clamp k 1 1000)"
    and "i < length (ts_messages t)" "ss_next_index sub \<le> i"
  shows "\<exists>d \<in> set ds. dv_message d = ts_messages t ! i"
proof -
  note q = actions_queue_spec [OF spec]
  have "hm_get (st_topics s) (s_topic (ss_spec sub)) = Some t" using t q(1) by simp
  note args = assms(1-3) this
  have "\<not> exhausted (call_of e n sub t s) i"
    using pull_call_same(1) [OF args] q(3) by (simp add: exhausted_def)
  then show ?thesis using pull_due [OF args assms(6-8)] assms(9) q(2,4) by blast
qed

text \<open>
  C20: From the webhook to the consumer. A server with the relay-events backend queues a
  command with a new idempotency key when it answers 200 and not as a replay: the next pull
  of the actions subscription that has room for it delivers a message with that key as its
  identifier and the command as its payload, whatever else the queue holds.
\<close>

theorem action_delivered:
  assumes "store_ok (fst x)" "hm_get (st_subscriptions (fst x)) n = Some sub"
    and "ss_spec sub = normalized (actions_queue cfg)"
    and "rc_actions_topic rc = actions_topic_of cfg" "gw_actions_topic g = actions_topic_of cfg"
    and "handle_action glib (b_publish (relay_events_backend rc lib) e) now (Some key) body g x = (Ok r, g', y)"
    and "rp_status r = 200" "\<not> rp_replay r" "\<not> seen_at (actions_topic_of cfg) key (fst x)"
    and "env_ok e' (fst y)" "b_pull (relay_events_backend rc lib) e' n k y = (Ok ds, z)"
    and "length ds < unat (clamp k 1 1000)"
  shows "\<exists>d input. d \<in> set ds \<and> m_id (dv_message d) = key \<and>
    (if body = [] then Inr action_in_default else gl_from_slice glib body) = Inr input \<and>
    m_data (dv_message d) = n_data (action_message glib key input)"
proof (rule handle_action_cases [of glib "b_publish (relay_events_backend rc lib) e" now "Some key" body g x])
  fix r'
  assume "handle_action glib (b_publish (relay_events_backend rc lib) e) now (Some key) body g x = (Ok r', g, x)"
    "rp_status r' = 200 \<longrightarrow> rp_replay r' \<and>
      (\<exists>key'. Some key = Some key' \<and> key' \<noteq> [] \<and> hm_get (gw_by_key g) key' \<noteq> None)"
  then show ?thesis using assms(6-8) by simp
next
  fix key' input p y1
  let ?T = "actions_topic_of cfg"
  let ?m = "enrich_message (e_json e) ?T (action_message glib key input)"
  assume "Some key = Some key'" and ne: "key' \<noteq> []"
    and input: "(if body = [] then Inr action_in_default else gl_from_slice glib body) = Inr input"
    and p: "b_publish (relay_events_backend rc lib) e (gw_actions_topic g) [action_message glib key' input] x = (p, y1)"
    and eq: "handle_action glib (b_publish (relay_events_backend rc lib) e) now (Some key) body g x =
       (case p of
          Err err \<Rightarrow> (Ok (gateway_error 502 (error_text err)), g, y1)
        | Panic \<Rightarrow> (Panic, g, y1)
        | Ok ids \<Rightarrow> (Ok (result_response glib (accepted now key' input) False),
            g\<lparr>gw_by_key := hm_insert key' (accepted now key' input) (gw_by_key g)\<rparr>, y1))"
  then have k: "key' = key" "key \<noteq> []" by simp_all
  obtain ids where ids: "p = Ok ids" "y1 = y" using eq assms(6-8) by (cases p) (auto simp: gateway_error_def)
  have pub: "publish e ?T [?m] (fst x) = (Ok ids, fst y)"
    by (rule forward_actions [of rc lib e "[action_message glib key input]" x])
      (use p ids assms(4,5) k in \<open>auto simp: delegate_def split: prod.splits\<close>)
  have cid: "client_id_of ?m = key" by simp
  obtain t t' where t: "hm_get (st_topics (fst x)) ?T = Some t"
    "fst y = (fst x)\<lparr>st_topics := hm_insert ?T t' (st_topics (fst x))\<rparr>"
    and t': "t' = append_message e key (enrich_message (e_json e) ?T ?m) t"
    using publish_one [OF assms(1) pub] k(2) assms(9) unfolding cid by metis
  have ok: "store_ok (fst y)" using store_ok_publish [OF assms(1), of e ?T "[?m]"] pub by simp
  have sub: "hm_get (st_subscriptions (fst y)) n = Some sub" and top: "hm_get (st_topics (fst y)) ?T = Some t'"
    using t(2) assms(2) by simp_all
  have "s_topic (ss_spec sub) = ?T" by (rule actions_queue_spec(1) [OF assms(3)])
  then have "sub_ok n (length (ts_messages t)) sub"
    using sub_fitsD(3) [OF store_okD(5) [OF assms(1,2)]] t(1) by simp
  then have next_index: "ss_next_index sub \<le> length (ts_messages t)" by (rule sub_okD(4))
  have "pull e' n k (fst y) = (Ok ds, fst z)"
    using assms(11) by (auto simp: delegate_def split: prod.splits)
  then obtain d where "d \<in> set ds" "dv_message d = ts_messages t' ! length (ts_messages t)"
    using queue_delivers [OF ok assms(10) sub assms(3) top _ assms(12) _ next_index] t' by auto
  then show ?thesis using input t'
    by (intro exI [of _ d] exI [of _ input]) (auto simp: stored_message_def nth_append)
qed

text \<open>The queue of a fresh start with the default settings, without the catalog's topics.\<close>

definition queue_state :: state where
  "queue_state = snd (create_subscription (sample_env ''s'' 0) (actions_queue config_default)
     (snd (create_topic (sample_env ''s'' 0) (topic_default\<lparr>t_name := actions_topic_of config_default\<rparr>) empty_state)))"

definition queue_relay :: relay_config where
  "queue_relay = \<lparr>rc_base_url = ''http://relay'', rc_token = None, rc_actions_topic = actions_topic_of config_default\<rparr>"

definition queue_lib :: relay_lib where
  "queue_lib = \<lparr>re_sha = id, re_base64 = id, re_post = (\<lambda>e k q. SendFailed [])\<rparr>"

definition queue_call :: "reply res \<times> action_gateway \<times> relay_state" where
  "queue_call = handle_action sample_lib (b_publish (relay_events_backend queue_relay queue_lib) (sample_env ''p'' 3)) 3
     (Some ''k'') [] (gateway_new (actions_topic_of config_default)) (queue_state, [])"

definition queue_reply :: reply where
  "queue_reply = (case fst queue_call of Ok r \<Rightarrow> r | _ \<Rightarrow> gateway_error 0 [])"

definition queue_pull :: "delivery list res \<times> relay_state" where
  "queue_pull = b_pull (relay_events_backend queue_relay queue_lib) (sample_env ''q'' 4) (actions_subscription_of config_default)
     10 (snd (snd queue_call))"

definition queue_pulled :: "delivery list" where
  "queue_pulled = (case fst queue_pull of Ok ds \<Rightarrow> ds | _ \<Rightarrow> [])"

lemma queue_untouched: "untouched queue_state"
proof -
  have e: "env_order_ok (sample_env ''s'' 0)" "env_fresh (sample_env ''s'' 0) {}"
    by (rule sample_env_order, rule sample_env_fresh) simp_all
  have "untouched (snd (perform (sample_env ''s'' 0) (CreateTopic (topic_default\<lparr>t_name := actions_topic_of config_default\<rparr>)) empty_state))"
    by (rule untouched_step [OF untouched_empty e]) blast
  from untouched_step [OF this e, of "CreateSubscription (actions_queue config_default)"]
  show ?thesis by (simp add: queue_state_def)
qed

lemma queue_eval:
  "hm_get (st_subscriptions queue_state) (actions_subscription_of config_default) =
     Some (new_subscription_state (normalized (actions_queue config_default)) 0)"
  "is_ok (fst queue_call)" "rp_status queue_reply = 200" "\<not> rp_replay queue_reply"
  "map (\<lambda>(n, sub). ss_inflight sub) (st_subscriptions (fst (snd (snd queue_call)))) = [[]]"
  "is_ok (fst queue_pull)" "length queue_pulled = 1"
  unfolding queue_pulled_def queue_pull_def queue_reply_def queue_call_def relay_events_ops
  by code_simp+

theorem action_delivered_witness:
  "\<exists>d \<in> set queue_pulled. m_id (dv_message d) = ''k''"
proof -
  let ?T = "actions_topic_of config_default" and ?sub = "new_subscription_state (normalized (actions_queue config_default)) 0"
  have "reachable queue_state" using queue_untouched by (simp add: untouched_def)
  then have ok: "store_ok (fst (queue_state, [] :: http_request list))" by (simp add: reachable_ok)
  have sub: "hm_get (st_subscriptions (fst (queue_state, [] :: http_request list))) (actions_subscription_of config_default) = Some ?sub"
    using queue_eval(1) by simp
  have spec: "ss_spec ?sub = normalized (actions_queue config_default)" by (simp add: new_subscription_state_def)
  have topics: "rc_actions_topic queue_relay = ?T" "gw_actions_topic (gateway_new ?T) = ?T"
    by (simp_all add: queue_relay_def gateway_new_def)
  have call: "handle_action sample_lib (b_publish (relay_events_backend queue_relay queue_lib) (sample_env ''p'' 3)) 3
      (Some ''k'') [] (gateway_new ?T) (queue_state, []) = (Ok queue_reply, fst (snd queue_call), snd (snd queue_call))"
    unfolding queue_call_def [symmetric] using queue_eval(2) by (cases "fst queue_call") (auto simp: queue_reply_def prod_eq_iff)
  have new: "\<not> seen_at ?T ''k'' (fst (queue_state, [] :: http_request list))"
    using queue_untouched by (auto simp: untouched_def seen_at_def split: option.splits)
  have "lease_keys (fst (snd (snd queue_call))) = {}"
    using queue_eval(5) by (intro no_lease_keys) (auto simp: map_eq_Cons_conv)
  then have env: "env_ok (sample_env ''q'' 4) (fst (snd (snd queue_call)))" by (intro sample_env_ok) simp_all
  have pulled: "b_pull (relay_events_backend queue_relay queue_lib) (sample_env ''q'' 4)
      (actions_subscription_of config_default) 10 (snd (snd queue_call)) = (Ok queue_pulled, snd queue_pull)"
    unfolding queue_pull_def [symmetric] using queue_eval(6) by (cases "fst queue_pull") (auto simp: queue_pulled_def prod_eq_iff)
  have room: "length queue_pulled < unat (clamp (10 :: u32) 1 1000)" using queue_eval(7) by simp code_simp
  show ?thesis
    using action_delivered [OF ok sub spec topics call queue_eval(3,4) new env pulled room] by blast
qed

section \<open>What a start leaves\<close>

text \<open>
  C26: A server that starts with the relay-events backend is ready for commands, whatever
  was in its file and whether or not its seeds could be persisted: the action gateway is
  served on the same topic that the backend keeps local, that topic and its subscription
  are there, the latter with the configured deadline when it is new, and every topic and
  subscription of the file is as it was. Without a file the store is a reachable one.
\<close>

theorem startup_ready:
  assumes "fst (start_server var out tls_out cfg disk) = Inr (Opened_Relay_Events rc x, sv)"
  shows "sv_actions sv = Some (gateway_new (actions_topic_of cfg)) \<and> rc_actions_topic rc = actions_topic_of cfg \<and>
    snd x = [] \<and> (\<exists>s0. loaded_store out cfg = Ok s0 \<and> seeded cfg s0 (fst x)) \<and>
    (\<not> cf_persist cfg \<and> (\<forall>k. env_order_ok (so_envs out k) \<and> env_fresh (so_envs out k) {}) \<longrightarrow> reachable (fst x))"
proof -
  let ?cfg = "without_empty_tokens cfg"
  have same: "actions_topic_of ?cfg = actions_topic_of cfg" "loaded_store out ?cfg = loaded_store out cfg"
    "seeded ?cfg = seeded cfg" "cf_persist ?cfg = cf_persist cfg" "cf_backend ?cfg = cf_backend cfg"
    by (auto simp: without_empty_tokens_def actions_topic_of_def loaded_store_def seeded_def fun_eq_iff
        actions_subscription_of_def actions_queue_def)
  have kind: "cf_backend cfg = RelayEvents"
    using assms by (auto simp: start_server_def open_backend_def Let_def same res_bind_def
        split: backend_kind.splits res.splits prod.splits sum.splits)
  then have "open_relay_events out ?cfg = Ok (rc, x) \<and> sv_actions sv = Some (gateway_new (actions_topic_of cfg))"
    using assms by (auto simp: start_server_def open_backend_def Let_def same res_bind_def
        split: res.splits prod.splits sum.splits)
  then obtain s0 where s0: "loaded_store out cfg = Ok s0" "sv_actions sv = Some (gateway_new (actions_topic_of cfg))"
    and x: "x = (snd (seed memory_backend (so_envs out) 0 (seeds ?cfg) s0), [])" "rc_actions_topic rc = actions_topic_of cfg"
    by (auto simp: open_relay_events_cases same split: res.splits option.splits)
  have "seeded cfg s0 (fst x)" using seeds_seeded [of "so_envs out" ?cfg s0] by (auto simp: x(1) same)
  moreover have "reachable (fst x)"
    if "\<not> cf_persist cfg" "\<forall>k. env_order_ok (so_envs out k) \<and> env_fresh (so_envs out k) {}"
    using seeds_ready [of "so_envs out" ?cfg] that s0(1) by (simp add: x(1) loaded_store_def untouched_def)
  ultimately show ?thesis using s0 x by auto
qed

definition sample_start :: "nat start_outside" where
  "sample_start = \<lparr>so_lib = \<lparr>fl_rest = sample_rest, fl_print = (\<lambda>_. []), fl_parse = (\<lambda>_. Inl []), fl_error = id,
       fl_set = (\<lambda>_. [])\<rparr>, so_dir = None, so_raw = None, so_client = None, so_relay = queue_lib,
     so_envs = (\<lambda>k. sample_env ''s'' (int k)), so_far = 0\<rparr>"

definition sample_tls :: tls_outside where
  "sample_tls = \<lparr>to_read_cert = None, to_read_key = None, to_generated = Inr (''C'', ''K''), to_create_dir = None,
     to_write_cert = None, to_write_key = None, to_set_permissions = None\<rparr>"

definition sample_config :: config where
  "sample_config = config_default\<lparr>cf_backend := RelayEvents\<rparr>"

theorem startup_ready_witness:
  "\<exists>rc x sv. fst (start_server (\<lambda>_. None) sample_start sample_tls sample_config \<lparr>td_cert = None, td_key = None,
      td_key_private = False\<rparr>) = Inr (Opened_Relay_Events rc x, sv) \<and>
    sv_actions sv = Some (gateway_new (actions_topic_of sample_config)) \<and> reachable (fst x)"
proof -
  obtain disk' where tls: "load_or_generate_self_signed sample_tls \<lparr>td_cert = None, td_key = None, td_key_private = False\<rparr>
      = (Inr \<lparr>tm_cert_pem = ''C'', tm_key_pem = ''K''\<rparr>, disk')"
    by (simp add: load_or_generate_self_signed_def sample_tls_def)
  have cfg: "cf_backend (without_empty_tokens sample_config) = RelayEvents" "\<not> cf_persist sample_config"
    "loaded_store sample_start (without_empty_tokens sample_config) = Ok empty_state" "so_client sample_start = None"
    by (simp_all add: sample_config_def without_empty_tokens_def config_default_def loaded_store_def sample_start_def)
  obtain rc x where opened: "open_relay_events sample_start (without_empty_tokens sample_config) = Ok (rc, x)"
    unfolding open_relay_events_cases by (simp add: cfg)
  have "\<exists>sv. fst (start_server (\<lambda>_. None) sample_start sample_tls sample_config \<lparr>td_cert = None, td_key = None,
      td_key_private = False\<rparr>) = Inr (Opened_Relay_Events rc x, sv)"
    by (simp add: start_server_def Let_def open_backend_def cfg opened tls)
  then obtain sv where sv: "fst (start_server (\<lambda>_. None) sample_start sample_tls sample_config \<lparr>td_cert = None, td_key = None,
      td_key_private = False\<rparr>) = Inr (Opened_Relay_Events rc x, sv)" by blast
  have "env_order_ok (so_envs sample_start k) \<and> env_fresh (so_envs sample_start k) {}" for k
    unfolding sample_start_def start_outside.select_convs
    by (intro conjI sample_env_order sample_env_fresh) simp_all
  then show ?thesis using startup_ready [OF sv] sv cfg(2) by blast
qed

section \<open>What an HTTP request may do\<close>










end
