(* ===== verification/Metrics.thy ===== *)
theory Metrics
  imports Surfaces Push_Dispatch
begin

text \<open>
  \<open>src/metrics.rs\<close>, and what the surfaces and the push dispatcher count. The counters and
  their text form are the Prometheus library's: its registry and encoder are parameters,
  and what the program asks of the counters is a list of calls, in their order.
\<close>

section \<open>The families\<close>

datatype metric_kind = Counter_Vec | Histogram_Vec

record metric_family =
  mf_kind :: metric_kind
  mf_name :: string
  mf_help :: string
  mf_labels :: "string list"

record 'r metrics =
  mt_registry :: 'r
  mt_requests :: metric_family
  mt_messages :: metric_family
  mt_latency :: metric_family

definition requests_family :: metric_family where
  "requests_family = \<lparr>mf_kind = Counter_Vec, mf_name = ''relay_pubsub_requests_total'',
     mf_help = ''Gateway requests by operation and result'', mf_labels = [''transport'', ''operation'', ''result'']\<rparr>"

definition messages_family :: metric_family where
  "messages_family = \<lparr>mf_kind = Counter_Vec, mf_name = ''relay_pubsub_messages_total'',
     mf_help = ''Messages published or delivered'', mf_labels = [''direction'']\<rparr>"

definition latency_family :: metric_family where
  "latency_family = \<lparr>mf_kind = Histogram_Vec, mf_name = ''relay_pubsub_request_duration_seconds'',
     mf_help = ''Gateway request latency'', mf_labels = [''transport'', ''operation'']\<rparr>"

text \<open>
  \<open>Metrics::new\<close>: the library makes each family (\<open>valid\<close>) and registers it, or refuses;
  every refusal is a panic.
\<close>

record 'r metric_lib =
  ml_registry :: 'r
  ml_valid :: "metric_family \<Rightarrow> bool"
  ml_register :: "'r \<Rightarrow> metric_family \<Rightarrow> 'r option"
  ml_encode :: "'r \<Rightarrow> bytes option"
  ml_utf8 :: "bytes \<Rightarrow> bool"

definition expect_some :: "'a option \<Rightarrow> 'a res" where
  "expect_some x = (case x of Some y \<Rightarrow> Ok y | None \<Rightarrow> Panic)"

definition metrics_new :: "'r metric_lib \<Rightarrow> 'r metrics res" where
  "metrics_new lib =
     (if \<not> list_all (ml_valid lib) [requests_family, messages_family, latency_family] then Panic
      else
        res_bind (expect_some (ml_register lib (ml_registry lib) requests_family)) (\<lambda>r1.
        res_bind (expect_some (ml_register lib r1 messages_family)) (\<lambda>r2.
        res_bind (expect_some (ml_register lib r2 latency_family)) (\<lambda>r3.
        Ok \<lparr>mt_registry = r3, mt_requests = requests_family, mt_messages = messages_family,
            mt_latency = latency_family\<rparr>))))"

definition metrics_render :: "'r metric_lib \<Rightarrow> 'r metrics \<Rightarrow> string res" where
  "metrics_render lib m =
     res_bind (expect_some (ml_encode lib (mt_registry m))) (\<lambda>buffer. if ml_utf8 lib buffer then Ok buffer else Panic)"

section \<open>Calls\<close>

text \<open>
  \<open>with_label_values(..).inc()\<close> and \<open>inc_by\<close> on the two counters, and one observation of a
  timer, when it is asked for or when it is dropped.
\<close>

datatype metric_call =
    Inc_Request "string list"
  | Add_Messages "string list" nat
  | Observe "string list"

primrec labels_of :: "metric_call \<Rightarrow> string list" where
  "labels_of (Inc_Request ls) = ls"
| "labels_of (Add_Messages ls k) = ls"
| "labels_of (Observe ls) = ls"

primrec family_of :: "'r metrics \<Rightarrow> metric_call \<Rightarrow> metric_family" where
  "family_of m (Inc_Request ls) = mt_requests m"
| "family_of m (Add_Messages ls k) = mt_messages m"
| "family_of m (Observe ls) = mt_latency m"

text \<open>The library panics on a number of values that is not the family's number of labels.\<close>

definition fits :: "'r metrics \<Rightarrow> metric_call \<Rightarrow> bool" where
  "fits m c = (length (labels_of c) = length (mf_labels (family_of m c)))"

definition record_request :: "string \<Rightarrow> string \<Rightarrow> string \<Rightarrow> metric_call" where
  "record_request transport operation result = Inc_Request [transport, operation, result]"

definition counted :: "string \<Rightarrow> metric_call list \<Rightarrow> nat" where
  "counted direction cs =
     sum_list (map (\<lambda>c. case c of Add_Messages ls k \<Rightarrow> if ls = [direction] then k else 0 | _ \<Rightarrow> 0) cs)"

lemma counted_simps [simp]:
  "counted d [] = 0" "counted d (xs @ ys) = counted d xs + counted d ys"
  "counted d (Inc_Request ls # xs) = counted d xs" "counted d (Observe ls # xs) = counted d xs"
  "counted d (Add_Messages ls k # xs) = (if ls = [d] then k else 0) + counted d xs"
  by (simp_all add: counted_def)

section \<open>The gRPC services\<close>

primrec rpc_operation :: "grpc_request \<Rightarrow> string" where
  "rpc_operation (RpcCreateTopic t) = ''CreateTopic''"
| "rpc_operation (RpcUpdateTopic t upd) = ''UpdateTopic''"
| "rpc_operation (RpcGetTopic n) = ''GetTopic''"
| "rpc_operation (RpcListTopics n k tok) = ''ListTopics''"
| "rpc_operation (RpcListTopicSubscriptions n k tok) = ''ListTopicSubscriptions''"
| "rpc_operation (RpcDeleteTopic n) = ''DeleteTopic''"
| "rpc_operation (RpcPublish n ms) = ''Publish''"
| "rpc_operation (RpcGetIamPolicy n) = ''GetIamPolicy''"
| "rpc_operation (RpcSetIamPolicy n p) = ''SetIamPolicy''"
| "rpc_operation (RpcTestIamPermissions n ps) = ''TestIamPermissions''"
| "rpc_operation (RpcCreateSubscription x) = ''CreateSubscription''"
| "rpc_operation (RpcUpdateSubscription x upd) = ''UpdateSubscription''"
| "rpc_operation (RpcGetSubscription n) = ''GetSubscription''"
| "rpc_operation (RpcListSubscriptions n k tok) = ''ListSubscriptions''"
| "rpc_operation (RpcDeleteSubscription n) = ''DeleteSubscription''"
| "rpc_operation (RpcModifyPushConfig n cfg) = ''ModifyPushConfig''"
| "rpc_operation (RpcPull n k) = ''Pull''"
| "rpc_operation (RpcAcknowledge n ks) = ''Acknowledge''"
| "rpc_operation (RpcModifyAckDeadline n ks d) = ''ModifyAckDeadline''"
| "rpc_operation (RpcSeek n target) = ''Seek''"
| "rpc_operation (RpcCreateSnapshot n sub labels) = ''CreateSnapshot''"
| "rpc_operation (RpcUpdateSnapshot x upd) = ''UpdateSnapshot''"
| "rpc_operation (RpcGetSnapshot n) = ''GetSnapshot''"
| "rpc_operation (RpcListSnapshots n k tok) = ''ListSnapshots''"
| "rpc_operation (RpcDeleteSnapshot n) = ''DeleteSnapshot''"
| "rpc_operation (RpcCreateSchema p x i) = ''CreateSchema''"
| "rpc_operation (RpcGetSchema n) = ''GetSchema''"
| "rpc_operation (RpcListSchemas n k tok) = ''ListSchemas''"
| "rpc_operation (RpcDeleteSchema n) = ''DeleteSchema''"
| "rpc_operation (RpcValidateSchema p x) = ''ValidateSchema''"
| "rpc_operation (RpcValidateMessage p x m) = ''ValidateMessage''"

text \<open>The timer of \<open>create_topic\<close>, and the messages that \<open>publish\<close> and \<open>pull\<close> count.\<close>

definition rpc_latency :: "grpc_request \<Rightarrow> metric_call list" where
  "rpc_latency req =
     (case req of RpcCreateTopic t \<Rightarrow> [Observe [''grpc'', ''CreateTopic'']] | _ \<Rightarrow> [])"

definition rpc_messages :: "grpc_request \<Rightarrow> grpc_response \<Rightarrow> metric_call list" where
  "rpc_messages req resp =
     (case req of
        RpcPublish n ms \<Rightarrow> [Add_Messages [''published''] (length ms)]
      | RpcPull n k \<Rightarrow> (case resp of R_Messages ds \<Rightarrow> [Add_Messages [''delivered''] (length ds)] | _ \<Rightarrow> [])
      | _ \<Rightarrow> [])"

text \<open>A seek that the backend refuses leaves by \<open>map_err(backend_status)?\<close>, before \<open>record\<close>.\<close>

definition records_errors :: "grpc_request \<Rightarrow> bool" where
  "records_errors req = (case req of RpcSeek n target \<Rightarrow> False | _ \<Rightarrow> True)"

text \<open>
  What a call counts: nothing before the caller is authorized; then what is malformed is
  refused uncounted, and the result of the backend's operation is recorded.
\<close>

definition rpc_recorded :: "grpc_request \<Rightarrow> grpc_response rpc \<Rightarrow> metric_call list" where
  "rpc_recorded req result =
     (case result of
        RpcOk resp \<Rightarrow> rpc_messages req resp @ [record_request ''grpc'' (rpc_operation req) ''ok'']
      | RpcErr st \<Rightarrow> if records_errors req then [record_request ''grpc'' (rpc_operation req) ''error''] else []
      | RpcPanic \<Rightarrow> [])"

definition grpc_metrics :: "('key, 's) rpc_ctx \<Rightarrow> grpc_request \<Rightarrow> 's \<Rightarrow> metric_call list" where
  "grpc_metrics c req s =
     (case rpc_resource req of
        None \<Rightarrow> []
      | Some n \<Rightarrow>
          (case fst (grpc_authorize c n) of
             Inl st \<Rightarrow> []
           | Inr _ \<Rightarrow>
               rpc_latency req @
               (case rpc_meaning c req of
                  None \<Rightarrow> []
                | Some op \<Rightarrow> rpc_recorded req (fst (grpc_call c req s)))))"

text \<open>The streaming pull: opening it, and its timer.\<close>

definition stream_open_metrics :: "('key, 's) rpc_ctx \<Rightarrow> metric_call list" where
  "stream_open_metrics c =
     (case fst (stream_open c) of
        Inl st \<Rightarrow> []
      | Inr _ \<Rightarrow> [record_request ''grpc'' ''StreamingPull'' ''ok''])"

definition pull_tick_metrics :: "'s relay_backend \<Rightarrow> env \<Rightarrow> stream \<Rightarrow> 's \<Rightarrow> metric_call list" where
  "pull_tick_metrics bk e st s =
     (case fst (b_pull bk e (sp_subscription st) (sp_batch_size st) s) of
        Ok deliveries \<Rightarrow> if deliveries = [] then [] else [Add_Messages [''delivered''] (length deliveries)]
      | _ \<Rightarrow> [])"

definition stream_metrics :: "'s relay_backend \<Rightarrow> 's stream_event \<Rightarrow> stream \<times> 's \<Rightarrow> metric_call list" where
  "stream_metrics bk ev x =
     (case ev of
        Tick e listening \<Rightarrow> if enabled ev (fst x) then pull_tick_metrics bk e (fst x) (snd x) else []
      | _ \<Rightarrow> [])"

fun stream_run_metrics ::
  "'s relay_backend \<Rightarrow> auth_context option \<Rightarrow> 's stream_event list \<Rightarrow> stream \<times> 's \<Rightarrow> metric_call list" where
  "stream_run_metrics bk auth_ctx [] x = []"
| "stream_run_metrics bk auth_ctx (ev # evs) x =
     stream_metrics bk ev x @
     (case stream_step bk auth_ctx ev x of
        None \<Rightarrow> []
      | Some x' \<Rightarrow> stream_run_metrics bk auth_ctx evs x')"

section \<open>The REST surface\<close>

definition publish_metrics :: "'s relay_backend \<Rightarrow> env \<Rightarrow> rest_lib \<Rightarrow> string \<Rightarrow> json \<Rightarrow> 's \<Rightarrow> metric_call list" where
  "publish_metrics bk e lib path value s =
     (case parse_messages lib value of
        Inl message \<Rightarrow> []
      | Inr messages \<Rightarrow>
          (case fst (b_publish bk e (trim_end_matches '':publish'' path) messages s) of
             Ok ids \<Rightarrow> [Add_Messages [''published''] (length messages)]
           | _ \<Rightarrow> []))"

definition pull_metrics :: "'s relay_backend \<Rightarrow> env \<Rightarrow> string \<Rightarrow> json \<Rightarrow> 's \<Rightarrow> metric_call list" where
  "pull_metrics bk e path value s =
     (case fst (b_pull bk e (trim_end_matches '':pull'' path) (max_messages_of value) s) of
        Ok deliveries \<Rightarrow> [Add_Messages [''delivered''] (length deliveries)]
      | _ \<Rightarrow> [])"

definition route_metrics ::
  "'s relay_backend \<Rightarrow> env \<Rightarrow> rest_lib \<Rightarrow> http_method \<Rightarrow> string \<Rightarrow> json \<Rightarrow> 's \<Rightarrow> metric_call list" where
  "route_metrics bk e lib verb path value s =
     (if verb = POST \<and> ends_with path '':publish'' then publish_metrics bk e lib path value s
      else if verb = POST \<and> ends_with path '':pull'' then pull_metrics bk e path value s
      else [])"

definition dispatch_metrics ::
  "'s relay_backend \<Rightarrow> auth_config option \<Rightarrow> 'key oidc \<Rightarrow> env \<Rightarrow> rest_lib \<Rightarrow> http_in \<Rightarrow> jwks_cache \<Rightarrow> 's \<Rightarrow>
   metric_call list" where
  "dispatch_metrics bk auth x e lib r cache s =
     (case (if hi_body r = [] then Inr (JObject []) else e_json e (hi_body r)) of
        Inl err \<Rightarrow> []
      | Inr value \<Rightarrow>
          (let path = trim_start_matches ''/v1/'' (hi_path r) in
           case fst (authorize auth x (hi_authorization r) (auth_resource_for_path path value) cache) of
             Inl resp \<Rightarrow> []
           | Inr _ \<Rightarrow> route_metrics bk e lib (hi_method r) path value s))
     @ [Observe [''rest'', ''dispatch'']]"

section \<open>The push dispatcher\<close>

text \<open>
  Every post is counted by its answer, an accepted one after the call of acknowledge; the
  one whose acknowledgement panics, the last of its tick, is not.
\<close>

fun push_metrics :: "bool \<Rightarrow> push_event list \<Rightarrow> metric_call list" where
  "push_metrics panicked [] = []"
| "push_metrics panicked (Asked k op # evs) = push_metrics panicked evs"
| "push_metrics panicked (Posted sub endpoint d out # evs) =
     (if accepted_post out
      then (if panicked \<and> length evs = 1 then [] else [Add_Messages [''push_delivered''] 1])
      else [Add_Messages [''push_failed''] 1])
     @ push_metrics panicked evs"

definition tick_metrics :: "'s relay_backend \<Rightarrow> push_lib \<Rightarrow> 's outside \<Rightarrow> 's \<Rightarrow> metric_call list" where
  "tick_metrics bk lib out s =
     (let (r, evs, k, s') = tick bk lib out s in push_metrics (r = Panic) evs)"

section \<open>No call of a counter panics\<close>

text \<open>The library accepts the three families, whose names are distinct.\<close>

definition accepts_families :: "'r metric_lib \<Rightarrow> bool" where
  "accepts_families lib =
     (list_all (ml_valid lib) [requests_family, messages_family, latency_family] \<and>
      Option.bind (ml_register lib (ml_registry lib) requests_family) (\<lambda>r.
      Option.bind (ml_register lib r messages_family) (\<lambda>r. ml_register lib r latency_family)) \<noteq> None)"

lemma metrics_new_cases:
  "accepts_families lib \<Longrightarrow> \<exists>r. metrics_new lib = Ok \<lparr>mt_registry = r, mt_requests = requests_family,
     mt_messages = messages_family, mt_latency = latency_family\<rparr>"
  "\<not> accepts_families lib \<Longrightarrow> metrics_new lib = Panic"
  by (auto simp: metrics_new_def accepts_families_def expect_some_def res_bind_def bind_eq_None_conv split: option.splits)

lemma metrics_new_families:
  assumes "metrics_new lib = Ok m"
  shows "mt_requests m = requests_family" "mt_messages m = messages_family" "mt_latency m = latency_family"
  using assms metrics_new_cases [of lib] by (cases "accepts_families lib"; auto)+

lemma fits_families:
  assumes "metrics_new lib = Ok m"
  shows "fits m (Inc_Request ls) \<longleftrightarrow> length ls = 3" "fits m (Add_Messages ls k) \<longleftrightarrow> length ls = 1"
    "fits m (Observe ls) \<longleftrightarrow> length ls = 2"
  using metrics_new_families [OF assms]
  by (auto simp: fits_def requests_family_def messages_family_def latency_family_def)

lemma push_metrics_shape: "c \<in> set (push_metrics p evs) \<Longrightarrow> \<exists>d. c = Add_Messages [d] 1"
  by (induction p evs rule: push_metrics.induct) (auto split: if_splits)

lemma stream_metrics_shape: "c \<in> set (stream_run_metrics bk a evs x) \<Longrightarrow> \<exists>k. c = Add_Messages [''delivered''] k"
proof (induction evs arbitrary: x)
  case Nil
  then show ?case by simp
next
  case (Cons ev evs)
  then consider "c \<in> set (stream_metrics bk ev x)"
    | x' where "c \<in> set (stream_run_metrics bk a evs x')" by (auto split: option.splits)
  then show ?case
  proof cases
    case 1
    then show ?thesis
      by (auto simp: stream_metrics_def pull_tick_metrics_def split: stream_event.splits res.splits if_splits)
  next
    case 2
    then show ?thesis by (rule Cons.IH)
  qed
qed

lemma publish_metrics_shape: "c \<in> set (publish_metrics bk e lib path v s) \<Longrightarrow> \<exists>d k. c = Add_Messages [d] k"
  unfolding publish_metrics_def by (cases "parse_messages lib v") (auto split: res.splits)

lemma pull_metrics_shape: "c \<in> set (pull_metrics bk e path v s) \<Longrightarrow> \<exists>d k. c = Add_Messages [d] k"
  unfolding pull_metrics_def by (auto split: res.splits)

lemma route_metrics_shape: "c \<in> set (route_metrics bk e lib verb path v s) \<Longrightarrow> \<exists>d k. c = Add_Messages [d] k"
  using publish_metrics_shape pull_metrics_shape by (auto simp: route_metrics_def split: if_splits)

lemma dispatch_metrics_cases:
  "dispatch_metrics bk auth x e lib r cache s = [Observe [''rest'', ''dispatch'']] \<or>
   (\<exists>v. dispatch_metrics bk auth x e lib r cache s =
      route_metrics bk e lib (hi_method r) (trim_start_matches ''/v1/'' (hi_path r)) v s @ [Observe [''rest'', ''dispatch'']])"
proof (cases "if hi_body r = [] then Inr (JObject []) else e_json e (hi_body r)")
  case (Inl err)
  then show ?thesis by (simp only: dispatch_metrics_def sum.case) simp
next
  case (Inr v)
  then show ?thesis
    by (cases "fst (authorize auth x (hi_authorization r)
          (auth_resource_for_path (trim_start_matches ''/v1/'' (hi_path r)) v) cache)")
      (simp_all only: dispatch_metrics_def sum.case Let_def, auto)
qed

text \<open>Every call gives as many label values as its family was registered with.\<close>

lemma metric_calls_fit:
  assumes "metrics_new lib = Ok m"
  shows "list_all (fits m) (grpc_metrics c req s)" "list_all (fits m) (stream_open_metrics c)"
    "list_all (fits m) (stream_run_metrics bk a evs y)"
    "list_all (fits m) (dispatch_metrics bk' auth x e l r cache s')"
    "list_all (fits m) (tick_metrics bk'' pl out s'')"
proof -
  note F = fits_families [OF assms]
  show "list_all (fits m) (grpc_metrics c req s)"
    by (auto simp: grpc_metrics_def rpc_recorded_def rpc_latency_def rpc_messages_def record_request_def
        list_all_iff F split: option.splits sum.splits rpc.splits grpc_request.splits grpc_response.splits if_splits)
  show "list_all (fits m) (stream_open_metrics c)"
    by (auto simp: stream_open_metrics_def record_request_def F split: sum.splits)
  show "list_all (fits m) (stream_run_metrics bk a evs y)"
    using stream_metrics_shape [of _ bk a evs y] by (fastforce simp: list_all_iff F)
  show "list_all (fits m) (dispatch_metrics bk' auth x e l r cache s')"
    using dispatch_metrics_cases [of bk' auth x e l r cache s'] route_metrics_shape [of _ bk' e l "hi_method r"]
    by (fastforce simp: list_all_iff F)
  show "list_all (fits m) (tick_metrics bk'' pl out s'')"
    using push_metrics_shape by (fastforce simp: tick_metrics_def list_all_iff F case_prod_beta)
qed

section \<open>What the counters say\<close>

text \<open>
  A call that is answered is counted once as ok, with the messages of its answer; a refused
  one at most once as an error; none is counted that panics, nor before it is authorized.
\<close>

lemma grpc_metrics_answer:
  "case fst (grpc_call c req s) of
     RpcOk resp \<Rightarrow> grpc_metrics c req s =
       rpc_latency req @ rpc_messages req resp @ [record_request ''grpc'' (rpc_operation req) ''ok'']
   | RpcErr st \<Rightarrow> set (grpc_metrics c req s) \<subseteq>
       set (rpc_latency req) \<union> {record_request ''grpc'' (rpc_operation req) ''error''}
   | RpcPanic \<Rightarrow> set (grpc_metrics c req s) \<subseteq> set (rpc_latency req)"
proof -
  note h = call_handled [of c req s]
  show ?thesis
  proof (cases "fst (grpc_call c req s)")
    case (RpcOk resp)
    obtain n where n: "rpc_resource req = Some n"
      using h RpcOk by (cases "rpc_resource req") (auto simp: handled_def)
    then obtain rest where rest: "grpc_call c req s = authorized c n rest s"
      "performed (gx_backend c) (gx_env c) (rpc_meaning c req) s rest"
      using h by (auto simp: handled_def)
    obtain u cache' where a: "grpc_authorize c n = (Inr u, cache')"
      using rest(1) RpcOk by (cases "grpc_authorize c n"; cases "fst (grpc_authorize c n)") (auto simp: authorized_def)
    then have "fst rest = RpcOk resp" using rest(1) RpcOk by (simp add: authorized_def)
    then obtain op where "rpc_meaning c req = Some op"
      using rest(2) by (cases "rpc_meaning c req") (auto simp: performed_def)
    then show ?thesis using n a RpcOk by (simp add: grpc_metrics_def rpc_recorded_def)
  next
    case (RpcErr st)
    then show ?thesis
      by (auto simp: grpc_metrics_def rpc_recorded_def split: option.splits sum.splits if_splits)
  next
    case RpcPanic
    then show ?thesis by (auto simp: grpc_metrics_def rpc_recorded_def split: option.splits sum.splits)
  qed
qed

text \<open>So the delivered count of a pull is the number of messages in its answer.\<close>

lemma grpc_counts_delivered:
  assumes "fst (grpc_call c (RpcPull n k) s) = RpcOk (R_Messages ds)"
  shows "counted ''delivered'' (grpc_metrics c (RpcPull n k) s) = length ds"
  using grpc_metrics_answer [of c "RpcPull n k" s] assms
  by (simp add: rpc_latency_def rpc_messages_def record_request_def)

text \<open>And over a stream whose client listens, the number of messages sent to it.\<close>

definition sent_messages :: "stream \<Rightarrow> nat" where
  "sent_messages st = sum_list (map (\<lambda>x. case x of Inl _ \<Rightarrow> 0 | Inr ds \<Rightarrow> length ds) (sp_sent st))"

lemma sent_stop [simp]: "sent_messages (stream_stop st) = sent_messages st"
  "sent_messages (stream_fail e st) = sent_messages st"
  by (simp_all add: sent_messages_def stream_stop_def stream_fail_def)

lemma sent_take_frame: "sent_messages (take_frame a f st) = sent_messages st"
  by (auto simp: take_frame_def Let_def split: sum.splits option.splits) (simp_all add: sent_messages_def)

lemma stream_step_counts:
  assumes "stream_step bk a ev (st, s) = Some (st', s')" "\<And>e l. ev = Tick e l \<Longrightarrow> l"
  shows "sent_messages st' = sent_messages st + counted ''delivered'' (stream_metrics bk ev (st, s))"
proof (cases ev)
  case (Incoming f)
  then show ?thesis using assms(1) by (auto simp: stream_step_def stream_metrics_def sent_take_frame split: if_splits)
next
  case (Call e)
  then show ?thesis
    using assms(1)
    by (auto simp: stream_step_def stream_metrics_def make_call_def case_prod_beta Let_def
        split: if_splits list.splits res.splits) (auto simp: sent_messages_def)
next
  case (Tick e l)
  then have l by (rule assms(2))
  then show ?thesis
    using assms(1) Tick
    by (cases "fst (b_pull bk e (sp_subscription st) (sp_batch_size st) s)")
      (auto simp: stream_step_def stream_metrics_def pull_tick_def pull_tick_metrics_def case_prod_beta Let_def
        split: if_splits, auto simp: sent_messages_def)
qed (use assms(1) in \<open>auto simp: stream_step_def stream_metrics_def split: if_splits\<close>)

lemma stream_run_counts:
  assumes "stream_run bk a evs (st, s) = Some (st', s')" "\<And>e l. Tick e l \<in> set evs \<Longrightarrow> l"
  shows "sent_messages st' = sent_messages st + counted ''delivered'' (stream_run_metrics bk a evs (st, s))"
  using assms
proof (induction evs arbitrary: st s)
  case Nil
  then show ?case by simp
next
  case (Cons ev evs)
  from Cons.prems(1) obtain st1 s1 where x: "stream_step bk a ev (st, s) = Some (st1, s1)"
    "stream_run bk a evs (st1, s1) = Some (st', s')"
    by (cases "stream_step bk a ev (st, s)") auto
  have "sent_messages st1 = sent_messages st + counted ''delivered'' (stream_metrics bk ev (st, s))"
    using x(1) Cons.prems(2) by (intro stream_step_counts) auto
  moreover have "sent_messages st' = sent_messages st1 + counted ''delivered'' (stream_run_metrics bk a evs (st1, s1))"
    using Cons.prems(2) by (intro Cons.IH [OF x(2)]) auto
  ultimately show ?case using x(1) by simp
qed

text \<open>The dispatcher counts every post once, unless its task panics.\<close>

lemma push_counts:
  "counted ''push_delivered'' (push_metrics False evs) + counted ''push_failed'' (push_metrics False evs)
   = length (posted evs)"
  by (induction evs rule: posted.induct) auto

end
