(* ===== verification/Server_Run.thy ===== *)
theory Server_Run
  imports Http_Server Grpc_Claims Metrics
begin

text \<open>
  The running server: the state that the listeners, the streaming calls, the push
  dispatcher and the log share, and its steps. A step is what happens between two points
  at which another task may run: an HTTP request, a unary call, one step of one stream, one
  operation of the dispatcher, or a line of the log. The results hold for every order of
  these steps.
\<close>

section \<open>State and events\<close>

record 's running =
  rn_http :: "'s http_state"
  rn_streams :: "nat \<Rightarrow> (auth_context option \<times> stream) option"
  rn_metrics :: "metric_call list"

abbreviation rn_backend :: "'s running \<Rightarrow> 's" where
  "rn_backend r \<equiv> hs_backend (rn_http r)"

definition running_new :: "server \<Rightarrow> 's \<Rightarrow> 's running" where
  "running_new sv s = \<lparr>rn_http = http_state_new sv s, rn_streams = (\<lambda>_. None), rn_metrics = []\<rparr>"

text \<open>
  What may happen next, each with what the outside does in it: the clock and the identifiers,
  the token service, the framework, the metadata of a call. \<open>Pushing\<close> is one operation of the
  dispatcher, whose order is the matter of theory \<open>Push_Dispatch\<close>.
\<close>

datatype ('key, 's) server_event =
    Http "'key oidc" http_lib env http_call
  | Unary "'key oidc" env "int \<Rightarrow> bool" "string option" grpc_request
  | Open_Stream "'key oidc" env "int \<Rightarrow> bool" "string option" nat
  | Stream_Event nat "'s stream_event"
  | Pushing env operation
  | Logged time log_event

datatype server_answer =
    Response "response res"
  | Unary_Answer "grpc_response rpc"
  | Opened "grpc_status + unit"
  | Called "unit res"
  | Silent

definition server_ctx ::
  "'s relay_backend \<Rightarrow> server \<Rightarrow> 'key oidc \<Rightarrow> env \<Rightarrow> (int \<Rightarrow> bool) \<Rightarrow> string option \<Rightarrow> 's http_state \<Rightarrow> ('key, 's) rpc_ctx" where
  "server_ctx bk sv x e in_range header h =
     \<lparr>gx_backend = bk, gx_auth = sv_authenticator sv, gx_oidc = x, gx_header = header, gx_cache = hs_jwks h,
      gx_env = e, gx_in_range = in_range\<rparr>"

text \<open>The call of the backend that a step of a stream makes.\<close>

definition stream_operation :: "stream \<Rightarrow> 's stream_event \<Rightarrow> (env \<times> operation) option" where
  "stream_operation st ev =
     (case ev of
        Call e \<Rightarrow> (case sp_pending st of [] \<Rightarrow> None | r # rs \<Rightarrow> Some (e, Do r))
      | Tick e listening \<Rightarrow> Some (e, Do (Pull (sp_subscription st) (sp_batch_size st)))
      | _ \<Rightarrow> None)"

definition stream_answer :: "'s relay_backend \<Rightarrow> stream \<Rightarrow> 's stream_event \<Rightarrow> 's \<Rightarrow> server_answer" where
  "stream_answer bk st ev s =
     (case stream_operation st ev of
        None \<Rightarrow> Silent
      | Some (e, op) \<Rightarrow> Called (fst (bk_run bk e op s)))"

definition http_metrics ::
  "server \<Rightarrow> 's relay_backend \<Rightarrow> 'key oidc \<Rightarrow> http_lib \<Rightarrow> env \<Rightarrow> http_call \<Rightarrow> 's http_state \<Rightarrow> metric_call list" where
  "http_metrics sv bk x lib e r h =
     (case hl_lookup lib (http_router (sv_actions sv \<noteq> None)) (hi_method r) (hi_path r) of
        Inr Google_Dispatch \<Rightarrow>
          dispatch_metrics bk (sv_authenticator sv) x e (hl_rest lib) (http_in.truncate r) (hs_jwks h) (hs_backend h)
      | _ \<Rightarrow> [])"

definition count :: "metric_call list \<Rightarrow> 's running \<Rightarrow> 's running" where
  "count cs r = r\<lparr>rn_metrics := rn_metrics r @ cs\<rparr>"

section \<open>Steps\<close>

text \<open>An event that the server is not ready for is no step.\<close>

fun server_step ::
  "server \<Rightarrow> 's relay_backend \<Rightarrow> ('key, 's) server_event \<Rightarrow> 's running \<Rightarrow> (server_answer \<times> 's running) option" where
  "server_step sv bk (Http x lib e call) r =
     (let h = rn_http r; (resp, h') = http_serve sv bk x lib e call h
      in Some (Response resp, count (http_metrics sv bk x lib e call h) (r\<lparr>rn_http := h'\<rparr>)))"
| "server_step sv bk (Unary x e in_range header req) r =
     (let h = rn_http r; c = server_ctx bk sv x e in_range header h;
          (resp, cache', s') = grpc_call c req (hs_backend h)
      in Some (Unary_Answer resp,
           count (grpc_metrics c req (hs_backend h)) (r\<lparr>rn_http := h\<lparr>hs_jwks := cache', hs_backend := s'\<rparr>\<rparr>)))"
| "server_step sv bk (Open_Stream x e in_range header i) r =
     (if rn_streams r i \<noteq> None then None
      else
        let h = rn_http r; c = server_ctx bk sv x e in_range header h; (a, cache') = stream_open c;
            r' = count (stream_open_metrics c) (r\<lparr>rn_http := h\<lparr>hs_jwks := cache'\<rparr>\<rparr>)
        in (case a of
              Inl st \<Rightarrow> Some (Opened (Inl st), r')
            | Inr ctx \<Rightarrow> Some (Opened (Inr ()), r'\<lparr>rn_streams := (rn_streams r)(i \<mapsto> (ctx, stream_new))\<rparr>)))"
| "server_step sv bk (Stream_Event i ev) r =
     (case (ev, rn_streams r i) of
        (Elsewhere _, _) \<Rightarrow> None
      | (_, None) \<Rightarrow> None
      | (_, Some (ctx, st)) \<Rightarrow>
          (let h = rn_http r in
           case stream_step bk ctx ev (st, hs_backend h) of
             None \<Rightarrow> None
           | Some (st', s') \<Rightarrow>
               Some (stream_answer bk st ev (hs_backend h),
                 count (stream_metrics bk ev (st, hs_backend h))
                   (r\<lparr>rn_http := h\<lparr>hs_backend := s'\<rparr>, rn_streams := (rn_streams r)(i \<mapsto> (ctx, st'))\<rparr>))))"
| "server_step sv bk (Pushing e op) r =
     (let h = rn_http r; (q, s') = bk_run bk e op (hs_backend h)
      in Some (Called q, r\<lparr>rn_http := h\<lparr>hs_backend := s'\<rparr>\<rparr>))"
| "server_step sv bk (Logged now ev) r =
     (let h = rn_http r in Some (Silent, r\<lparr>rn_http := h\<lparr>hs_logs := on_event now ev (hs_logs h)\<rparr>\<rparr>))"

section \<open>Runs\<close>

definition event_env :: "('key, 's) server_event \<Rightarrow> env option" where
  "event_env ev =
     (case ev of
        Http x lib e call \<Rightarrow> Some e
      | Unary x e in_range header req \<Rightarrow> Some e
      | Stream_Event i (Call e) \<Rightarrow> Some e
      | Stream_Event i (Tick e listening) \<Rightarrow> Some e
      | Pushing e op \<Rightarrow> Some e
      | _ \<Rightarrow> None)"

text \<open>
  Steps in any order; the outside of each is fine for the backend's state, and the backend
  allows every operation there (for the memory store: no subscription or snapshot refers to
  a topic that was deleted).
\<close>

definition open_to :: "(env \<Rightarrow> 's \<Rightarrow> bool) \<Rightarrow> (operation \<Rightarrow> 's \<Rightarrow> bool) \<Rightarrow> ('key, 's) server_event \<Rightarrow> 's \<Rightarrow> bool" where
  "open_to fine allowed ev s =
     (case event_env ev of None \<Rightarrow> True | Some e \<Rightarrow> fine e s \<and> (\<forall>op. allowed op s))"

inductive server_run ::
  "server \<Rightarrow> 's relay_backend \<Rightarrow> (env \<Rightarrow> 's \<Rightarrow> bool) \<Rightarrow> (operation \<Rightarrow> 's \<Rightarrow> bool) \<Rightarrow> 's running \<Rightarrow>
   (('key, 's) server_event \<times> server_answer) list \<Rightarrow> 's running \<Rightarrow> bool" for sv bk fine allowed r0 where
  idle: "server_run sv bk fine allowed r0 [] r0"
| more: "\<lbrakk>server_run sv bk fine allowed r0 evs r; open_to fine allowed ev (rn_backend r);
     server_step sv bk ev r = Some (a, r')\<rbrakk> \<Longrightarrow>
   server_run sv bk fine allowed r0 (evs @ [(ev, a)]) r'"

inductive_cases server_run_snoc: "server_run sv bk fine allowed r0 (evs @ [x]) r"

lemma store_allows_all: "(\<forall>op. store_allows op s) \<longleftrightarrow> (\<forall>n. \<not> dangling s n)"
proof
  assume a: "\<forall>op. store_allows op s"
  show "\<forall>n. \<not> dangling s n"
  proof
    fix n
    have "store_allows (Do (CreateTopic (topic_default\<lparr>t_name := n\<rparr>))) s" using a by blast
    then show "\<not> dangling s n" by (simp add: store_allows_def admissible_def)
  qed
qed (auto simp: store_allows_def admissible_def split: operation.split request.split)

section \<open>What every step keeps\<close>

definition answer_ok :: "server_answer \<Rightarrow> bool" where
  "answer_ok a =
     (case a of
        Response q \<Rightarrow> (\<exists>resp. q = Ok resp \<and> response_ok resp)
      | Unary_Answer q \<Rightarrow> q \<noteq> RpcPanic
      | Called q \<Rightarrow> q \<noteq> Panic
      | _ \<Rightarrow> True)"

text \<open>The operations that a step may have the backend do: none, or one.\<close>

definition one_operation :: "'s relay_backend \<Rightarrow> ('key, 's) server_event \<Rightarrow> 's running \<Rightarrow> 's running \<Rightarrow> bool" where
  "one_operation bk ev r r' =
     (rn_backend r' = rn_backend r \<or>
      (\<exists>e op. event_env ev = Some e \<and> rn_backend r' = snd (bk_run bk e op (rn_backend r))))"

lemma count_sel [simp]:
  "rn_http (count cs r) = rn_http r" "rn_streams (count cs r) = rn_streams r"
  "rn_metrics (count cs r) = rn_metrics r @ cs"
  by (simp_all add: count_def)

lemma stream_step_operation:
  assumes "stream_step bk ctx ev (st, s) = Some (st', s')" "\<nexists>x. ev = Elsewhere x"
  shows "case stream_operation st ev of
      None \<Rightarrow> s' = s
    | Some (e, op) \<Rightarrow> s' = snd (bk_run bk e op s) \<and> event_env (Stream_Event i ev) = Some e"
  using assms
  by (cases ev)
    (auto simp: stream_step_def stream_operation_def event_env_def make_call_def pull_tick_def case_prod_beta
      Let_def forget_def split: if_splits list.splits)

context answering_backend
begin

lemma http_event:
  assumes "ok (rn_backend r)" "fine e (rn_backend r)"
    and "server_step sv bk (Http x lib e call) r = Some (a, r')"
  shows "answer_ok a \<and> one_operation bk (Http x lib e call) r r'"
proof -
  obtain resp h' where h: "http_serve sv bk x lib e call (rn_http r) = (resp, h')" by (metis surj_pair)
  have "effect bk e (rn_http r) (resp, h')" using effect_serve [of bk e "rn_http r" sv x lib call] h by simp
  moreover have "fst (bk_run bk e op (rn_backend r)) \<noteq> Panic" for op by (rule answers [OF assms(1,2)])
  moreover have "a = Response resp" "rn_http r' = h'" using assms(3) h by auto
  ultimately show ?thesis
    unfolding effect_def outcome_reply_def answer_ok_def one_operation_def event_env_def
    by (fastforce split: res.splits)
qed

lemma unary_event:
  assumes "ok (rn_backend r)" "fine e (rn_backend r)"
    and "server_step sv bk (Unary x e in_range header req) r = Some (a, r')"
  shows "answer_ok a \<and> one_operation bk (Unary x e in_range header req) r r'"
proof -
  let ?c = "server_ctx bk sv x e in_range header (rn_http r)"
  have c: "gx_backend ?c = bk" "gx_env ?c = e" by (simp_all add: server_ctx_def)
  obtain resp cache' s' where g: "grpc_call ?c req (rn_backend r) = (resp, cache', s')" by (metis surj_pair)
  have h: "handled ?c (rpc_resource req) (rpc_meaning ?c req) (rn_backend r) (resp, cache', s')"
    using call_handled [of ?c req "rn_backend r"] g by simp
  have np: "fst (bk_run bk e op (rn_backend r)) \<noteq> Panic" for op by (rule answers [OF assms(1,2)])
  have "resp \<noteq> RpcPanic \<and> (s' = rn_backend r \<or> (\<exists>op. s' = snd (bk_run bk e op (rn_backend r))))"
  proof (cases "rpc_resource req")
    case None
    then show ?thesis using h by (auto simp: handled_def)
  next
    case (Some n)
    then obtain rest where rest: "(resp, cache', s') = authorized ?c n rest (rn_backend r)"
      "performed bk e (rpc_meaning ?c req) (rn_backend r) rest"
      using h unfolding handled_def Some option.case c by blast
    have "fst rest \<noteq> RpcPanic \<and> (snd rest = rn_backend r \<or> (\<exists>op. snd rest = snd (bk_run bk e op (rn_backend r))))"
      using rest(2) np by (auto simp: performed_def split: option.splits res.splits)
    then show ?thesis using rest(1) by (auto simp: authorized_cases split: sum.splits)
  qed
  moreover have "a = Unary_Answer resp" "rn_backend r' = s'" using assms(3) g by (auto simp: Let_def)
  ultimately show ?thesis by (auto simp: answer_ok_def one_operation_def event_env_def)
qed

lemma stream_event:
  assumes "ok (rn_backend r)" "\<And>e. event_env (Stream_Event i ev) = Some e \<Longrightarrow> fine e (rn_backend r)"
    and "server_step sv bk (Stream_Event i ev) r = Some (a, r')"
  shows "answer_ok a \<and> one_operation bk (Stream_Event i ev :: ('key, 's) server_event) r r'"
proof -
  obtain ctx st st' s' where st: "rn_streams r i = Some (ctx, st)"
    "stream_step bk ctx ev (st, rn_backend r) = Some (st', s')"
    and a: "a = stream_answer bk st ev (rn_backend r)" "rn_backend r' = s'"
    using assms(3) by (auto simp: Let_def split: stream_event.splits option.splits)
  have ne: "\<nexists>s. ev = Elsewhere s" using assms(3) by auto
  note op = stream_step_operation [OF st(2) ne, of i]
  show ?thesis
  proof (cases "stream_operation st ev")
    case None
    then show ?thesis using op a by (simp add: answer_ok_def one_operation_def stream_answer_def)
  next
    case (Some q)
    obtain e o1 where q: "q = (e, o1)" by (cases q)
    then have "event_env (Stream_Event i ev :: ('key, 's) server_event) = Some e"
      "rn_backend r' = snd (bk_run bk e o1 (rn_backend r))"
      using op Some a(2) by (auto simp: event_env_def split: stream_event.splits)
    moreover from this(1) have "fst (bk_run bk e o1 (rn_backend r)) \<noteq> Panic"
      using answers [OF assms(1)] assms(2) by (simp add: event_env_def split: stream_event.splits)
    ultimately show ?thesis
      using a(1) Some q by (auto simp: answer_ok_def one_operation_def stream_answer_def)
  qed
qed

text \<open>Every step answers, and leaves the backend as it is or as one operation leaves it.\<close>

lemma step_answers:
  assumes "ok (rn_backend r)" "open_to fine allowed ev (rn_backend r)" "server_step sv bk ev r = Some (a, r')"
  shows "answer_ok a \<and> one_operation bk ev r r'"
proof (cases ev)
  case (Http x lib e call)
  then have "fine e (rn_backend r)" using assms(2) by (simp add: open_to_def event_env_def)
  then show ?thesis using assms(3) unfolding Http by (rule http_event [OF assms(1)])
next
  case (Unary x e in_range header req)
  then have "fine e (rn_backend r)" using assms(2) by (simp add: open_to_def event_env_def)
  then show ?thesis using assms(3) unfolding Unary by (rule unary_event [OF assms(1)])
next
  case (Open_Stream x e in_range header i)
  then show ?thesis
    using assms(3) by (auto simp: answer_ok_def one_operation_def Let_def split: if_splits prod.splits sum.splits)
next
  case (Stream_Event i sev)
  have "fine e (rn_backend r)" if "event_env ev = Some e" for e
    using assms(2) that by (simp add: open_to_def)
  then show ?thesis using assms(3) unfolding Stream_Event
    by (intro stream_event [OF assms(1)]) (simp_all add: event_env_def)
next
  case (Pushing e op)
  obtain q s' where q: "bk_run bk e op (rn_backend r) = (q, s')" by (metis surj_pair)
  have "q \<noteq> Panic"
    using answers [of "rn_backend r" e op] assms(1,2) Pushing q by (simp add: open_to_def event_env_def)
  moreover have "a = Called q" "rn_backend r' = snd (bk_run bk e op (rn_backend r))"
    using assms(3) Pushing q by (auto simp: Let_def)
  ultimately show ?thesis using Pushing unfolding answer_ok_def one_operation_def event_env_def by auto
next
  case (Logged now lev)
  then show ?thesis using assms(3) by (auto simp: answer_ok_def one_operation_def Let_def)
qed

lemma step_keeps:
  assumes "ok (rn_backend r)" "open_to fine allowed ev (rn_backend r)" "server_step sv bk ev r = Some (a, r')"
  shows "ok (rn_backend r')"
  using step_answers [OF assms] assms(1,2) keeps by (auto simp: one_operation_def open_to_def)

lemma run_safe:
  assumes "server_run sv bk fine allowed r0 evs r" "ok (rn_backend r0)"
  shows "ok (rn_backend r) \<and> list_all (\<lambda>(ev, a). answer_ok a) evs"
  using assms(1)
proof (induction rule: server_run.induct)
  case idle
  then show ?case using assms(2) by simp
next
  case (more evs r ev a r')
  then show ?case using step_answers [OF _ more(2,3)] step_keeps [OF _ more(2,3)] by simp
qed

end

text \<open>What the counters are asked on the way always fits them.\<close>

lemma run_metrics_fit:
  assumes "server_run sv bk fine allowed r0 evs r" "metrics_new lib = Ok m" "list_all (fits m) (rn_metrics r0)"
  shows "list_all (fits m) (rn_metrics r)"
  using assms(1)
proof (induction rule: server_run.induct)
  case idle
  then show ?case using assms(3) by simp
next
  case (more evs r ev a r')
  have S: "list_all (fits m) (stream_metrics bk sev x)" for sev x
    using metric_calls_fit(3) [OF assms(2), of bk None "[sev]" x] by simp
  have H: "list_all (fits m) (http_metrics sv bk x l e call h)" for x :: "'b oidc" and l e call h
    by (simp add: http_metrics_def metric_calls_fit(4) [OF assms(2)] split: sum.split endpoint.split)
  show ?case
    using more(3,4)
    by (cases ev) (auto simp: Let_def metric_calls_fit(1,2) [OF assms(2)] S H split: if_splits prod.splits sum.splits stream_event.splits option.splits)
qed

end
