(* ===== verification/Run_Claims.thy ===== *)
theory Run_Claims
  imports Server_Claims Server_Run Store_Claims
begin

text \<open>The properties of the running server: every order of its tasks' steps.\<close>

section \<open>Nothing panics\<close>








section \<open>The server refines the lifecycle\<close>





end
