(* ===== verification/Store_Tests.thy ===== *)
theory Store_Tests
  imports Store_Persist Store_Samples
begin

text \<open>
  The unit tests of \<open>src/memory.rs\<close>, translated call by call and evaluated on the model: a
  test is the sequence of its calls, each of which has to succeed where the test unwraps it,
  and of its assertions. Each call has a clock reading and fresh identifiers of its own.
\<close>

section \<open>Tests as programs\<close>

definition unwrap :: "'a res \<times> 's \<Rightarrow> ('a \<times> 's) option" where
  "unwrap r = (case fst r of Ok x \<Rightarrow> Some (x, snd r) | _ \<Rightarrow> None)"

definition unwrap_pure :: "'a res \<Rightarrow> 'a option" where
  "unwrap_pure r = (case r of Ok x \<Rightarrow> Some x | _ \<Rightarrow> None)"

definition assert :: "bool \<Rightarrow> unit option" where
  "assert b = (if b then Some () else None)"

definition is_err :: "'a res \<Rightarrow> bool" where
  "is_err r = (case r of Err _ \<Rightarrow> True | _ \<Rightarrow> False)"

definition passes :: "'a option \<Rightarrow> bool" where
  "passes t = (t \<noteq> None)"

text \<open>\<open>remove(0)\<close> and \<open>[0]\<close> of a vector, which panic when it is empty.\<close>

definition first :: "'a list \<Rightarrow> 'a option" where
  "first xs = (case xs of [] \<Rightarrow> None | x # _ \<Rightarrow> Some x)"

text \<open>A \<open>for\<close> loop whose body takes and returns the state.\<close>

fun for_each :: "'a list \<Rightarrow> ('a \<Rightarrow> 's \<Rightarrow> 's option) \<Rightarrow> 's \<Rightarrow> 's option" where
  "for_each [] body s = Some s"
| "for_each (x # xs) body s = Option.bind (body x s) (for_each xs body)"

text \<open>
  Equations by which the tests are computed: large constants on integers, characters by their
  bits, white space only where a character is not printable.
\<close>

definition printable :: "char \<Rightarrow> bool" where
  "printable c = (case c of Char b0 b1 b2 b3 b4 b5 b6 b7 \<Rightarrow>
     \<not> b7 \<and> (b5 \<or> b6) \<and> (b0 \<or> b1 \<or> b2 \<or> b3 \<or> b4 \<or> b6) \<and> \<not> (b0 \<and> b1 \<and> b2 \<and> b3 \<and> b4 \<and> b5 \<and> b6))"

lemma printable_graphic: "printable c \<Longrightarrow> ascii_graphic c"
  by (cases c) (auto simp: printable_def ascii_graphic_def of_char_def)

lemma trim_start_eval [code]:
  "trim_start s = (case s of [] \<Rightarrow> [] | c # r \<Rightarrow> if printable c then s else strip_any utf8_whitespace s)"
  by (cases s) (simp_all add: trim_start_graphic printable_graphic, simp add: trim_start_def)

lemma trim_end_eval [code]:
  "trim_end s = (case rev s of [] \<Rightarrow> []
     | c # r \<Rightarrow> if printable c then s else rev (strip_any (map rev utf8_whitespace) (c # r)))"
proof (cases "rev s")
  case Nil
  have "strip_any (map rev utf8_whitespace) [] = []" by (rule strip_any_id) (auto simp: neq_Nil_conv)
  with Nil show ?thesis by (simp add: trim_end_def)
next
  case (Cons c r)
  then have "s = rev r @ [c]" by simp
  then show ?thesis using trim_end_graphic [OF printable_graphic, of c "rev r"] Cons
    by (simp add: trim_end_def)
qed

lemma starts_with_eval [code]:
  "starts_with s [] = True" "starts_with [] (d # p) = False"
  "starts_with (c # s) (d # p) = (c = d \<and> starts_with s p)"
  by (simp_all add: starts_with_def)

lemma is_ascii_alphanumeric_eval [code]:
  "is_ascii_alphanumeric c =
     (let n = (of_char c :: int) in
        48 \<le> n \<and> n \<le> 57 \<or> 65 \<le> n \<and> n \<le> 90 \<or> 97 \<le> n \<and> n \<le> 122)"
  unfolding is_ascii_alphanumeric_def Let_def of_nat_of_char [symmetric, where ?'a = int] by simp

lemma create_snapshot_eval [code]:
  "create_snapshot e name subscription labels s =
     (if \<not> starts_with name ''projects/'' \<or> \<not> str_contains name ''/snapshots/'' then
        (Err (InvalidArgument (''invalid snapshot name '' @ name)), s)
      else if hm_contains (st_snapshots s) name then (Err (AlreadyExists name), s)
      else
        (case hm_get (st_subscriptions s) subscription of
           None \<Rightarrow> (Err (NotFound subscription), s)
         | Some sub \<Rightarrow>
             (let spec = \<lparr>sn_name = name, sn_topic = s_topic (ss_spec sub),
                          sn_expire_time = e_now e + 604800000000000,
                          sn_labels = labels, sn_topic_index = ss_next_index sub\<rparr>
              in (persist_locked e spec, s\<lparr>st_snapshots := hm_insert name spec (st_snapshots s)\<rparr>))))"
proof -
  have "seconds (7 * 24 * 60 * 60) = 604800000000000" by (simp add: seconds_def)
  then show ?thesis by (simp only: create_snapshot_def)
qed

lemma parse_digits_eval [code]:
  "parse_digits acc [] = Some acc"
  "parse_digits acc (c # s) =
     (case digit_value c of
        None \<Rightarrow> None
      | Some d \<Rightarrow> if int (10 * acc + d) < 18446744073709551616 then parse_digits (10 * acc + d) s else None)"
proof -
  have "int k < 18446744073709551616 \<longleftrightarrow> k < usize_mod" for k by (simp add: usize_mod_def)
  then show "parse_digits acc (c # s) =
     (case digit_value c of
        None \<Rightarrow> None
      | Some d \<Rightarrow> if int (10 * acc + d) < 18446744073709551616 then parse_digits (10 * acc + d) s else None)"
    by (simp only: parse_digits.simps)
qed simp

lemma paginate_eval [code]:
  "paginate items page_size page_token =
     (let size = page_size_of page_size;
          start = (if page_token = [] then 0
                   else (case parse_usize page_token of Some n \<Rightarrow> n | None \<Rightarrow> 0));
          end = min (nat (int (start + size) mod 18446744073709551616)) (length items);
          slice = (if start \<le> end \<and> end \<le> length items then take (end - start) (drop start items) else []);
          next = (if end < length items then show_nat end else [])
      in \<lparr>pg_items = slice, pg_next_page_token = next\<rparr>)"
proof -
  have "nat (int k mod 18446744073709551616) = k mod usize_mod" for k
    by (simp add: usize_mod_def nat_mod_distrib)
  then show ?thesis by (simp only: paginate_def Let_def)
qed

section \<open>Fixtures\<close>

definition test_env :: "json_parser \<Rightarrow> nat \<Rightarrow> env" where
  "test_env jp k = (sample_env (''id'' @ show_nat k @ ''-'') (int k))\<lparr>e_json := jp\<rparr>"

text \<open>The outside of a test is one of those that the properties of the store assume.\<close>

lemma test_env_order: "env_order_ok (test_env jp k)"
  by (simp add: test_env_def env_order_ok_def sample_env_def)

text \<open>A parser that knows some texts; others are no JSON.\<close>

definition knows :: "(string \<times> json) list \<Rightarrow> json_parser" where
  "knows texts t = (case hm_get texts t of Some v \<Rightarrow> Inr v | None \<Rightarrow> Inl ''expected value'')"

definition test_topic :: "string \<Rightarrow> topic_spec" where
  "test_topic name = topic_default\<lparr>t_name := name\<rparr>"

definition test_subscription :: "string \<Rightarrow> string \<Rightarrow> subscription_spec" where
  "test_subscription name topic = subscription_default\<lparr>s_name := name, s_topic := topic, s_ack_deadline_seconds := 10\<rparr>"

definition test_msg :: "bytes \<Rightarrow> attrs \<Rightarrow> new_message" where
  "test_msg data attributes = new_message_default\<lparr>n_data := data, n_attributes := attributes\<rparr>"

section \<open>The tests\<close>

definition publish_pull_ack :: bool where
  "publish_pull_ack =
     (let e = test_env (knows []); topic_name = ''projects/demo/topics/orders'';
          sub_name = ''projects/demo/subscriptions/orders-worker''
      in passes (do {
        (_, s) \<leftarrow> unwrap (create_topic (e 0) (test_topic topic_name) empty_state);
        (_, s) \<leftarrow> unwrap (create_subscription (e 1) (test_subscription sub_name topic_name) s);
        (_, s) \<leftarrow> unwrap (publish (e 2) topic_name [test_msg ''hello'' []] s);
        (deliveries, s) \<leftarrow> unwrap (pull (e 3) sub_name 10 s);
        assert (length deliveries = 1);
        d \<leftarrow> first deliveries;
        assert (m_data (dv_message d) = ''hello'');
        (_, s) \<leftarrow> unwrap (acknowledge (e 4) sub_name [dv_ack_id d] s);
        (deliveries, s) \<leftarrow> unwrap (pull (e 5) sub_name 10 s);
        assert (deliveries = [])
      }))"

definition nack_redelivers :: bool where
  "nack_redelivers =
     (let e = test_env (knows []); topic_name = ''projects/demo/topics/jobs'';
          sub_name = ''projects/demo/subscriptions/jobs-worker'';
          sub = (test_subscription sub_name topic_name)
            \<lparr>s_retry := Some \<lparr>r_minimum_backoff_seconds = 0, r_maximum_backoff_seconds = 0\<rparr>\<rparr>
      in passes (do {
        (_, s) \<leftarrow> unwrap (create_topic (e 0) (test_topic topic_name) empty_state);
        (_, s) \<leftarrow> unwrap (create_subscription (e 1) sub s);
        (_, s) \<leftarrow> unwrap (publish (e 2) topic_name [test_msg ''job'' []] s);
        (ds, s) \<leftarrow> unwrap (pull (e 3) sub_name 1 s);
        d1 \<leftarrow> first ds;
        (_, s) \<leftarrow> unwrap (modify_ack_deadline (e 4) sub_name [dv_ack_id d1] 0 s);
        (ds, s) \<leftarrow> unwrap (pull (e 5) sub_name 1 s);
        d2 \<leftarrow> first ds;
        assert (dv_delivery_attempt d2 = 2)
      }))"

definition ordering_key_blocks_until_ack :: bool where
  "ordering_key_blocks_until_ack =
     (let e = test_env (knows []); topic_name = ''projects/demo/topics/ordered'';
          sub_name = ''projects/demo/subscriptions/ordered-worker'';
          sub = (test_subscription sub_name topic_name)\<lparr>s_enable_message_ordering := True\<rparr>
      in passes (do {
        (_, s) \<leftarrow> unwrap (create_topic (e 0) (test_topic topic_name) empty_state);
        (_, s) \<leftarrow> unwrap (create_subscription (e 1) sub s);
        (_, s) \<leftarrow> unwrap (publish (e 2) topic_name
          [(test_msg ''1'' [])\<lparr>n_ordering_key := ''k''\<rparr>, (test_msg ''2'' [])\<lparr>n_ordering_key := ''k''\<rparr>] s);
        (ds, s) \<leftarrow> unwrap (pull (e 3) sub_name 10 s);
        assert (length ds = 1);
        d1 \<leftarrow> first ds;
        assert (m_data (dv_message d1) = ''1'');
        (_, s) \<leftarrow> unwrap (acknowledge (e 4) sub_name [dv_ack_id d1] s);
        (ds, s) \<leftarrow> unwrap (pull (e 5) sub_name 10 s);
        assert (length ds = 1);
        d2 \<leftarrow> first ds;
        assert (m_data (dv_message d2) = ''2'')
      }))"

definition snapshot_seek_restores_cursor :: bool where
  "snapshot_seek_restores_cursor =
     (let e = test_env (knows []); topic_name = ''projects/demo/topics/snap-topic'';
          sub_name = ''projects/demo/subscriptions/snap-sub''; snap_name = ''projects/demo/snapshots/snap1''
      in passes (do {
        (_, s) \<leftarrow> unwrap (create_topic (e 0) (test_topic topic_name) empty_state);
        (_, s) \<leftarrow> unwrap (create_subscription (e 1) (test_subscription sub_name topic_name) s);
        (_, s) \<leftarrow> unwrap (publish (e 2) topic_name [test_msg ''a'' []] s);
        (ds, s) \<leftarrow> unwrap (pull (e 3) sub_name 1 s);
        d \<leftarrow> first ds;
        (_, s) \<leftarrow> unwrap (acknowledge (e 4) sub_name [dv_ack_id d] s);
        (_, s) \<leftarrow> unwrap (create_snapshot (e 5) snap_name sub_name [] s);
        (_, s) \<leftarrow> unwrap (publish (e 6) topic_name [test_msg ''b'' []] s);
        (_, s) \<leftarrow> unwrap (pull (e 7) sub_name 1 s);
        (_, s) \<leftarrow> unwrap (seek_to_snapshot (e 8) sub_name snap_name s);
        (again, s) \<leftarrow> unwrap (pull (e 9) sub_name 10 s);
        assert (length again = 1);
        d \<leftarrow> first again;
        assert (m_data (dv_message d) = ''b'')
      }))"

definition pagination_works :: bool where
  "pagination_works =
     passes (do {
       s \<leftarrow> for_each [0, 1, 2, 3, 4] (\<lambda>i s. map_option snd
         (unwrap (create_topic (test_env (knows []) i) (test_topic (''projects/demo/topics/t'' @ show_nat i)) s))) empty_state;
       page1 \<leftarrow> unwrap_pure (list_topics s ''projects/demo'' 2 []);
       assert (length (pg_items page1) = 2);
       assert (pg_next_page_token page1 \<noteq> []);
       page2 \<leftarrow> unwrap_pure (list_topics s ''projects/demo'' 2 (pg_next_page_token page1));
       assert (length (pg_items page2) = 2)
     })"

text \<open>
  The store with a file is opened, written and opened again, with any library that reads
  what it printed.
\<close>

definition persistence_round_trip :: "persist_lib \<Rightarrow> bool" where
  "persistence_round_trip lib =
     (let topic_name = ''projects/demo/topics/persist''
      in passes (do {
        s \<leftarrow> unwrap_pure (with_persistence lib None (map_option Inr (dk_main new_disk)));
        (_, s) \<leftarrow> unwrap (create_topic (test_env (knows []) 0) (test_topic topic_name) s);
        s \<leftarrow> unwrap_pure (with_persistence lib None
               (map_option Inr (dk_main (snd (persist_files lib Written s new_disk)))));
        t \<leftarrow> unwrap_pure (get_topic s topic_name);
        assert (t_name t = topic_name)
      }))"

lemma persistence_round_trip_passes:
  assumes "\<And>v. fl_parse lib (fl_print lib v) = Inr v"
  shows "persistence_round_trip lib"
proof -
  let ?name = "''projects/demo/topics/persist''"
  define s where "s = snd (create_topic (test_env (knows []) 0) (test_topic ?name) empty_state)"
  have topics: "s = empty_state\<lparr>st_topics := [(?name, \<lparr>ts_spec = test_topic ?name, ts_messages = [], ts_seen_ids = []\<rparr>)]\<rparr>"
    unfolding s_def by code_simp
  have created: "unwrap (create_topic (test_env (knows []) 0) (test_topic ?name) empty_state) = Some (test_topic ?name, s)"
    unfolding topics by code_simp
  have "state_de lib (state_ser lib s) = Some s"
    by (rule state_back) (simp add: topics storable_def topic_storable_def empty_state_def)
  then have opened: "with_persistence lib None (Some (Inr (state_text lib s))) = Ok s"
    by (simp add: with_persistence_def state_text_def assms)
  have found: "get_topic s ?name = Ok (test_topic ?name)"
    unfolding topics by code_simp
  have start: "with_persistence lib None None = Ok empty_state"
    by (simp add: with_persistence_def)
  show ?thesis
    by (simp add: persistence_round_trip_def passes_def Let_def unwrap_pure_def assert_def new_disk_def
        persist_files_def start created opened found)
      (simp add: test_topic_def)
qed

text \<open>Five deliveries, each returned at once, as the loops of the next test make them.\<close>

definition pull_and_return :: "string \<Rightarrow> nat \<Rightarrow> state \<Rightarrow> state option" where
  "pull_and_return sub_name k s =
     do {
       (ds, s) \<leftarrow> unwrap (pull (test_env (knows []) k) sub_name 1 s);
       d \<leftarrow> first ds;
       (_, s) \<leftarrow> unwrap (modify_ack_deadline (test_env (knows []) (Suc k)) sub_name [dv_ack_id d] 0 s);
       Some s
     }"

definition dead_letter_after_max_attempts :: bool where
  "dead_letter_after_max_attempts =
     (let e = test_env (knows []); source = ''projects/demo/topics/source''; dlq = ''projects/demo/topics/dlq'';
          sub_name = ''projects/demo/subscriptions/source-worker'';
          dlq_sub = ''projects/demo/subscriptions/dlq-reader'';
          sub = (test_subscription sub_name source)
            \<lparr>s_dead_letter := Some \<lparr>d_topic = dlq, d_max_delivery_attempts = 5\<rparr>,
             s_retry := Some \<lparr>r_minimum_backoff_seconds = 0, r_maximum_backoff_seconds = 0\<rparr>\<rparr>
      in passes (do {
        (_, s) \<leftarrow> unwrap (create_topic (e 0) (test_topic source) empty_state);
        (_, s) \<leftarrow> unwrap (create_topic (e 1) (test_topic dlq) s);
        (_, s) \<leftarrow> unwrap (create_subscription (e 2) sub s);
        (_, s) \<leftarrow> unwrap (publish (e 3) source [test_msg ''poison'' []] s);
        s \<leftarrow> for_each [4, 6, 8, 10, 12] (pull_and_return sub_name) s;
        (ds, s) \<leftarrow> unwrap (pull (e 14) sub_name 1 s);
        assert (ds = []);
        (_, s) \<leftarrow> unwrap (create_subscription (e 15) (test_subscription dlq_sub dlq) s);
        (_, s) \<leftarrow> unwrap (publish (e 16) source [test_msg ''poison2'' []] s);
        s \<leftarrow> for_each [17, 19, 21, 23, 25] (pull_and_return sub_name) s;
        (_, s) \<leftarrow> unwrap (pull (e 27) sub_name 1 s);
        (ds, s) \<leftarrow> unwrap (pull (e 28) dlq_sub 10 s);
        assert (length ds = 1)
      }))"

definition subscription_filter_auto_acks_non_matching :: bool where
  "subscription_filter_auto_acks_non_matching =
     (let e = test_env (knows []); topic_name = ''projects/demo/topics/telemetry'';
          sub_name = ''projects/demo/subscriptions/pune-only'';
          sub = (test_subscription sub_name topic_name)\<lparr>s_filter := ''attributes.site = \"pune\"''\<rparr>
      in passes (do {
        (_, s) \<leftarrow> unwrap (create_topic (e 0) (test_topic topic_name) empty_state);
        (_, s) \<leftarrow> unwrap (create_subscription (e 1) sub s);
        (_, s) \<leftarrow> unwrap (publish (e 2) topic_name
          [test_msg ''a'' [(''site'', ''mumbai'')], test_msg ''b'' [(''site'', ''pune'')],
           test_msg ''c'' [(''site'', ''delhi'')]] s);
        (pulled, s) \<leftarrow> unwrap (pull (e 3) sub_name 10 s);
        assert (length pulled = 1);
        d \<leftarrow> first pulled;
        assert (m_data (dv_message d) = ''b'');
        (pulled, s) \<leftarrow> unwrap (pull (e 4) sub_name 10 s);
        assert (pulled = [])
      }))"

definition rejects_invalid_filter :: bool where
  "rejects_invalid_filter =
     (let e = test_env (knows []); topic_name = ''projects/demo/topics/t'';
          sub = (test_subscription ''projects/demo/subscriptions/bad'' topic_name)\<lparr>s_filter := ''this is not a filter''\<rparr>
      in passes (do {
        (_, s) \<leftarrow> unwrap (create_topic (e 0) (test_topic topic_name) empty_state);
        assert (is_err (fst (create_subscription (e 1) sub s)))
      }))"

definition typed_texts :: "(string \<times> json) list" where
  "typed_texts =
     [(''{\"type\":\"object\",\"required\":[\"site\"]}'',
         JObject [(''required'', JArray [JString ''site'']), (''type'', JString ''object'')]),
      (''{\"zone\":\"n\"}'', JObject [(''zone'', JString ''n'')]),
      (''{\"site\":\"pune\"}'', JObject [(''site'', JString ''pune'')])]"

definition schema_bound_topic_rejects_invalid_json :: bool where
  "schema_bound_topic_rejects_invalid_json =
     (let e = test_env (knows typed_texts); topic_name = ''projects/demo/topics/typed'';
          schema_name = ''projects/demo/schemas/evt''
      in passes (do {
        (_, s) \<leftarrow> unwrap (create_schema (e 0) \<lparr>sc_name = schema_name, sc_schema_type = ''UNSPECIFIED'',
          sc_definition = ''{\"type\":\"object\",\"required\":[\"site\"]}''\<rparr> empty_state);
        (_, s) \<leftarrow> unwrap (create_topic (e 1)
          ((test_topic topic_name)\<lparr>t_schema_name := schema_name, t_schema_encoding := ''JSON''\<rparr>) s);
        assert (is_err (fst (publish (e 2) topic_name [test_msg ''{\"zone\":\"n\"}'' []] s)));
        (ids, s) \<leftarrow> unwrap (publish (e 3) topic_name [test_msg ''{\"site\":\"pune\"}'' []]
          (snd (publish (e 2) topic_name [test_msg ''{\"zone\":\"n\"}'' []] s)));
        assert (length ids = 1)
      }))"

definition publish_dedups_by_message_id :: bool where
  "publish_dedups_by_message_id =
     (let e = test_env (knows []); topic_name = ''projects/demo/topics/dedup'';
          sub_name = ''projects/demo/subscriptions/dedup-sub''
      in passes (do {
        (_, s) \<leftarrow> unwrap (create_topic (e 0) (test_topic topic_name) empty_state);
        (_, s) \<leftarrow> unwrap (create_subscription (e 1) (test_subscription sub_name topic_name) s);
        (ids1, s) \<leftarrow> unwrap (publish (e 2) topic_name [(test_msg ''one'' [])\<lparr>n_message_id := ''edge-1''\<rparr>] s);
        (ids2, s) \<leftarrow> unwrap (publish (e 3) topic_name [(test_msg ''two'' [])\<lparr>n_message_id := ''edge-1''\<rparr>] s);
        assert (ids1 = ids2);
        (ds, s) \<leftarrow> unwrap (pull (e 4) sub_name 10 s);
        assert (length ds = 1)
      }))"

definition cloud_text :: string where
  "cloud_text = ''{\"specversion\":\"1.0\",\"id\":\"1\",\"source\":\"farm\",\"type\":\"irrigation.required\"}''"

definition cloud_value :: json where
  "cloud_value = JObject [(''id'', JString ''1''), (''source'', JString ''farm''), (''specversion'', JString ''1.0''),
     (''type'', JString ''irrigation.required'')]"

definition cloudevent_attributes_are_filterable :: bool where
  "cloudevent_attributes_are_filterable =
     (let e = test_env (knows [(cloud_text, cloud_value)]); topic_name = ''projects/demo/topics/irrigation.required'';
          sub_name = ''projects/demo/subscriptions/irrigation-acts'';
          sub = (test_subscription sub_name topic_name)\<lparr>s_filter := ''attributes.ce-type = \"irrigation.required\"''\<rparr>
      in passes (do {
        (_, s) \<leftarrow> unwrap (create_topic (e 0) (test_topic topic_name) empty_state);
        (_, s) \<leftarrow> unwrap (create_subscription (e 1) sub s);
        (_, s) \<leftarrow> unwrap (publish (e 2) topic_name
          [test_msg cloud_text [(''content-type'', ''application/cloudevents+json'')]] s);
        (pulled, s) \<leftarrow> unwrap (pull (e 3) sub_name 10 s);
        assert (length pulled = 1);
        d \<leftarrow> first pulled;
        assert (hm_get (m_attributes (dv_message d)) ''relay.topic'' = Some ''irrigation.required'')
      }))"

text \<open>They pass; the evaluation shares what it prepares, so that they are evaluated together.\<close>

lemma queue_tests_pass:
  "publish_pull_ack \<and>
   nack_redelivers \<and>
   ordering_key_blocks_until_ack \<and>
   snapshot_seek_restores_cursor \<and>
   publish_dedups_by_message_id"
  by code_simp

lemma admin_tests_pass:
  "pagination_works \<and>
   rejects_invalid_filter \<and>
   schema_bound_topic_rejects_invalid_json"
  by code_simp

lemma dead_letter_after_max_attempts_passes: dead_letter_after_max_attempts
  by code_simp

lemma subscription_filter_auto_acks_non_matching_passes: subscription_filter_auto_acks_non_matching
  by code_simp

lemma cloudevent_attributes_are_filterable_passes: cloudevent_attributes_are_filterable
  by code_simp

end
