(* ===== verification/Component_Tests.thy ===== *)
theory Component_Tests
  imports Store_Tests Startup Log_Buffer
begin

text \<open>
  The unit tests of the other files, translated and evaluated as those of the store are: the
  filter language, the enrichment, the schemas, the log buffer, the action gateway, the
  relay-events backend and the gRPC stub. The mock servers and the deserialised bodies of a
  test are arguments that answer as the test says.
\<close>

section \<open>Filters\<close>

definition empty_matches_all :: bool where
  "empty_matches_all = passes (do {
     f \<leftarrow> unwrap_pure (parse_filter []);
     assert (filter_matches f [(''site'', ''pune'')])
   })"

definition has_key_and_eq :: bool where
  "has_key_and_eq = passes (do {
     f \<leftarrow> unwrap_pure (parse_filter ''attributes:site AND attributes.zone = \"north\"'');
     assert (filter_matches f [(''site'', ''x''), (''zone'', ''north'')]);
     assert (\<not> filter_matches f [(''zone'', ''north'')]);
     assert (\<not> filter_matches f [(''site'', ''x''), (''zone'', ''south'')])
   })"

definition prefix_or_not :: bool where
  "prefix_or_not = passes (do {
     f \<leftarrow> unwrap_pure (parse_filter ''hasPrefix(attributes.device, \"pump-\") OR NOT attributes:device'');
     assert (filter_matches f [(''device'', ''pump-1'')]);
     assert (filter_matches f []);
     assert (\<not> filter_matches f [(''device'', ''valve-1'')])
   })"

definition rejects_junk :: bool where
  "rejects_junk = is_err (parse_filter ''payload.foo = 1'')"

lemma filter_tests_pass:
  "empty_matches_all \<and>
   has_key_and_eq \<and>
   prefix_or_not \<and>
   rejects_junk"
  by code_simp

section \<open>Enrichment and schemas\<close>

definition farm_event :: string where
  "farm_event = ''{\"specversion\":\"1.0\",\"id\":\"1\",\"source\":\"farm/pune\",\"type\":\"irrigation.required\"}''"

definition farm_value :: json where
  "farm_value = JObject [(''id'', JString ''1''), (''source'', JString ''farm/pune''),
     (''specversion'', JString ''1.0''), (''type'', JString ''irrigation.required'')]"

definition projects_cloud_event_context :: bool where
  "projects_cloud_event_context =
     (let msg = enrich_message (knows [(farm_event, farm_value)]) ''projects/demo/topics/irrigation.required''
            (test_msg farm_event [(''content-type'', ''application/cloudevents+json'')])
      in hm_get (n_attributes msg) ''ce-type'' = Some ''irrigation.required'' \<and>
         hm_get (n_attributes msg) ''relay.topic'' = Some ''irrigation.required'')"

definition test_schema :: "string \<Rightarrow> string \<Rightarrow> schema_spec" where
  "test_schema kind def =
     \<lparr>sc_name = ''projects/demo/schemas/event'', sc_schema_type = kind, sc_definition = def\<rparr>"

definition schema_texts :: "(string \<times> json) list" where
  "schema_texts =
     [(''{\"type\":\"object\",\"required\":[\"site\",\"zone\"]}'',
         JObject [(''required'', JArray [JString ''site'', JString ''zone'']), (''type'', JString ''object'')]),
      (''{\"site\":\"pune\",\"zone\":\"north\"}'', JObject [(''site'', JString ''pune''), (''zone'', JString ''north'')]),
      (''{\"site\":\"pune\"}'', JObject [(''site'', JString ''pune'')]),
      (''{\"type\":\"record\",\"name\":\"Evt\"}'', JObject [(''name'', JString ''Evt''), (''type'', JString ''record'')]),
      (''{\"name\":\"Evt\"}'', JObject [(''name'', JString ''Evt'')])]"

definition json_required_fields :: bool where
  "json_required_fields =
     (let s = test_schema ''UNSPECIFIED'' ''{\"type\":\"object\",\"required\":[\"site\",\"zone\"]}'';
          check = validate_payload (knows schema_texts) s ''JSON''
      in passes (do {
        _ \<leftarrow> unwrap_pure (check ''{\"site\":\"pune\",\"zone\":\"north\"}'');
        assert (is_err (check ''{\"site\":\"pune\"}''));
        assert (is_err (check ''not-json''))
      }))"

definition avro_definition_must_have_type :: bool where
  "avro_definition_must_have_type = passes (do {
     _ \<leftarrow> unwrap_pure (validate_definition (knows schema_texts)
       (test_schema ''AVRO'' ''{\"type\":\"record\",\"name\":\"Evt\"}''));
     assert (is_err (validate_definition (knows schema_texts) (test_schema ''AVRO'' ''{\"name\":\"Evt\"}'')))
   })"

lemma schema_tests_pass:
  "projects_cloud_event_context \<and>
   json_required_fields \<and>
   avro_definition_must_have_type"
  by code_simp

section \<open>The log buffer\<close>

definition since_pages_forward_without_gaps :: bool where
  "since_pages_forward_without_gaps =
     (let buf = fold (\<lambda>i. log_push (int i) INFO ''t'' (''m'' @ show_nat i)) [0..<10] (log_new 1000);
          page = log_since 0 3 buf;
          later = log_since (le_id (last page)) 3 buf
      in map le_id page = [1, 2, 3] \<and> map le_id later = [4, 5, 6])"

lemma since_pages_forward_without_gaps_passes: since_pages_forward_without_gaps
  by code_simp

section \<open>The action gateway\<close>

definition test_actions :: string where
  "test_actions = ''projects/fasal-onprem/topics/farm-actions''"

definition test_actions_sub :: string where
  "test_actions_sub = ''projects/fasal-onprem/subscriptions/farm-actions-sub''"

text \<open>The bodies that the tests send, as their deserialisation gives them.\<close>

definition test_gateway_lib :: gateway_lib where
  "test_gateway_lib =
     \<lparr>gl_from_slice = (\<lambda>body.
        if body = ''{\"command\":\"pump.start\"}'' then Inr (action_in_default\<lparr>ai_command := ''pump.start''\<rparr>)
        else if body = ''{\"action_id\":\"act_1\",\"event_id\":\"evt_1\",\"command\":\"irrigation.start\",\"payload\":{\"zone\":\"A4\"}}''
        then Inr \<lparr>ai_action_id = ''act_1'', ai_event_id = ''evt_1'', ai_command = ''irrigation.start'',
          ai_payload = JObject [(''zone'', JString ''A4'')]\<rparr>
        else if body = ''{}'' then Inr action_in_default
        else Inl ''expected value''),
      gl_print = (\<lambda>_. ''{}''), gl_rfc3339 = (\<lambda>_. ''1970-01-01T00:00:00+00:00''), gl_header_ok = (\<lambda>_. True)\<rparr>"

definition post_action ::
  "nat \<Rightarrow> string option \<Rightarrow> bytes \<Rightarrow> action_gateway \<times> state \<Rightarrow> (reply \<times> action_gateway \<times> state) option" where
  "post_action k header body x =
     unwrap (handle_action test_gateway_lib (publish (test_env (knows []) k)) (int k) header body (fst x) (snd x))"

definition make_router :: "(action_gateway \<times> state) option" where
  "make_router = do {
     (_, s) \<leftarrow> unwrap (create_topic (test_env (knows []) 0) (test_topic test_actions) empty_state);
     (_, s) \<leftarrow> unwrap (create_subscription (test_env (knows []) 1)
       ((test_subscription test_actions_sub test_actions)\<lparr>s_ack_deadline_seconds := 30\<rparr>) s);
     Some (gateway_new test_actions, s)
   }"

definition retry_does_not_enqueue_duplicate :: bool where
  "retry_does_not_enqueue_duplicate = passes (do {
     app \<leftarrow> make_router;
     (_, s) \<leftarrow> for_each [2, 3, 4] (\<lambda>k app. do {
       (resp, app) \<leftarrow> post_action k (Some ''k'') ''{\"command\":\"pump.start\"}'' app;
       assert (rp_status resp = 200);
       Some app
     }) app;
     (pulled, _) \<leftarrow> unwrap (pull (test_env (knows []) 5) test_actions_sub 10 s);
     assert (length pulled = 1)
   })"

definition missing_idempotency_key_is_rejected :: bool where
  "missing_idempotency_key_is_rejected = passes (do {
     app \<leftarrow> make_router;
     (resp, _) \<leftarrow> post_action 2 None ''{}'' app;
     assert (rp_status resp = 400)
   })"

definition idempotent_retry_returns_same_result :: bool where
  "idempotent_retry_returns_same_result =
     (let body = ''{\"action_id\":\"act_1\",\"event_id\":\"evt_1\",\"command\":\"irrigation.start\",\"payload\":{\"zone\":\"A4\"}}''
      in passes (do {
        app \<leftarrow> make_router;
        (resp1, app) \<leftarrow> post_action 2 (Some ''key-1'') body app;
        assert (rp_status resp1 = 200);
        id1 \<leftarrow> rp_action_id resp1;
        (resp2, app) \<leftarrow> post_action 3 (Some ''key-1'') body app;
        assert (rp_replay resp2);
        assert (rp_action_id resp2 = Some id1)
      }))"

lemma gateway_tests_pass:
  "retry_does_not_enqueue_duplicate \<and>
   missing_idempotency_key_is_rejected \<and>
   idempotent_retry_returns_same_result"
  by code_simp

section \<open>The relay-events backend\<close>

text \<open>A byte in hexadecimal, computed on integers.\<close>

lemma hex_byte_eval [code]:
  "hex_byte c =
     (let n = (of_char c :: int); hex = (\<lambda>d. char_of (if d < 10 then 48 + d else 87 + d))
      in [hex (n div 16), hex (n mod 16)])"
proof -
  have hex: "hex_digit d = char_of (if int d < 10 then 48 + int d else 87 + int d)" for d
    using char_of_nat [of "48 + d", where ?'a = int] char_of_nat [of "87 + d", where ?'a = int]
    by (simp add: hex_digit_def)
  have "int (of_char c div 16) = of_char c div 16" "int (of_char c mod 16) = of_char c mod 16"
    by (simp_all add: zdiv_int zmod_int of_nat_of_char)
  then show ?thesis by (simp add: hex_byte_def hex Let_def)
qed

text \<open>A mock server that answers the requests it has a matcher for, and no other.\<close>

definition mock_server :: "(relay_event \<Rightarrow> bool) \<Rightarrow> relay_lib" where
  "mock_server matches =
     \<lparr>re_sha = (\<lambda>_. replicate 32 (CHR 0x2A)), re_base64 = (\<lambda>_. []),
      re_post = (\<lambda>e k rq. if rq_url rq = ''http://mock/v1/events'' \<and> matches (rq_event rq)
        then Response 200 ''200 OK'' ''{\"ok\":true}'' else Response 404 ''404 Not Found'' [])\<rparr>"

definition relay_texts :: "(string \<times> json) list" where
  "relay_texts =
     [(''{\"field\":\"A\"}'', JObject [(''field'', JString ''A'')]), (''{\"ok\":true}'', JObject [(''ok'', JBool True)]),
      (''{\"x\":1}'', JObject [(''x'', JNumber (PosInt 1))]), (''{}'', JObject [])]"

definition relay_env :: "nat \<Rightarrow> env" where
  "relay_env = test_env (knows relay_texts)"

lemma relay_operations:
  "b_create_topic (relay_events_backend cfg lib) = (\<lambda>e t. delegate (create_topic e t))"
  "b_create_subscription (relay_events_backend cfg lib) = (\<lambda>e x. delegate (create_subscription e x))"
  "b_publish (relay_events_backend cfg lib) = forward_publish cfg lib"
  "b_pull (relay_events_backend cfg lib) = (\<lambda>e n k. delegate (pull e n k))"
  by (simp_all add: relay_events_backend_def)

definition publish_to_catalog_topic_forwards_to_relay :: bool where
  "publish_to_catalog_topic_forwards_to_relay =
     (let server = mock_server (\<lambda>ev. ev_type ev = ''irrigation.required'')
      in passes (do {
        (cfg, x) \<leftarrow> unwrap_pure (relay_events_new None ''http://mock'' (Some ''tok'') test_actions);
        let backend = relay_events_backend cfg server;
        let topic = ''projects/fasal-onprem/topics/'' @ hd fasal_catalog;
        (_, x) \<leftarrow> unwrap (b_create_topic backend (relay_env 0) (test_topic topic) x);
        (ids, x) \<leftarrow> unwrap (b_publish backend (relay_env 1) topic
          [test_msg ''{\"field\":\"A\"}'' [(''source'', ''fasal''), (''severity'', ''critical'')]] x);
        assert (length ids = 1)
      }))"

lemma publish_to_catalog_topic_forwards_to_relay_passes: publish_to_catalog_topic_forwards_to_relay
  unfolding publish_to_catalog_topic_forwards_to_relay_def Let_def relay_operations by code_simp

definition forward_test_event :: "relay_config \<Rightarrow> string \<Rightarrow> relay_state \<Rightarrow> relay_state option" where
  "forward_test_event cfg name x =
     (let backend = relay_events_backend cfg (mock_server (\<lambda>_. True));
          topic = ''projects/fasal-onprem/topics/'' @ name;
          x = snd (b_create_topic backend (relay_env 0) (test_topic topic) x)
      in map_option snd (unwrap (b_publish backend (relay_env 1) topic
           [test_msg ''{\"ok\":true}'' [(''source'', ''test'')]] x)))"

definition publish_all_catalog_event_types :: bool where
  "publish_all_catalog_event_types =
     passes (do {
       (cfg, x) \<leftarrow> unwrap_pure (relay_events_new None ''http://mock'' None test_actions);
       for_each fasal_catalog (forward_test_event cfg) x
     })"

lemma forward_test_event_code [code]:
  "forward_test_event cfg name x =
     (let topic = ''projects/fasal-onprem/topics/'' @ name
      in map_option snd (unwrap (forward_publish cfg (mock_server (\<lambda>_. True)) (relay_env 1) topic
           [test_msg ''{\"ok\":true}'' [(''source'', ''test'')]]
           (snd (delegate (create_topic (relay_env 0) (test_topic topic)) x)))))"
  by (simp add: forward_test_event_def Let_def relay_operations)

lemma publish_all_catalog_event_types_passes: publish_all_catalog_event_types
  by code_simp

text \<open>No request has an answer here, so that the publish cannot have left.\<close>

definition publish_to_actions_topic_stays_local :: bool where
  "publish_to_actions_topic_stays_local =
     passes (do {
       (cfg, x) \<leftarrow> unwrap_pure (relay_events_new None ''http://mock'' None test_actions);
       let backend = relay_events_backend cfg (mock_server (\<lambda>_. False));
       (_, x) \<leftarrow> unwrap (b_create_topic backend (relay_env 0) (test_topic test_actions) x);
       (_, x) \<leftarrow> unwrap (b_create_subscription backend (relay_env 1)
         ((test_subscription test_actions_sub test_actions)\<lparr>s_ack_deadline_seconds := 30\<rparr>) x);
       (_, x) \<leftarrow> unwrap (b_publish backend (relay_env 2) test_actions [test_msg ''act'' [(''source'', ''relay'')]] x);
       (pulled, x) \<leftarrow> unwrap (b_pull backend (relay_env 3) test_actions_sub 10 x);
       assert (length pulled = 1)
     })"

lemma publish_to_actions_topic_stays_local_passes: publish_to_actions_topic_stays_local
  unfolding publish_to_actions_topic_stays_local_def Let_def relay_operations by code_simp

definition irrigation_topic :: string where
  "irrigation_topic = ''projects/fasal-onprem/topics/irrigation.required''"

definition retried_publish_without_idempotency_key_dedupes_at_relay :: bool where
  "retried_publish_without_idempotency_key_dedupes_at_relay =
     (let m = test_msg ''{\"x\":1}'' [(''source'', ''s''), (''severity'', ''info'')]
      in passes (do {
        (cfg, x) \<leftarrow> unwrap_pure (relay_events_new None ''http://mock'' None test_actions);
        let backend = relay_events_backend cfg (mock_server (\<lambda>_. True));
        let x = snd (b_create_topic backend (relay_env 0) (test_topic irrigation_topic) x);
        (_, x) \<leftarrow> unwrap (b_publish backend (relay_env 1) irrigation_topic [m] x);
        (_, x) \<leftarrow> unwrap (b_publish backend (relay_env 2) irrigation_topic [m] x);
        Some x
      }))"

lemma retried_publish_without_idempotency_key_dedupes_at_relay_passes:
  retried_publish_without_idempotency_key_dedupes_at_relay
  unfolding retried_publish_without_idempotency_key_dedupes_at_relay_def Let_def relay_operations by code_simp

definition explicit_idempotency_key_wins :: bool where
  "explicit_idempotency_key_wins =
     passes (do {
       (cfg, x) \<leftarrow> unwrap_pure (relay_events_new None ''http://mock'' None test_actions);
       let backend = relay_events_backend cfg (mock_server (\<lambda>ev. ev_idempotency_key ev = ''fixed-key''));
       let x = snd (b_create_topic backend (relay_env 0) (test_topic irrigation_topic) x);
       (_, x) \<leftarrow> unwrap (b_publish backend (relay_env 1) irrigation_topic
         [test_msg ''{}'' [(''idempotency_key'', ''fixed-key''), (''source'', ''s'')]] x);
       Some x
     })"

lemma explicit_idempotency_key_wins_passes: explicit_idempotency_key_wins
  unfolding explicit_idempotency_key_wins_def Let_def relay_operations by code_simp

section \<open>The gRPC stub\<close>

definition stub_returns_not_implemented :: "http_relay \<Rightarrow> bool" where
  "stub_returns_not_implemented backend =
     (case fst (b_publish grpc_relay_backend (test_env (knows []) 0) ''projects/demo/topics/t'' [new_message_default] backend) of
        Err err \<Rightarrow> str_contains (error_text err) ''not fully implemented''
      | _ \<Rightarrow> False)"

lemma stub_returns_not_implemented_passes: "stub_returns_not_implemented backend"
proof -
  have "str_contains (error_text (case stub of Err err \<Rightarrow> err)) ''not fully implemented''"
    by code_simp
  then show ?thesis
    by (simp add: stub_returns_not_implemented_def grpc_relay_backend_def stub2_def stub_def)
qed

end
