(* ===== verification/Spec2Isabelle.thy ===== *)
theory Spec2Isabelle
  imports Store_Findings Operation_Claims Component_Claims Run_Claims Component_Tests
begin

text \<open>
  A verification development of the relay-pubsub gateway, a server that speaks Google Cloud
  Pub/Sub over gRPC and HTTP and keeps topics, subscriptions and messages in memory or
  hands them on to Relay. All sources named below are under \<open>src/src/\<close>.

  \<^bold>\<open>The program.\<close> A request comes in over gRPC (\<open>grpc.rs\<close>) or HTTP (\<open>rest.rs\<close>), is
  authenticated and authorized for the project of one resource (\<open>auth.rs\<close>), converted to the
  data model (\<open>model.rs\<close>), and carried out by a backend, an implementation of one trait
  (\<open>backend.rs\<close>): the memory store (\<open>memory.rs\<close>); the relay-events backend
  (\<open>relay_events_backend.rs\<close>), which is the memory store but for the forwarding of
  publishes; the older HTTP client of Relay (\<open>http_backend.rs\<close>); a stub
  (\<open>grpc_backend.rs\<close>). The store uses the attribute filters (\<open>filter.rs\<close>), the schema
  checks (\<open>schema_validate.rs\<close>) and the CloudEvents enrichment (\<open>cloudevents.rs\<close>). Beside the
  requests there are a push dispatcher that polls the backend (\<open>push.rs\<close>), a gateway for
  actions that publishes under idempotency keys (\<open>action_gateway.rs\<close>), and a ring buffer of
  log lines for the console (\<open>log_buffer.rs\<close>). A start (\<open>main.rs\<close>) reads the settings
  (\<open>config.rs\<close>), opens the chosen backend, creates the topics and the queue that a
  relay-events server begins with, and finds or makes the certificate (\<open>tls.rs\<close>).

  \<^bold>\<open>Modelling.\<close>
  \<^item> A string or byte vector is the list of its bytes (UTF-8), so that lengths, prefixes and
    the order of names are the code's. \<open>u32\<close> and \<open>u64\<close> are words; \<open>usize\<close> is a natural number
    with the wrap-around written where it matters (\<open>paginate\<close>); a signed integer is an integer,
    cut where the code casts it (\<open>as_u32\<close>, \<open>as_i32\<close>, \<open>cut_i32\<close>). A point in time is an integer
    of nanoseconds.
  \<^item> A \<open>HashMap\<close> is an association list behind \<open>hm_get\<close>, \<open>hm_insert\<close>, \<open>hm_remove\<close>; where the
    code iterates over one, the order is an input.
  \<^item> An operation of the store is a function of an environment (clock, fresh identifiers,
    order of iteration, outcome of persisting, JSON parser), its arguments and the state; it
    returns \<open>Ok\<close>, \<open>Err\<close> or \<open>Panic\<close>, with the new state. The code holds one write lock during
    an operation, so an operation is one step; requests interleave at operations.
  \<^item> A backend is an object of the trait: the record \<open>relay_backend\<close> of its methods, over a state
    of its own. Both surfaces, the push dispatcher and the action gateway are defined and
    verified over any such record; the locale \<open>answering_backend\<close> says what they rely on, and is
    interpreted on all four backends.
  \<^item> A panic (an index out of range, an unwrap of nothing) is a value, and no theorem assumes
    it away: C1 shows that it does not happen in the reachable states, C9 the one way around.
  \<^item> Code of other packages is a parameter: the JSON parser, base64, SHA-256, RFC 3339, the
    JWT library, the HTTP client and the servers it talks to. Hypotheses about them are in the
    statements: that base64 decodes what it encoded, that fresh identifiers are fresh.

  \<^bold>\<open>Theories.\<close>
  \<^item> \<open>Relay_Prelude\<close>, \<open>Byte_Strings\<close>: words with saturation, hash maps with their laws as a
    locale, string functions of the Rust library.
  \<^item> \<open>Relay_Model\<close>: the records of \<open>model.rs\<close>, the error type, \<open>paginate\<close>, listings.
  \<^item> \<open>Attribute_Filter\<close>, \<open>Schema_Validate\<close>, \<open>Cloud_Events\<close>: the three helpers of the store.
  \<^item> \<open>Store_State\<close>, \<open>Store_Admin\<close>, \<open>Store_Messages\<close>, \<open>Store_Inventory\<close>: \<open>memory.rs\<close>, its
    state, its administrative operations, publish, pull, acknowledge, seek, and the report of
    the console; \<open>Store_Persist\<close> is the file it keeps its state in. \<open>pull_loop\<close> follows the
    loop of \<open>pull\<close> step by step; it is total, by a measure on what is left to look at.
  \<^item> \<open>Backend\<close>: the trait, its operations and its contract, and the memory store as an object of
    it. \<open>Http_Relay\<close> and \<open>Backends\<close> hold the other three objects.
  \<^item> \<open>Store_Invariant\<close>, \<open>Ack_Correct\<close>, \<open>Pull_Loop\<close>, \<open>Pull_Rounds\<close>, \<open>Pull_Correct\<close>,
    \<open>Publish_Correct\<close>: the invariant of a subscription and of the pull loop, and what each
    operation does in their terms.
  \<^item> \<open>Store_Steps\<close>, \<open>Store_Reach\<close>, \<open>Store_Traces\<close>, \<open>Store_Properties\<close>: the requests as one
    datatype, the reachable states, runs and what they preserve. \<open>Lifecycle\<close>: the specification
    of a subscription as phases of its messages, and that every request refines it.
    \<open>Store_Samples\<close> holds the concrete inputs of the witnesses.
  \<^item> \<open>Auth\<close>, \<open>Log_Buffer\<close>, \<open>Relay_Events\<close>, \<open>Http_Relay\<close>, \<open>Action_Gateway\<close>, \<open>Push_Dispatch\<close>,
    \<open>Tls_Files\<close>: one theory for each of the files of these names. The action gateway works with any backend
    that is an \<open>idempotent_publisher\<close>, which is shown of the memory store and of the
    relay-events backend.
  \<^item> \<open>Rest_Json\<close>, \<open>Rest_Api\<close>, \<open>Rest_Admin\<close>, \<open>Rest_Correct\<close>: \<open>rest.rs\<close>, the conversions, the
    dispatch with its handlers, the console's endpoints, and that each route is one operation
    of the backend.
  \<^item> \<open>Grpc_Convert\<close>, \<open>Grpc_Api\<close>, \<open>Grpc_Stream\<close>, \<open>Grpc_Correct\<close>: \<open>grpc.rs\<close>, the messages, the
    unary calls, and the streaming pull as a task whose calls interleave with those of other
    clients. \<open>Surfaces\<close> compares the gRPC and the HTTP surface.
  \<^item> \<open>Startup\<close>: the settings with their defaults, the opening of the backend, the seeds, and
    what \<open>main\<close> hands to the listeners (\<open>start_server\<close>). \<open>Http_Server\<close>: the routes, and a request
    as a step of the whole state behind the HTTP listener (\<open>http_serve\<close>). \<open>Metrics\<close>: the
    counters' families, and what each call, stream, request and tick counts. \<open>Server_Run\<close>: the
    running server, whose steps are HTTP requests, unary calls, steps of streams, operations of
    the dispatcher and log lines, in any order.
  \<^item> The properties are in \<open>Store_Claims\<close> (C1 to C6, C8, C13), \<open>Store_Findings\<close> (C7, C9, C29),
    \<open>Operation_Claims\<close> (C10 to C12, C14, C15), \<open>Component_Claims\<close> (C17, C19, C21, C23, C25),
    \<open>Gateway_Claims\<close> (C27, C28, C30 to C34), \<open>Rest_Claims\<close> (C35 to C37), \<open>Grpc_Claims\<close> (C22, C39,
    C40), \<open>Server_Claims\<close> (C20, C24, C26, C38) and \<open>Run_Claims\<close> (C16, C18).
  \<^item> \<open>Store_Tests\<close>, \<open>Component_Tests\<close>: the unit tests of the source files, translated call by
    call; each is evaluated and passes on the model, so that where the code's own tests look,
    the model answers as the code does.

  \<^bold>\<open>What is shown.\<close>
  \<^item> Of the store: no reachable state panics (C1); a pull delivers only matching, unleased,
    due messages, in order of their key, and misses none that is due (C2 to C4); a run loses no
    message and never redelivers an acknowledged one (C5, C6); a pull returns after as many
    rounds as there are unacknowledged messages, at most (C13); publish, deadlines and
    seeks do exactly what they promise (C10 to C12, C14, C15), as do snapshots (lemma
    \<open>snapshot_restores\<close>) and listings (C25); every request refines the lifecycle of a
    subscription's messages (C8); a restart finds what the last successful request left (C23). Three ways to
    lose messages are shown to be real (C7, C9, C29).
  \<^item> Of the helpers: filters are parsed and printed back, payload checks are
    characterised, retry delays computed on words are the mathematical ones (C17, C19, C21).
  \<^item> Of the surroundings: whose token is accepted (C27), the log buffer, the reports, forwarding
    to Relay, at-most-once actions and the push dispatcher (C28, C30 to C34).
  \<^item> Of the surfaces: nothing changes without authorization, each request is one operation of
    the backend, errors keep their kind, conversions lose nothing but what is named, and both
    surfaces agree (C22, C35, C37, C39). Where the checks can be evaded is shown as well: by a
    field of the body (C36), by the later frames of a stream (C40), by the name in a schema
    (C39).
  \<^item> Of the whole server: a start with the relay-events backend is ready for commands (C26); a
    command accepted at \<open>/v1/actions\<close> is delivered to its consumer (C20); an HTTP request to any
    path is answered, in one of the documented forms, and is one operation of the backend
    (C38); what it changes was authorized, but on the route of the commands, which asks for no
    token (C24). In every order of the tasks' steps nothing panics and no counter is called
    with wrong labels (C18), and the phases of a subscription's messages follow its lifecycle
    (C16).

  \<^bold>\<open>Bounds.\<close> \<open>walk_op\<close> and \<open>walk_pages\<close> follow page tokens with fuel; more fuel than there are
  items is enough, and C25 asks for that. Listings are complete while the number of items and
  one page fit in \<open>usize\<close>. Fresh identifiers are asked to differ from the keys of the present
  leases only.

  \<^bold>\<open>Not modelled.\<close> JSON text: its printer and parser are parameters, and the derived
  deserialisation is given for objects with named fields only, the form that is written; what
  an answer of Relay decodes to is a parameter. Whether writing a file succeeds is an input.
  Parsing the command line, sockets and signals (\<open>config.rs\<close>, \<open>main.rs\<close>) are input and output. The
  counters are calls of a library, given as lists; how it adds and prints them is not modelled. The HTTP framework's look-up of a route and its
  extractors, and the server that protobuf generates, are parameters or left out, as are the
  shell scripts that drive a running server. Time passes
  between requests only; the stream's timer fires when the environment of a run says so.
\<close>

end
